theory Spec2Isabelle
  imports
    Complex_Main
    "HOL-Library.Word"
    "HOL-Library.Multiset"
    "HOL-Library.Char_ord"
    "HOL-Library.List_Lexorder"
    "HOL-Library.Product_Lexorder"
begin

unbundle bit_operations_syntax

section \<open>Nearest expiry (option\_chain.ts)\<close>

text \<open>
  \<^verbatim>\<open>pickNearestExpiry(expiries)\<close> reads today's date from \<^verbatim>\<open>istToday()\<close>, which
  formats the clock in Asia/Kolkata as YYYY-MM-DD; the model takes that string as the
  argument \<open>today\<close>. The guard \<^verbatim>\<open>!expiries?.length\<close> also covers a missing list, so the
  argument is an optional list. \<^verbatim>\<open>slice().sort()\<close> without a comparator and \<^verbatim>\<open>e >= today\<close>
  both compare strings by code units, which is the lexicographic order on character lists.
\<close>

definition pickNearestExpiry :: "string \<Rightarrow> string list option \<Rightarrow> string option" where
  "pickNearestExpiry today expiries =
     (case expiries of
        None \<Rightarrow> None
      | Some es \<Rightarrow>
          if length es = 0 then None
          else
            let sorted = sort es in
            (case find (\<lambda>e. today \<le> e) sorted of
               Some e \<Rightarrow> Some e
             | None \<Rightarrow> (if sorted = [] then None else Some (last sorted))))"


section \<open>Errors thrown by the HTTP client and the store driver\<close>

text \<open>
  The code inspects a thrown value \<^verbatim>\<open>e\<close> only through \<^verbatim>\<open>e?.response?.status\<close> (the HTTP
  client), \<^verbatim>\<open>e?.code\<close> (the store driver) and \<^verbatim>\<open>e?.message\<close>; an absent field reads as
  \<^verbatim>\<open>undefined\<close>, here \<open>None\<close>.
\<close>

record js_error =
  response_status :: "int option"
  code :: "int option"
  message :: string

text \<open>\<^verbatim>\<open>status === 429 || (status >= 500 && status < 600)\<close>; false for \<^verbatim>\<open>undefined\<close>.\<close>

definition retryable_status :: "int option \<Rightarrow> bool" where
  "retryable_status s =
     (case s of None \<Rightarrow> False | Some n \<Rightarrow> n = 429 \<or> (500 \<le> n \<and> n < 600))"

section \<open>Option-chain watcher tick (app.ts)\<close>

text \<open>
  The closure variables of \<^verbatim>\<open>startOptionChainWatcher\<close> that \<^verbatim>\<open>tickOnce\<close> reads and writes
  form the feed state. Everything a tick asks of the outside world (the clock, the expiry
  resolution, the upstream fetch, the two store writes) is an answer given in advance in
  \<open>tick_env\<close>; the calls the tick issues are recorded in order as effects.
\<close>

record feed_state =
  stopped :: bool
  inFlight :: bool
  backoffSteps :: int
  expiry :: "string option"
  lastExpiryResolveDayKey :: string
  lastClosedLog :: int

record oc_response =
  last_price :: real
  oc_keys :: "string list option"

record tick_env =
  market_open :: bool
  now_ms :: int
  day_key :: string
  resolved :: "js_error + string option"
  fetched :: "js_error + oc_response"
  upserted :: "js_error option"
  inserted :: "js_error option"

datatype effect =
    LogClosed
  | ResolveExpiry
  | FetchOptionChain string
  | UpsertOptionChain string
  | InsertOptionChainTick string

definition MAX_BACKOFF_STEPS :: int where
  "MAX_BACKOFF_STEPS = 12"

text \<open>\<^verbatim>\<open>!expiry\<close>: null and the empty string are both falsy.\<close>

definition falsy :: "string option \<Rightarrow> bool" where
  "falsy e = (case e of None \<Rightarrow> True | Some s \<Rightarrow> s = [])"

text \<open>
  The day-change block at the head of the \<^verbatim>\<open>try\<close>: the inner \<^verbatim>\<open>try/catch\<close> swallows a
  failed resolution and the day key is stored either way.
\<close>

definition reanchor :: "tick_env \<Rightarrow> feed_state \<Rightarrow> feed_state \<times> effect list" where
  "reanchor env st =
     (let dk = day_key env in
      if dk \<noteq> lastExpiryResolveDayKey st then
        (let st' =
           (case resolved env of
              Inr newExp \<Rightarrow>
                if \<not> falsy newExp \<and> newExp \<noteq> expiry st then st\<lparr>expiry := newExp\<rparr> else st
            | Inl e \<Rightarrow> st)
         in (st'\<lparr>lastExpiryResolveDayKey := dk\<rparr>, [ResolveExpiry]))
      else (st, []))"

text \<open>
  \<^verbatim>\<open>toNormalizedArray(data.oc)\<close> calls \<^verbatim>\<open>Object.entries\<close>, which throws a TypeError when
  the field is absent.
\<close>

definition type_error :: js_error where
  "type_error = \<lparr>response_status = None, code = None,
     message = ''Cannot convert undefined or null to object''\<rparr>"

text \<open>
  The body of the \<^verbatim>\<open>try\<close> block: \<open>Inl e\<close> when it throws \<open>e\<close>, \<open>Inr ()\<close> when it
  completes (also through the early \<^verbatim>\<open>return\<close> of the expiry guard).
\<close>

definition tick_try ::
  "tick_env \<Rightarrow> feed_state \<Rightarrow> (js_error + unit) \<times> feed_state \<times> effect list" where
  "tick_try env st =
     (let (st1, eff1) = reanchor env st in
      if falsy (expiry st1) then (Inr (), st1, eff1)
      else
        (let ex = the (expiry st1) in
         case fetched env of
           Inl e \<Rightarrow> (Inl e, st1, eff1 @ [FetchOptionChain ex])
         | Inr data \<Rightarrow>
             (case oc_keys data of
                None \<Rightarrow> (Inl type_error, st1, eff1 @ [FetchOptionChain ex])
              | Some keys \<Rightarrow>
                  (case upserted env of
                     Some e \<Rightarrow>
                       (Inl e, st1, eff1 @ [FetchOptionChain ex, UpsertOptionChain ex])
                   | None \<Rightarrow>
                       (case inserted env of
                          Some e \<Rightarrow>
                            (Inl e, st1,
                             eff1 @ [FetchOptionChain ex, UpsertOptionChain ex,
                                     InsertOptionChainTick ex])
                        | None \<Rightarrow>
                            (Inr (),
                             (if backoffSteps st1 > 0
                              then st1\<lparr>backoffSteps := max 0 (backoffSteps st1 - 1)\<rparr>
                              else st1),
                             eff1 @ [FetchOptionChain ex, UpsertOptionChain ex,
                                     InsertOptionChainTick ex]))))))"

text \<open>The \<^verbatim>\<open>catch\<close> block: only a 429 or 5xx status moves the counter.\<close>

definition tick_catch :: "js_error \<Rightarrow> feed_state \<Rightarrow> feed_state" where
  "tick_catch e st =
     (let status = response_status e in
      if retryable_status status
      then st\<lparr>backoffSteps := min MAX_BACKOFF_STEPS (backoffSteps st + 1)\<rparr>
      else st)"

text \<open>
  \<^verbatim>\<open>tickOnce\<close>; the first argument is the configuration flag \<^verbatim>\<open>MARKET_HOURS_ONLY\<close>. The
  \<^verbatim>\<open>finally\<close> block runs after the \<^verbatim>\<open>try\<close> and after the \<^verbatim>\<open>catch\<close>.
\<close>

definition tickOnce :: "bool \<Rightarrow> tick_env \<Rightarrow> feed_state \<Rightarrow> feed_state \<times> effect list" where
  "tickOnce MARKET_HOURS_ONLY env st =
     (if stopped st \<or> inFlight st then (st, [])
      else if MARKET_HOURS_ONLY \<and> \<not> market_open env then
        (if now_ms env - lastClosedLog st > 60000
         then (st\<lparr>lastClosedLog := now_ms env\<rparr>, [LogClosed])
         else (st, []))
      else
        (let st0 = st\<lparr>inFlight := True\<rparr>;
             (r, st1, eff) = tick_try env st0;
             st2 = (case r of Inl e \<Rightarrow> tick_catch e st1 | Inr u \<Rightarrow> st1)
         in (st2\<lparr>inFlight := False\<rparr>, eff)))"

text \<open>A tick proceeds when it passes both early returns.\<close>

definition proceeds :: "bool \<Rightarrow> tick_env \<Rightarrow> feed_state \<Rightarrow> bool" where
  "proceeds MARKET_HOURS_ONLY env st \<longleftrightarrow>
     \<not> stopped st \<and> \<not> inFlight st \<and> \<not> (MARKET_HOURS_ONLY \<and> \<not> market_open env)"

text \<open>The loop calls \<^verbatim>\<open>tickOnce\<close> once per round; a run is the list of the rounds' answers.\<close>

fun run_ticks :: "bool \<Rightarrow> tick_env list \<Rightarrow> feed_state \<Rightarrow> feed_state" where
  "run_ticks mho [] st = st"
| "run_ticks mho (env # envs) st = run_ticks mho envs (fst (tickOnce mho env st))"

text \<open>The state when the loop starts: the expiry is resolved before the first tick.\<close>

definition initial_state :: "string \<Rightarrow> string \<Rightarrow> feed_state" where
  "initial_state ex dk =
     \<lparr>stopped = False, inFlight = False, backoffSteps = 0, expiry = Some ex,
      lastExpiryResolveDayKey = dk, lastClosedLog = 0\<rparr>"

definition http_error :: "int \<Rightarrow> js_error" where
  "http_error s = \<lparr>response_status = Some s, code = None, message = ''Request failed''\<rparr>"

definition env_failing :: "string \<Rightarrow> int \<Rightarrow> tick_env" where
  "env_failing dk s =
     \<lparr>market_open = True, now_ms = 0, day_key = dk, resolved = Inr None,
      fetched = Inl (http_error s), upserted = None, inserted = None\<rparr>"

definition env_ok :: "string \<Rightarrow> tick_env" where
  "env_ok dk =
     \<lparr>market_open = True, now_ms = 0, day_key = dk, resolved = Inr None,
      fetched = Inr \<lparr>last_price = 25000, oc_keys = Some [''25000.000000'']\<rparr>,
      upserted = None, inserted = None\<rparr>"

section \<open>Retry wrappers (option\_chain.ts, quote service)\<close>

text \<open>
  \<^verbatim>\<open>ocRetry(fn, tries)\<close> and \<^verbatim>\<open>quoteRetry(fn, tries)\<close> call \<^verbatim>\<open>fn\<close> through the pacer, which
  hands back what \<^verbatim>\<open>fn\<close> returns or throws. The model gives the outcome of the \<open>i\<close>-th
  call as \<open>fn i\<close> and records the calls and the sleeps in order. The thrown value is
  optional because \<^verbatim>\<open>lastErr\<close> is still \<^verbatim>\<open>undefined\<close> when the loop body never ran.
\<close>

datatype retry_event = Call nat | Sleep int

text \<open>
  \<^verbatim>\<open>Math.min(15000, 1000 * (1 << i))\<close>: the shift works on 32-bit integers and takes its
  count modulo 32.
\<close>

definition oc_wait :: "nat \<Rightarrow> int" where
  "oc_wait i = min 15000 (1000 * sint (push_bit (i mod 32) (1 :: 32 word)))"

function ocRetry_from ::
  "(nat \<Rightarrow> js_error + 'a) \<Rightarrow> nat \<Rightarrow> nat \<Rightarrow> js_error option
     \<Rightarrow> (js_error option + 'a) \<times> retry_event list" where
  "ocRetry_from fn tries i lastErr =
     (if i < tries then
        (case fn i of
           Inr v \<Rightarrow> (Inr v, [Call i])
         | Inl e \<Rightarrow>
             (let s = response_status e in
              if s = Some 401 then (Inl (Some e), [Call i])
              else if retryable_status s then
                (let wait = oc_wait i;
                     (r, tr) = ocRetry_from fn tries (i + 1) (Some e)
                 in (r, Call i # Sleep wait # tr))
              else (Inl (Some e), [Call i])))
      else (Inl lastErr, []))"
  by pat_completeness auto
termination
  by (relation "measure (\<lambda>(fn, tries, i, lastErr). tries - i)") auto

definition ocRetry ::
  "(nat \<Rightarrow> js_error + 'a) \<Rightarrow> nat \<Rightarrow> (js_error option + 'a) \<times> retry_event list" where
  "ocRetry fn tries = ocRetry_from fn tries 0 None"

text \<open>\<^verbatim>\<open>Math.min(8000, 1000 * (i + 1))\<close>.\<close>

definition quote_wait :: "nat \<Rightarrow> int" where
  "quote_wait i = min 8000 (1000 * (int i + 1))"

function quoteRetry_from ::
  "(nat \<Rightarrow> js_error + 'a) \<Rightarrow> nat \<Rightarrow> nat \<Rightarrow> js_error option
     \<Rightarrow> (js_error option + 'a) \<times> retry_event list" where
  "quoteRetry_from fn tries i lastErr =
     (if i < tries then
        (case fn i of
           Inr v \<Rightarrow> (Inr v, [Call i])
         | Inl err \<Rightarrow>
             (let status = response_status err in
              if retryable_status status then
                (let wait = quote_wait i;
                     (r, tr) = quoteRetry_from fn tries (i + 1) (Some err)
                 in (r, Call i # Sleep wait # tr))
              else (Inl (Some err), [Call i])))
      else (Inl lastErr, []))"
  by pat_completeness auto
termination
  by (relation "measure (\<lambda>(fn, tries, i, lastErr). tries - i)") auto

definition quoteRetry ::
  "(nat \<Rightarrow> js_error + 'a) \<Rightarrow> nat \<Rightarrow> (js_error option + 'a) \<times> retry_event list" where
  "quoteRetry fn tries = quoteRetry_from fn tries 0 None"

text \<open>The attempts of a trace, in order.\<close>

fun calls :: "retry_event list \<Rightarrow> nat list" where
  "calls [] = []"
| "calls (Call i # tr) = i # calls tr"
| "calls (Sleep w # tr) = calls tr"

text \<open>An upstream that answers the first \<open>k\<close> calls with HTTP status \<open>s\<close> and then succeeds.\<close>

definition failing_until :: "nat \<Rightarrow> int \<Rightarrow> nat \<Rightarrow> js_error + unit" where
  "failing_until k s i = (if i < k then Inl (http_error s) else Inr ())"

section \<open>Market clock (gexLevelsCalc.ts, advdecSave.ts, app.ts)\<close>

text \<open>
  A \<^verbatim>\<open>Date\<close> is its count of milliseconds since the epoch. The civil reading of an
  instant in a zone is computed from the zone's offset in minutes east of UTC; 1 January
  1970 was a Thursday, and weekdays count from Sunday = 0 as \<^verbatim>\<open>getDay()\<close> does.
\<close>

definition civil_ms :: "int \<Rightarrow> int \<Rightarrow> int" where
  "civil_ms offset_min d = d + offset_min * 60000"

definition civil_weekday :: "int \<Rightarrow> int \<Rightarrow> int" where
  "civil_weekday offset_min d = (4 + civil_ms offset_min d div 86400000) mod 7"

definition civil_hour :: "int \<Rightarrow> int \<Rightarrow> int" where
  "civil_hour offset_min d = (civil_ms offset_min d mod 86400000) div 3600000"

definition civil_minute :: "int \<Rightarrow> int \<Rightarrow> int" where
  "civil_minute offset_min d = (civil_ms offset_min d mod 3600000) div 60000"

definition civil_second :: "int \<Rightarrow> int \<Rightarrow> int" where
  "civil_second offset_min d = (civil_ms offset_min d mod 60000) div 1000"

text \<open>
  Asia/Kolkata has been UTC+05:30, without daylight saving, since 15 October 1945. The
  model uses this offset for every instant, so it follows \<^verbatim>\<open>Intl.DateTimeFormat\<close> for the
  instants from that date on; earlier instants, where the zone had other offsets, are
  outside what the model describes.
\<close>

definition IST_OFFSET_MIN :: int where
  "IST_OFFSET_MIN = 330"

definition weekday_short :: "int \<Rightarrow> string" where
  "weekday_short w =
     (if w = 0 then ''Sun'' else if w = 1 then ''Mon'' else if w = 2 then ''Tue''
      else if w = 3 then ''Wed'' else if w = 4 then ''Thu'' else if w = 5 then ''Fri''
      else ''Sat'')"

record ist_parts =
  weekday :: string
  hour :: int
  minute :: int
  second :: int

text \<open>
  \<^verbatim>\<open>getIstParts(d)\<close>: \<^verbatim>\<open>Intl.DateTimeFormat\<close> with \<^verbatim>\<open>timeZone: "Asia/Kolkata"\<close>, a short
  weekday name and 24-hour two-digit fields. An engine that prints midnight as hour 24
  instead of 00 gives the same market-open answer, since both readings lie outside the
  window.
\<close>

definition getIstParts :: "int \<Rightarrow> ist_parts" where
  "getIstParts d =
     \<lparr>weekday = weekday_short (civil_weekday IST_OFFSET_MIN d),
      hour = civil_hour IST_OFFSET_MIN d,
      minute = civil_minute IST_OFFSET_MIN d,
      second = civil_second IST_OFFSET_MIN d\<rparr>"

definition MARKET_START_MIN :: int where
  "MARKET_START_MIN = 9 * 60 + 15"

definition MARKET_END_MIN :: int where
  "MARKET_END_MIN = 15 * 60 + 30"

definition isMarketOpenIst :: "int \<Rightarrow> bool" where
  "isMarketOpenIst d =
     (let p = getIstParts d;
          mins = hour p * 60 + minute p;
          isWeekday = (weekday p \<noteq> ''Sat'' \<and> weekday p \<noteq> ''Sun'')
      in isWeekday \<and> mins \<ge> MARKET_START_MIN \<and> mins \<le> MARKET_END_MIN)"

text \<open>
  \<^verbatim>\<open>isMarketOpen()\<close> of app.ts and of the quote service: \<^verbatim>\<open>getISTDate()\<close> returns
  \<^verbatim>\<open>new Date()\<close> unchanged, and \<^verbatim>\<open>getDay()\<close>, \<^verbatim>\<open>getHours()\<close> and \<^verbatim>\<open>getMinutes()\<close> read it in
  the zone of the host, whose offset at that instant is the first argument.
\<close>

definition isMarketOpen :: "int \<Rightarrow> int \<Rightarrow> bool" where
  "isMarketOpen host_offset_min now =
     (let day = civil_weekday host_offset_min now in
      if day = 0 \<or> day = 6 then False
      else
        (let totalMinutes = civil_hour host_offset_min now * 60 + civil_minute host_offset_min now
         in totalMinutes \<ge> 9 * 60 + 15 \<and> totalMinutes \<le> 15 * 60 + 30))"

section \<open>Snapshot persistence (gexLevelsCalc.ts, advdecSave.ts)\<close>

text \<open>
  The store driver is outside the repository. Its \<^verbatim>\<open>insertOne\<close> on a collection with a
  unique index rejects a document whose index key is already present with error code
  11000 and leaves the collection as it was; any other failure of the driver is the
  optional \<open>fault\<close>. The index key is the function \<open>key\<close>: symbol, expiry, trading day and
  minute bucket for \<^verbatim>\<open>gex_levels\<close>; symbol, trading day, bin and minute bucket for
  \<^verbatim>\<open>advdec_snapshots\<close>. The inserted id is the position of the new document.
\<close>

definition duplicate_key_error :: js_error where
  "duplicate_key_error =
     \<lparr>response_status = None, code = Some 11000, message = ''E11000 duplicate key error''\<rparr>"

definition insertOne ::
  "('d \<Rightarrow> 'k) \<Rightarrow> js_error option \<Rightarrow> 'd list \<Rightarrow> 'd \<Rightarrow> (js_error + nat) \<times> 'd list" where
  "insertOne key fault coll doc =
     (case fault of
        Some e \<Rightarrow> (Inl e, coll)
      | None \<Rightarrow>
          if key doc \<in> key ` set coll then (Inl duplicate_key_error, coll)
          else (Inr (length coll), coll @ [doc]))"

record 'd gex_save_result =
  saved :: bool
  doc :: 'd

text \<open>The last statements of \<^verbatim>\<open>computeAndSaveSnapshot\<close>, from \<^verbatim>\<open>let saved = false\<close> on.\<close>

definition save_gex_snapshot ::
  "('d \<Rightarrow> 'k) \<Rightarrow> js_error option \<Rightarrow> 'd list \<Rightarrow> 'd
     \<Rightarrow> (js_error + 'd gex_save_result) \<times> 'd list" where
  "save_gex_snapshot key fault coll d =
     (case insertOne key fault coll d of
        (Inr i, coll') \<Rightarrow> (Inr \<lparr>saved = True, doc = d\<rparr>, coll')
      | (Inl e, coll') \<Rightarrow>
          if code e \<noteq> Some 11000 then (Inl e, coll')
          else (Inr \<lparr>saved = False, doc = d\<rparr>, coll'))"

datatype advdec_save_result = Saved nat | Duplicate

text \<open>
  The last statements of \<^verbatim>\<open>saveAdvDecSnapshot\<close>: \<open>Saved i\<close> is
  \<^verbatim>\<open>{saved: true, _id: i, meta}\<close> and \<open>Duplicate\<close> is \<^verbatim>\<open>{saved: false, duplicate: true}\<close>.
\<close>

definition save_advdec_snapshot ::
  "('d \<Rightarrow> 'k) \<Rightarrow> js_error option \<Rightarrow> 'd list \<Rightarrow> 'd
     \<Rightarrow> (js_error + advdec_save_result) \<times> 'd list" where
  "save_advdec_snapshot key fault coll d =
     (case insertOne key fault coll d of
        (Inr i, coll') \<Rightarrow> (Inr (Saved i), coll')
      | (Inl e, coll') \<Rightarrow>
          if code e = Some 11000 then (Inr Duplicate, coll')
          else (Inl e, coll'))"

definition advdec_saved :: "advdec_save_result \<Rightarrow> bool" where
  "advdec_saved r = (case r of Saved i \<Rightarrow> True | Duplicate \<Rightarrow> False)"

definition connection_error :: js_error where
  "connection_error = \<lparr>response_status = None, code = None, message = ''connection reset''\<rparr>"

section \<open>Level selector (gexLevelsCalc.ts)\<close>

text \<open>
  A JavaScript number is a finite value, one of the two infinities, or NaN. Finite values
  are read as real numbers: the selector only compares them, takes absolute values and
  subtracts them inside comparators, where only the sign of the difference is used, and
  the sign of a difference of two finite doubles is the sign of the exact difference.
\<close>

datatype number = Num real | NaN | PosInfinity | NegInfinity

text \<open>\<^verbatim>\<open>finite(n)\<close>: \<^verbatim>\<open>typeof n === "number" && Number.isFinite(n)\<close>.\<close>

fun finite_number :: "number \<Rightarrow> bool" where
  "finite_number (Num x) = True"
| "finite_number n = False"

fun val :: "number \<Rightarrow> real" where
  "val (Num x) = x"
| "val n = 0"

text \<open>The operators \<^verbatim>\<open><\<close>, \<^verbatim>\<open><=\<close>, \<^verbatim>\<open>===\<close>, binary \<^verbatim>\<open>-\<close> and \<^verbatim>\<open>Math.abs\<close> on numbers.\<close>

fun num_lt :: "number \<Rightarrow> number \<Rightarrow> bool" where
  "num_lt (Num a) (Num b) = (a < b)"
| "num_lt NaN b = False"
| "num_lt a NaN = False"
| "num_lt a NegInfinity = False"
| "num_lt NegInfinity b = True"
| "num_lt PosInfinity b = False"
| "num_lt a PosInfinity = True"

definition num_eq :: "number \<Rightarrow> number \<Rightarrow> bool" where
  "num_eq a b \<longleftrightarrow> a \<noteq> NaN \<and> a = b"

definition num_le :: "number \<Rightarrow> number \<Rightarrow> bool" where
  "num_le a b \<longleftrightarrow> num_lt a b \<or> num_eq a b"

fun num_sub :: "number \<Rightarrow> number \<Rightarrow> number" where
  "num_sub (Num a) (Num b) = Num (a - b)"
| "num_sub NaN b = NaN"
| "num_sub a NaN = NaN"
| "num_sub PosInfinity PosInfinity = NaN"
| "num_sub NegInfinity NegInfinity = NaN"
| "num_sub PosInfinity b = PosInfinity"
| "num_sub NegInfinity b = NegInfinity"
| "num_sub a PosInfinity = NegInfinity"
| "num_sub a NegInfinity = PosInfinity"

fun num_abs :: "number \<Rightarrow> number" where
  "num_abs (Num a) = Num \<bar>a\<bar>"
| "num_abs NaN = NaN"
| "num_abs n = PosInfinity"

record GexRow =
  strike :: number
  gex_oi_raw :: number
  gex_vol_raw :: number
  ce_oi :: number
  pe_oi :: number
  ce_vol :: number
  pe_vol :: number

definition OI_WEIGHT :: int where
  "OI_WEIGHT = 2"

definition VOL_WEIGHT :: int where
  "VOL_WEIGHT = 1"

text \<open>
  \<^verbatim>\<open>Array.prototype.sort\<close> with a comparator. The sort is stable, and \<open>a\<close> goes after \<open>b\<close>
  only when the comparator's result is greater than zero; a NaN result counts as zero.
  For a comparator that orders its arguments consistently every stable sort returns the
  same array, so insertion from the right stands for the engine's algorithm.
\<close>

fun insort_cmp :: "('a \<Rightarrow> 'a \<Rightarrow> number) \<Rightarrow> 'a \<Rightarrow> 'a list \<Rightarrow> 'a list" where
  "insort_cmp cmp x [] = [x]"
| "insort_cmp cmp x (y # ys) =
     (if num_lt (Num 0) (cmp x y) then y # insort_cmp cmp x ys else x # y # ys)"

definition js_sort :: "('a \<Rightarrow> 'a \<Rightarrow> number) \<Rightarrow> 'a list \<Rightarrow> 'a list" where
  "js_sort cmp xs = foldr (insort_cmp cmp) xs []"

text \<open>The loop \<^verbatim>\<open>for (i = 0; i < sorted.length; i++) map.set(sorted[i].strike, i + 1)\<close>.\<close>

fun set_ranks :: "GexRow list \<Rightarrow> nat \<Rightarrow> (number \<rightharpoonup> int) \<Rightarrow> (number \<rightharpoonup> int)" where
  "set_ranks [] i m = m"
| "set_ranks (r # rs) i m = set_ranks rs (i + 1) (m(GexRow.strike r \<mapsto> int i + 1))"

definition rankMap :: "GexRow list \<Rightarrow> (GexRow \<Rightarrow> number) \<Rightarrow> bool \<Rightarrow> (number \<rightharpoonup> int)" where
  "rankMap rows key desc =
     (let sorted =
        js_sort (\<lambda>a b. if desc then num_sub (key b) (key a) else num_sub (key a) (key b)) rows
      in set_ranks sorted 0 Map.empty)"

definition rankMapAbs :: "GexRow list \<Rightarrow> (GexRow \<Rightarrow> number) \<Rightarrow> (number \<rightharpoonup> int)" where
  "rankMapAbs rows key =
     (let sorted = js_sort (\<lambda>a b. num_sub (num_abs (key a)) (num_abs (key b))) rows
      in set_ranks sorted 0 Map.empty)"

record LineMark =
  strike :: number
  label :: string
  color :: string
  side :: string

record Scored =
  strike :: number
  oiR :: int
  volR :: int
  score :: int

text \<open>\<^verbatim>\<open>m.get(k) ?? 9999\<close> and \<^verbatim>\<open>m.get(k) || 9999\<close>.\<close>

definition get_or :: "(number \<rightharpoonup> int) \<Rightarrow> number \<Rightarrow> int" where
  "get_or m k = (case m k of None \<Rightarrow> 9999 | Some v \<Rightarrow> v)"

definition get_truthy_or :: "(number \<rightharpoonup> int) \<Rightarrow> number \<Rightarrow> int" where
  "get_truthy_or m k = (case m k of None \<Rightarrow> 9999 | Some v \<Rightarrow> if v = 0 then 9999 else v)"

definition scored_of :: "(number \<rightharpoonup> int) \<Rightarrow> (number \<rightharpoonup> int) \<Rightarrow> GexRow \<Rightarrow> Scored" where
  "scored_of oiRank volRank r =
     (let oiR = get_or oiRank (GexRow.strike r);
          volR = get_or volRank (GexRow.strike r)
      in \<lparr>Scored.strike = GexRow.strike r, oiR = oiR, volR = volR,
          score = OI_WEIGHT * oiR + VOL_WEIGHT * volR\<rparr>)"

text \<open>\<^verbatim>\<open>a || b\<close> on integers: the first operand unless it is zero.\<close>

definition js_or :: "int \<Rightarrow> int \<Rightarrow> int" where
  "js_or a b = (if a \<noteq> 0 then a else b)"

definition score_cmp :: "Scored \<Rightarrow> Scored \<Rightarrow> number" where
  "score_cmp a b =
     Num (of_int (js_or (js_or (score a - score b) (oiR a - oiR b)) (volR a - volR b)))"

definition valid_row :: "GexRow \<Rightarrow> bool" where
  "valid_row r \<longleftrightarrow>
     finite_number (GexRow.strike r) \<and> finite_number (gex_oi_raw r)
     \<and> finite_number (gex_vol_raw r)
     \<and> \<not> (num_eq (gex_oi_raw r) (Num 0) \<and> num_eq (gex_vol_raw r) (Num 0))"

definition pos_rows :: "GexRow list \<Rightarrow> GexRow list" where
  "pos_rows rows =
     filter (\<lambda>r. num_lt (Num 0) (gex_oi_raw r) \<and> num_lt (Num 0) (gex_vol_raw r))
       (filter valid_row rows)"

definition neg_rows :: "GexRow list \<Rightarrow> GexRow list" where
  "neg_rows rows =
     filter (\<lambda>r. num_lt (gex_oi_raw r) (Num 0) \<and> num_lt (gex_vol_raw r) (Num 0))
       (filter valid_row rows)"

text \<open>
  The two blocks of \<^verbatim>\<open>pickLinesByRaw\<close> differ in the direction of the ranking and in the
  labels, colours and side of the marks they push.
\<close>

definition group_scored :: "GexRow list \<Rightarrow> bool \<Rightarrow> GexRow \<Rightarrow> Scored" where
  "group_scored grp desc =
     scored_of (rankMap grp GexRow.gex_oi_raw desc) (rankMap grp GexRow.gex_vol_raw desc)"

definition scored_sorted :: "GexRow list \<Rightarrow> bool \<Rightarrow> Scored list" where
  "scored_sorted grp desc = js_sort score_cmp (map (group_scored grp desc) grp)"

definition push_marks ::
  "Scored list \<Rightarrow> string \<times> string \<Rightarrow> string \<times> string \<Rightarrow> string \<Rightarrow> LineMark list" where
  "push_marks scored mk1 mk2 sd =
     (if 0 < length scored
      then [\<lparr>LineMark.strike = Scored.strike (scored ! 0), label = fst mk1,
              color = snd mk1, side = sd\<rparr>]
      else [])
     @ (if 1 < length scored
        then [\<lparr>LineMark.strike = Scored.strike (scored ! 1), label = fst mk2,
                color = snd mk2, side = sd\<rparr>]
        else [])"

record Lines =
  red :: "LineMark list"
  green :: "LineMark list"

definition pickLinesByRaw :: "GexRow list \<Rightarrow> Lines" where
  "pickLinesByRaw rows =
     (let pos = pos_rows rows;
          neg = neg_rows rows;
          red = (if pos \<noteq> []
                 then push_marks (scored_sorted pos True)
                        (''R1'', ''#ef4444'') (''R2'', ''#fca5a5'') ''ce''
                 else []);
          green = (if neg \<noteq> []
                   then push_marks (scored_sorted neg False)
                          (''S1'', ''#10b981'') (''S2'', ''#86efac'') ''pe''
                   else [])
      in \<lparr>red = red, green = green\<rparr>)"

text \<open>\<^verbatim>\<open>finite(x)\<close> on an optional argument: \<^verbatim>\<open>undefined\<close> is not finite.\<close>

definition finite_opt :: "number option \<Rightarrow> bool" where
  "finite_opt x = (case x of None \<Rightarrow> False | Some n \<Rightarrow> finite_number n)"

definition between_rows :: "GexRow list \<Rightarrow> number \<Rightarrow> number \<Rightarrow> GexRow list" where
  "between_rows rows lo hi =
     filter (\<lambda>r. finite_number (GexRow.strike r) \<and> num_le lo (GexRow.strike r)
                 \<and> num_le (GexRow.strike r) hi
                 \<and> finite_number (gex_oi_raw r) \<and> finite_number (gex_vol_raw r)) rows"

definition flip_scored :: "GexRow list \<Rightarrow> (number \<times> int) list" where
  "flip_scored between =
     (let absOiRank = rankMapAbs between gex_oi_raw;
          volRank = rankMap between gex_vol_raw True
      in map (\<lambda>r. (GexRow.strike r,
                    get_truthy_or absOiRank (GexRow.strike r)
                    + get_truthy_or volRank (GexRow.strike r))) between)"

definition pickZeroGammaStrike ::
  "GexRow list \<Rightarrow> number option \<Rightarrow> number option \<Rightarrow> number option" where
  "pickZeroGammaStrike rows r1 s1 =
     (if \<not> finite_opt r1 \<or> \<not> finite_opt s1 then None
      else
        (let lo = Num (min (val (the r1)) (val (the s1)));
             hi = Num (max (val (the r1)) (val (the s1)));
             between = between_rows rows lo hi
         in if between = [] then None
            else
              (let scored = js_sort (\<lambda>a b. Num (of_int (snd a - snd b))) (flip_scored between)
               in (case scored of [] \<Rightarrow> None | a # rest \<Rightarrow> Some (fst a)))))"

text \<open>
  The pure part of \<^verbatim>\<open>computeAndSaveSnapshot\<close>, from \<^verbatim>\<open>pickLinesByRaw(rows)\<close> to the last
  \<^verbatim>\<open>pushLevel\<close>.
\<close>

definition find_label :: "LineMark list \<Rightarrow> string \<Rightarrow> number option" where
  "find_label marks l =
     (case find (\<lambda>m. label m = l) marks of None \<Rightarrow> None | Some m \<Rightarrow> Some (LineMark.strike m))"

text \<open>The nearest-row loop of \<^verbatim>\<open>getRow\<close>, carrying \<^verbatim>\<open>best\<close> and \<^verbatim>\<open>dmin\<close>.\<close>

fun nearest :: "GexRow list \<Rightarrow> number \<Rightarrow> GexRow option \<times> number \<Rightarrow> GexRow option \<times> number" where
  "nearest [] s acc = acc"
| "nearest (r # rs) s (best, dmin) =
     (let d = num_abs (num_sub (GexRow.strike r) s)
      in if num_lt d dmin then nearest rs s (Some r, d) else nearest rs s (best, dmin))"

definition getRow :: "GexRow list \<Rightarrow> number option \<Rightarrow> GexRow option" where
  "getRow rows s =
     (if \<not> finite_opt s then None
      else
        (case find (\<lambda>r. num_eq (GexRow.strike r) (the s)) rows of
           Some exact \<Rightarrow> Some exact
         | None \<Rightarrow>
             (let (best, dmin) = nearest rows (the s) (None, PosInfinity)
              in if num_le dmin (Num (1 / 2)) then best else None)))"

record Level =
  name :: string
  strike :: number
  gex_oi_raw :: "number option"
  gex_vol_raw :: "number option"
  side :: "string option"

definition pushLevel ::
  "GexRow list \<Rightarrow> Level list \<Rightarrow> string \<Rightarrow> number option \<Rightarrow> string option \<Rightarrow> Level list" where
  "pushLevel rows levels nm s sd =
     (if \<not> finite_opt s then levels
      else
        (let row = getRow rows s
         in levels @
            [\<lparr>name = nm, strike = the s,
              gex_oi_raw = (case row of None \<Rightarrow> None | Some r \<Rightarrow> Some (GexRow.gex_oi_raw r)),
              gex_vol_raw = (case row of None \<Rightarrow> None | Some r \<Rightarrow> Some (GexRow.gex_vol_raw r)),
              side = sd\<rparr>]))"

definition compute_levels :: "GexRow list \<Rightarrow> Level list" where
  "compute_levels rows =
     (let lines = pickLinesByRaw rows;
          r1 = find_label (red lines) ''R1'';
          r2 = find_label (red lines) ''R2'';
          s1 = find_label (green lines) ''S1'';
          s2 = find_label (green lines) ''S2'';
          flip = pickZeroGammaStrike rows r1 s1;
          l1 = pushLevel rows [] ''R1'' r1 (Some ''ce'');
          l2 = pushLevel rows l1 ''R2'' r2 (Some ''ce'');
          l3 = pushLevel rows l2 ''S1'' s1 (Some ''pe'');
          l4 = pushLevel rows l3 ''S2'' s2 (Some ''pe'')
      in pushLevel rows l4 ''Flip'' flip None)"

text \<open>
  A row as the normalisation step of \<^verbatim>\<open>computeAndSaveSnapshot\<close> builds it when the
  upstream row carries only the strike and the two exposures: the absent fields become 0.
\<close>

definition mk_row :: "real \<Rightarrow> real \<Rightarrow> real \<Rightarrow> GexRow" where
  "mk_row s oi vol =
     \<lparr>GexRow.strike = Num s, gex_oi_raw = Num oi, gex_vol_raw = Num vol,
      ce_oi = Num 0, pe_oi = Num 0, ce_vol = Num 0, pe_vol = Num 0\<rparr>"

text \<open>The key by which a rank map orders a group whose ranked values are all finite.\<close>

definition rank_key :: "(GexRow \<Rightarrow> number) \<Rightarrow> bool \<Rightarrow> GexRow \<Rightarrow> real" where
  "rank_key key desc r = (if desc then - val (key r) else val (key r))"

text \<open>
  A rank function \<open>rk\<close> ranks a group by \<open>k\<close> when it numbers the rows from 1 to the size
  of the group, gives no two rows the same number, and gives the smaller number to the
  row with the smaller \<open>k\<close>.
\<close>

definition ranks_by :: "(GexRow \<Rightarrow> real) \<Rightarrow> (GexRow \<Rightarrow> int) \<Rightarrow> GexRow list \<Rightarrow> bool" where
  "ranks_by k rk grp \<longleftrightarrow>
     (\<forall>p\<in>set grp. 1 \<le> rk p \<and> rk p \<le> int (length grp))
     \<and> (\<forall>p\<in>set grp. \<forall>q\<in>set grp. p \<noteq> q \<longrightarrow> rk p \<noteq> rk q)
     \<and> (\<forall>p\<in>set grp. \<forall>q\<in>set grp. k p < k q \<longrightarrow> rk p < rk q)"

text \<open>
  The rows among which the Flip level is chosen: those between R1 and S1 when both
  exist, as \<^verbatim>\<open>computeAndSaveSnapshot\<close> passes them to \<^verbatim>\<open>pickZeroGammaStrike\<close>.
\<close>

definition flip_group :: "GexRow list \<Rightarrow> GexRow list" where
  "flip_group rows =
     (let lines = pickLinesByRaw rows;
          r1 = find_label (red lines) ''R1'';
          s1 = find_label (green lines) ''S1''
      in if \<not> finite_opt r1 \<or> \<not> finite_opt s1 then []
         else between_rows rows (Num (min (val (the r1)) (val (the s1))))
                (Num (max (val (the r1)) (val (the s1)))))"

text \<open>
  The lowest score of a scored list is attained by one entry only: two entries that are
  both lowest are the same entry.
\<close>

definition unique_lowest :: "(number \<times> int) list \<Rightarrow> bool" where
  "unique_lowest fs \<longleftrightarrow>
     (\<forall>a\<in>set fs. \<forall>b\<in>set fs.
        (\<forall>e\<in>set fs. snd a \<le> snd e) \<and> (\<forall>e\<in>set fs. snd b \<le> snd e) \<longrightarrow> a = b)"

text \<open>
  No ranking of the selector meets a tie: within the positive regime and within the
  negative regime the ranked exposures are pairwise distinct, among the rows between R1
  and S1 the absolute open-interest exposures and the volume exposures are pairwise
  distinct, and the lowest Flip score is attained by one row only. Flip scores above the
  lowest may coincide: \<^verbatim>\<open>pickZeroGammaStrike\<close> reads only the first entry of the sorted list.
\<close>

definition no_ties :: "GexRow list \<Rightarrow> bool" where
  "no_ties rows \<longleftrightarrow>
     distinct (map (\<lambda>r. val (GexRow.gex_oi_raw r)) (pos_rows rows))
     \<and> distinct (map (\<lambda>r. val (GexRow.gex_vol_raw r)) (pos_rows rows))
     \<and> distinct (map (\<lambda>r. val (GexRow.gex_oi_raw r)) (neg_rows rows))
     \<and> distinct (map (\<lambda>r. val (GexRow.gex_vol_raw r)) (neg_rows rows))
     \<and> distinct (map (\<lambda>r. \<bar>val (GexRow.gex_oi_raw r)\<bar>) (flip_group rows))
     \<and> distinct (map (\<lambda>r. val (GexRow.gex_vol_raw r)) (flip_group rows))
     \<and> unique_lowest (flip_scored (flip_group rows))"

text \<open>The marks of a line list as pairs of label and strike, in order.\<close>

definition labelled :: "LineMark list \<Rightarrow> (string \<times> number) list" where
  "labelled marks = map (\<lambda>m. (label m, LineMark.strike m)) marks"

text \<open>The level assignment: the names of the levels with their strikes, in order.\<close>

definition assignments :: "Level list \<Rightarrow> (string \<times> number) list" where
  "assignments levels = map (\<lambda>l. (Level.name l, Level.strike l)) levels"

text \<open>
  The test of the \<^verbatim>\<open>valid\<close> filter of \<^verbatim>\<open>pickLinesByRaw\<close> for a row without signal:
  \<^verbatim>\<open>r.gex_oi_raw === 0 && r.gex_vol_raw === 0\<close>.
\<close>

definition zero_row :: "GexRow \<Rightarrow> bool" where
  "zero_row r \<longleftrightarrow>
     num_eq (GexRow.gex_oi_raw r) (Num 0) \<and> num_eq (GexRow.gex_vol_raw r) (Num 0)"

text \<open>No row with both exposures zero shares its strike with a row that has a signal.\<close>

definition zero_rows_apart :: "GexRow list \<Rightarrow> bool" where
  "zero_rows_apart rows \<longleftrightarrow>
     (\<forall>z\<in>set rows. \<forall>r\<in>set rows.
        zero_row z \<and> GexRow.strike r = GexRow.strike z \<longrightarrow> zero_row r)"

text \<open>
  The exposure values of a level are those of the row that \<^verbatim>\<open>getRow\<close> finds for the
  level's strike, and the strike is finite.
\<close>

definition attached_from :: "GexRow list \<Rightarrow> Level \<Rightarrow> bool" where
  "attached_from rows l \<longleftrightarrow>
     finite_number (Level.strike l)
     \<and> Level.gex_oi_raw l
         = map_option GexRow.gex_oi_raw (getRow rows (Some (Level.strike l)))
     \<and> Level.gex_vol_raw l
         = map_option GexRow.gex_vol_raw (getRow rows (Some (Level.strike l)))"

section \<open>Upstream pacer (dhanPacer)\<close>

text \<open>
  Modelled from the spec: the pacer module \<^verbatim>\<open>dhanPacer\<close> (\<^verbatim>\<open>scheduleOC\<close>, \<^verbatim>\<open>scheduleQuote\<close>,
  \<^verbatim>\<open>getDhanMinGap\<close>) is imported by option\_chain.ts, app.ts and the quote service, but its
  source is not among the files. The specification describes it as a serialized
  dispatcher with a single admission point: it keeps one watermark, the next allowed
  dispatch time; a call that is ready waits until the clock has reached the watermark, is
  dispatched, and the watermark becomes the dispatch time plus the global minimum gap.
  Each sub-queue may have a minimum spacing of its own, calls of one sub-queue are served
  in order, and calls of different sub-queues in their order of arrival at the admission
  point. Time is counted in milliseconds. A request names its sub-queue and the time at
  which it reaches the admission point. How long a dispatched call runs is not part of
  the model, which records dispatch start times only.
\<close>

record 'a request =
  queue :: nat
  ready_at :: nat
  call :: 'a

record pacer_state =
  watermark :: nat
  clock :: nat
  last_start :: "nat \<Rightarrow> nat option"

definition pacer_init :: pacer_state where
  "pacer_init = \<lparr>watermark = 0, clock = 0, last_start = (\<lambda>q. None)\<rparr>"

text \<open>
  Modelled from the spec: admission of one request. The clock never runs backwards, the
  sub-queue's own spacing is counted from its last dispatch, and the dispatch waits for
  the watermark.
\<close>

definition admit ::
  "nat \<Rightarrow> (nat \<Rightarrow> nat) \<Rightarrow> pacer_state \<Rightarrow> 'a request \<Rightarrow> nat \<times> pacer_state" where
  "admit globalMinGapMs queueGapMs st r =
     (let ready = max (clock st) (ready_at r);
          own = (case last_start st (queue r) of
                   None \<Rightarrow> ready
                 | Some t \<Rightarrow> max ready (t + queueGapMs (queue r)));
          now = max own (watermark st)
      in (now,
          \<lparr>watermark = now + globalMinGapMs, clock = now,
           last_start = (last_start st)(queue r \<mapsto> now)\<rparr>))"

text \<open>
  Modelled from the spec: the dispatcher serves the requests in their order of arrival
  and yields each with its dispatch start time.
\<close>

fun schedule_all ::
  "nat \<Rightarrow> (nat \<Rightarrow> nat) \<Rightarrow> pacer_state \<Rightarrow> 'a request list \<Rightarrow> (nat \<times> 'a request) list" where
  "schedule_all g qg st [] = []"
| "schedule_all g qg st (r # rs) =
     (let (t, st') = admit g qg st r in (t, r) # schedule_all g qg st' rs)"

text \<open>The same spacing for every sub-queue.\<close>

definition same_spacing :: "nat \<Rightarrow> nat \<Rightarrow> nat" where
  "same_spacing ms q = ms"

section \<open>Properties of the nearest expiry\<close>

lemma find_sorted_least:
  fixes xs :: "'a::linorder list"
  assumes "sorted xs" and "find (\<lambda>e. t \<le> e) xs = Some e"
  shows "e \<in> set xs \<and> t \<le> e \<and> (\<forall>x\<in>set xs. t \<le> x \<longrightarrow> e \<le> x)"
  using assms
proof (induction xs)
  case Nil
  then show ?case by simp
next
  case (Cons a xs)
  show ?case
  proof (cases "t \<le> a")
    case True
    with Cons.prems show ?thesis by auto
  next
    case False
    with Cons.prems have "find (\<lambda>e. t \<le> e) xs = Some e" and "sorted xs"
      by simp_all
    with Cons.IH have "e \<in> set xs \<and> t \<le> e \<and> (\<forall>x\<in>set xs. t \<le> x \<longrightarrow> e \<le> x)"
      by simp
    with False show ?thesis by auto
  qed
qed

lemma find_none_all_below:
  fixes xs :: "'a::linorder list"
  assumes "find (\<lambda>e. t \<le> e) xs = None"
  shows "\<forall>x\<in>set xs. \<not> t \<le> x"
  using assms by (simp add: find_None_iff)

lemma sort_Nil_iff: "sort es = [] \<longleftrightarrow> es = []"
  by (metis length_sort length_0_conv)

lemma sorted_last_greatest:
  fixes xs :: "'a::linorder list"
  assumes "sorted xs" and "xs \<noteq> []"
  shows "last xs \<in> set xs \<and> (\<forall>x\<in>set xs. x \<le> last xs)"
  using assms
proof (induction xs)
  case Nil
  then show ?case by simp
next
  case (Cons a xs)
  then show ?case by (cases xs) auto
qed

text \<open>
  C10. \<open>pickNearestExpiry\<close> returns null exactly for a missing or empty list. For a
  non-empty list it returns a member of the list: the least date at or after \<open>today\<close> when
  there is one, and otherwise the greatest date of the list.
\<close>

theorem pickNearestExpiry_spec:
  "(pickNearestExpiry today expiries = None \<longleftrightarrow> expiries = None \<or> expiries = Some [])
   \<and> (\<forall>es. expiries = Some es \<and> es \<noteq> [] \<longrightarrow>
        (\<exists>e\<in>set es. pickNearestExpiry today expiries = Some e
           \<and> (if \<exists>x\<in>set es. today \<le> x
               then today \<le> e \<and> (\<forall>x\<in>set es. today \<le> x \<longrightarrow> e \<le> x)
               else (\<forall>x\<in>set es. x \<le> e))))"
proof (intro conjI allI impI)
  show "pickNearestExpiry today expiries = None \<longleftrightarrow> expiries = None \<or> expiries = Some []"
    by (auto simp: pickNearestExpiry_def Let_def sort_Nil_iff split: option.splits)
next
  fix es
  assume a: "expiries = Some es \<and> es \<noteq> []"
  then have ne: "sort es \<noteq> []" by (simp add: sort_Nil_iff)
  show "\<exists>e\<in>set es. pickNearestExpiry today expiries = Some e
           \<and> (if \<exists>x\<in>set es. today \<le> x
               then today \<le> e \<and> (\<forall>x\<in>set es. today \<le> x \<longrightarrow> e \<le> x)
               else (\<forall>x\<in>set es. x \<le> e))"
  proof (cases "find (\<lambda>e. today \<le> e) (sort es)")
    case None
    from find_none_all_below [OF None] have nb: "\<forall>x\<in>set es. \<not> today \<le> x" by simp
    from sorted_last_greatest [of "sort es"] ne
    have "last (sort es) \<in> set es \<and> (\<forall>x\<in>set es. x \<le> last (sort es))" by simp
    moreover from a None ne have "pickNearestExpiry today expiries = Some (last (sort es))"
      by (simp add: pickNearestExpiry_def Let_def)
    ultimately show ?thesis using nb by auto
  next
    case (Some e)
    from find_sorted_least [of "sort es" today e] Some
    have "e \<in> set es \<and> today \<le> e \<and> (\<forall>x\<in>set es. today \<le> x \<longrightarrow> e \<le> x)" by simp
    moreover from a Some have "pickNearestExpiry today expiries = Some e"
      by (simp add: pickNearestExpiry_def Let_def)
    ultimately show ?thesis by auto
  qed
qed

theorem pickNearestExpiry_spec_witness:
  "pickNearestExpiry ''2025-10-20'' (Some [''2025-10-30'', ''2025-10-16'', ''2025-10-23''])
     = Some ''2025-10-23''
   \<and> pickNearestExpiry ''2025-11-20'' (Some [''2025-10-30'', ''2025-10-16'', ''2025-10-23''])
     = Some ''2025-10-30''
   \<and> pickNearestExpiry ''2025-10-20'' (Some []) = None
   \<and> pickNearestExpiry ''2025-10-20'' None = None"
  using pickNearestExpiry_spec [of "''2025-10-20''" "Some [''2025-10-30'', ''2025-10-16'', ''2025-10-23'']"]
  by (simp add: pickNearestExpiry_def Let_def less_eq_char_def less_char_def)

section \<open>Properties of the watcher tick\<close>

lemma reanchor_backoff: "backoffSteps (fst (reanchor env st)) = backoffSteps st"
  by (simp add: reanchor_def Let_def split: sum.splits)

lemma reanchor_inFlight: "inFlight (fst (reanchor env st)) = inFlight st"
  by (simp add: reanchor_def Let_def split: sum.splits)

lemma tick_try_inFlight: "inFlight (fst (snd (tick_try env st))) = inFlight st"
  using reanchor_inFlight [of env st]
  by (auto simp: tick_try_def Let_def split: prod.splits sum.splits option.splits)

lemma tick_try_backoff_Inl:
  "fst (tick_try env st) = Inl e \<Longrightarrow> backoffSteps (fst (snd (tick_try env st))) = backoffSteps st"
  using reanchor_backoff [of env st]
  by (auto simp: tick_try_def Let_def split: prod.splits sum.splits option.splits if_splits)

lemma tick_try_backoff_Inr:
  "fst (tick_try env st) = Inr u \<Longrightarrow>
   backoffSteps (fst (snd (tick_try env st))) =
     (if falsy (expiry (fst (snd (tick_try env st)))) then backoffSteps st
      else if backoffSteps st > 0 then max 0 (backoffSteps st - 1) else backoffSteps st)"
  using reanchor_backoff [of env st]
  by (auto simp: tick_try_def Let_def split: prod.splits sum.splits option.splits if_splits)

lemma tick_catch_backoff:
  "backoffSteps (tick_catch e st) =
     (if retryable_status (response_status e) then min MAX_BACKOFF_STEPS (backoffSteps st + 1)
      else backoffSteps st)"
  by (simp add: tick_catch_def Let_def)

lemma tickOnce_backoff:
  "backoffSteps (fst (tickOnce mho env st)) =
     (if \<not> proceeds mho env st then backoffSteps st
      else case fst (tick_try env (st\<lparr>inFlight := True\<rparr>)) of
             Inl e \<Rightarrow> if retryable_status (response_status e)
                      then min MAX_BACKOFF_STEPS (backoffSteps st + 1) else backoffSteps st
           | Inr u \<Rightarrow>
               if falsy (expiry (fst (snd (tick_try env (st\<lparr>inFlight := True\<rparr>))))) then backoffSteps st
               else if backoffSteps st > 0 then max 0 (backoffSteps st - 1) else backoffSteps st)"
proof (cases "proceeds mho env st")
  case False
  then show ?thesis by (auto simp: tickOnce_def proceeds_def)
next
  case True
  obtain r st1 eff where t: "tick_try env (st\<lparr>inFlight := True\<rparr>) = (r, st1, eff)"
    by (cases "tick_try env (st\<lparr>inFlight := True\<rparr>)") auto
  show ?thesis
  proof (cases r)
    case (Inl e)
    with t tick_try_backoff_Inl [of env "st\<lparr>inFlight := True\<rparr>" e]
    have "backoffSteps st1 = backoffSteps st" by simp
    with True t Inl show ?thesis
      by (auto simp: tickOnce_def proceeds_def tick_catch_backoff)
  next
    case (Inr u)
    with t tick_try_backoff_Inr [of env "st\<lparr>inFlight := True\<rparr>" u]
    have "backoffSteps st1 = (if falsy (expiry st1) then backoffSteps st
      else if backoffSteps st > 0 then max 0 (backoffSteps st - 1) else backoffSteps st)" by simp
    with True t Inr show ?thesis
      by (auto simp: tickOnce_def proceeds_def)
  qed
qed

lemma tickOnce_range:
  assumes "0 \<le> backoffSteps st" "backoffSteps st \<le> MAX_BACKOFF_STEPS"
  shows "0 \<le> backoffSteps (fst (tickOnce mho env st)) \<and>
         backoffSteps (fst (tickOnce mho env st)) \<le> MAX_BACKOFF_STEPS"
  using assms unfolding tickOnce_backoff [of mho env st]
  by (auto simp: MAX_BACKOFF_STEPS_def split: sum.splits)

lemma run_ticks_range:
  assumes "0 \<le> backoffSteps st" "backoffSteps st \<le> MAX_BACKOFF_STEPS"
  shows "0 \<le> backoffSteps (run_ticks mho envs st) \<and>
         backoffSteps (run_ticks mho envs st) \<le> MAX_BACKOFF_STEPS"
  using assms
proof (induction envs arbitrary: st)
  case Nil
  then show ?case by simp
next
  case (Cons env envs)
  from tickOnce_range [OF Cons.prems, of mho env]
  show ?case using Cons.IH [of "fst (tickOnce mho env st)"] by simp
qed

text \<open>
  C7. The counter \<open>backoffSteps\<close> stays within \<open>[0, MAX_BACKOFF_STEPS]\<close> on every run of the
  loop from its initial state, and across any single tick that starts in range. A tick
  that proceeds and ends in an error with status 429 or 5xx adds one, clamped at the
  maximum; a tick that completes its fetch and both writes subtracts one, floored at zero.
  Three ticks that fail with 503 take the counter from 0 to 3 and a following successful
  tick takes it to 2.
\<close>

theorem backoffSteps_clamped:
  "(0 \<le> backoffSteps (run_ticks mho envs (initial_state ex dk))
      \<and> backoffSteps (run_ticks mho envs (initial_state ex dk)) \<le> MAX_BACKOFF_STEPS)
   \<and> (0 \<le> backoffSteps st \<and> backoffSteps st \<le> MAX_BACKOFF_STEPS \<longrightarrow>
        0 \<le> backoffSteps (fst (tickOnce mho env st))
        \<and> backoffSteps (fst (tickOnce mho env st)) \<le> MAX_BACKOFF_STEPS)
   \<and> (\<forall>e. proceeds mho env st
          \<and> fst (tick_try env (st\<lparr>inFlight := True\<rparr>)) = Inl e
          \<and> retryable_status (response_status e) \<longrightarrow>
        backoffSteps (fst (tickOnce mho env st))
          = min MAX_BACKOFF_STEPS (backoffSteps st + 1))
   \<and> (proceeds mho env st
          \<and> fst (tick_try env (st\<lparr>inFlight := True\<rparr>)) = Inr ()
          \<and> \<not> falsy (expiry (fst (snd (tick_try env (st\<lparr>inFlight := True\<rparr>)))))
          \<and> 0 \<le> backoffSteps st \<longrightarrow>
        backoffSteps (fst (tickOnce mho env st)) = max 0 (backoffSteps st - 1))
   \<and> backoffSteps (run_ticks True
        [env_failing ''2025-10-20'' 503, env_failing ''2025-10-20'' 503,
         env_failing ''2025-10-20'' 503]
        (initial_state ''2025-10-30'' ''2025-10-20'')) = 3
   \<and> backoffSteps (run_ticks True
        [env_failing ''2025-10-20'' 503, env_failing ''2025-10-20'' 503,
         env_failing ''2025-10-20'' 503, env_ok ''2025-10-20'']
        (initial_state ''2025-10-30'' ''2025-10-20'')) = 2"
proof (intro conjI allI impI)
  have init: "0 \<le> backoffSteps (initial_state ex dk)"
    "backoffSteps (initial_state ex dk) \<le> MAX_BACKOFF_STEPS"
    by (simp_all add: initial_state_def MAX_BACKOFF_STEPS_def)
  from run_ticks_range [OF init, of mho envs]
  show "0 \<le> backoffSteps (run_ticks mho envs (initial_state ex dk))"
    and "backoffSteps (run_ticks mho envs (initial_state ex dk)) \<le> MAX_BACKOFF_STEPS"
    by simp_all
next
  assume "0 \<le> backoffSteps st \<and> backoffSteps st \<le> MAX_BACKOFF_STEPS"
  then show "0 \<le> backoffSteps (fst (tickOnce mho env st))"
    and "backoffSteps (fst (tickOnce mho env st)) \<le> MAX_BACKOFF_STEPS"
    using tickOnce_range [of st mho env] by simp_all
next
  fix e
  assume "proceeds mho env st
          \<and> fst (tick_try env (st\<lparr>inFlight := True\<rparr>)) = Inl e
          \<and> retryable_status (response_status e)"
  then show "backoffSteps (fst (tickOnce mho env st))
          = min MAX_BACKOFF_STEPS (backoffSteps st + 1)"
    by (simp add: tickOnce_backoff)
next
  assume "proceeds mho env st
          \<and> fst (tick_try env (st\<lparr>inFlight := True\<rparr>)) = Inr ()
          \<and> \<not> falsy (expiry (fst (snd (tick_try env (st\<lparr>inFlight := True\<rparr>)))))
          \<and> 0 \<le> backoffSteps st"
  then show "backoffSteps (fst (tickOnce mho env st)) = max 0 (backoffSteps st - 1)"
    by (simp add: tickOnce_backoff)
next
  show "backoffSteps (run_ticks True
        [env_failing ''2025-10-20'' 503, env_failing ''2025-10-20'' 503,
         env_failing ''2025-10-20'' 503]
        (initial_state ''2025-10-30'' ''2025-10-20'')) = 3"
    by (simp add: tickOnce_def tick_try_def tick_catch_def reanchor_def initial_state_def
      env_failing_def http_error_def retryable_status_def falsy_def
      MAX_BACKOFF_STEPS_def Let_def)
next
  show "backoffSteps (run_ticks True
        [env_failing ''2025-10-20'' 503, env_failing ''2025-10-20'' 503,
         env_failing ''2025-10-20'' 503, env_ok ''2025-10-20'']
        (initial_state ''2025-10-30'' ''2025-10-20'')) = 2"
    by (simp add: tickOnce_def tick_try_def tick_catch_def reanchor_def initial_state_def
      env_failing_def env_ok_def http_error_def retryable_status_def falsy_def
      MAX_BACKOFF_STEPS_def Let_def)
qed

theorem backoffSteps_clamped_witness:
  "proceeds True (env_failing ''2025-10-20'' 503) (initial_state ''2025-10-30'' ''2025-10-20'')
   \<and> fst (tick_try (env_failing ''2025-10-20'' 503)
            ((initial_state ''2025-10-30'' ''2025-10-20'')\<lparr>inFlight := True\<rparr>))
       = Inl (http_error 503)
   \<and> retryable_status (response_status (http_error 503))
   \<and> backoffSteps (fst (tickOnce True (env_failing ''2025-10-20'' 503)
        (initial_state ''2025-10-30'' ''2025-10-20''))) = 1
   \<and> proceeds True (env_ok ''2025-10-20'')
        ((initial_state ''2025-10-30'' ''2025-10-20'')\<lparr>backoffSteps := 3\<rparr>)
   \<and> fst (tick_try (env_ok ''2025-10-20'')
            ((initial_state ''2025-10-30'' ''2025-10-20'')\<lparr>backoffSteps := 3, inFlight := True\<rparr>))
       = Inr ()
   \<and> backoffSteps (fst (tickOnce True (env_ok ''2025-10-20'')
        ((initial_state ''2025-10-30'' ''2025-10-20'')\<lparr>backoffSteps := 3\<rparr>))) = 2"
proof -
  let ?s0 = "initial_state ''2025-10-30'' ''2025-10-20''"
  let ?s3 = "?s0\<lparr>backoffSteps := 3\<rparr>"
  let ?ef = "env_failing ''2025-10-20'' 503"
  let ?eo = "env_ok ''2025-10-20''"
  have p1: "proceeds True ?ef ?s0"
    by (simp add: proceeds_def initial_state_def env_failing_def)
  have t1: "fst (tick_try ?ef (?s0\<lparr>inFlight := True\<rparr>)) = Inl (http_error 503)"
    by (simp add: tick_try_def reanchor_def initial_state_def env_failing_def falsy_def Let_def)
  have r1: "retryable_status (response_status (http_error 503))"
    by (simp add: retryable_status_def http_error_def)
  have p2: "proceeds True ?eo ?s3"
    by (simp add: proceeds_def initial_state_def env_ok_def)
  have t2: "fst (tick_try ?eo (?s3\<lparr>inFlight := True\<rparr>)) = Inr ()"
    by (simp add: tick_try_def reanchor_def initial_state_def env_ok_def falsy_def Let_def)
  have f2: "\<not> falsy (expiry (fst (snd (tick_try ?eo (?s3\<lparr>inFlight := True\<rparr>)))))"
    by (simp add: tick_try_def reanchor_def initial_state_def env_ok_def falsy_def Let_def)
  have b2: "0 \<le> backoffSteps ?s3" by (simp add: initial_state_def)
  from backoffSteps_clamped [of True "[]" "''2025-10-30''" "''2025-10-20''" ?s0 ?ef] p1 t1 r1
  have a: "backoffSteps (fst (tickOnce True ?ef ?s0)) = 1"
    by (simp add: initial_state_def MAX_BACKOFF_STEPS_def)
  from backoffSteps_clamped [of True "[]" "''2025-10-30''" "''2025-10-20''" ?s3 ?eo] p2 t2 f2 b2
  have b: "backoffSteps (fst (tickOnce True ?eo ?s3)) = 2"
    by (simp add: initial_state_def)
  from p1 t1 r1 a p2 t2 b show ?thesis by simp
qed

lemma tickOnce_proceeds:
  assumes "proceeds mho env st"
  shows "tickOnce mho env st =
     ((case fst (tick_try env (st\<lparr>inFlight := True\<rparr>)) of
         Inl e \<Rightarrow> tick_catch e (fst (snd (tick_try env (st\<lparr>inFlight := True\<rparr>))))
       | Inr u \<Rightarrow> fst (snd (tick_try env (st\<lparr>inFlight := True\<rparr>))))\<lparr>inFlight := False\<rparr>,
      snd (snd (tick_try env (st\<lparr>inFlight := True\<rparr>))))"
  using assms
  by (auto simp: tickOnce_def proceeds_def Let_def split: prod.splits sum.splits)

lemma tick_catch_inFlight: "inFlight (tick_catch e st) = inFlight st"
  by (simp add: tick_catch_def Let_def)

lemma tick_try_fetches:
  assumes "day_key env = lastExpiryResolveDayKey st" and "expiry st = Some ex" and "ex \<noteq> []"
  shows "FetchOptionChain ex \<in> set (snd (snd (tick_try env st)))"
  using assms
  by (auto simp: tick_try_def reanchor_def falsy_def Let_def split: sum.splits option.splits)

text \<open>
  C8. A tick that starts while \<open>inFlight\<close> is set returns at once: it issues no fetch and
  no store write and leaves the whole feed state as it was. A tick that proceeds sets
  \<open>inFlight\<close> and runs the \<^verbatim>\<open>try\<close> block on the flagged state: its effects are those of the
  block (a fetch among them when the expiry is known and the day has not changed), the flag
  is still set when the block ends and after the \<^verbatim>\<open>catch\<close>, and the state it leaves is the
  state after the block, or after the \<^verbatim>\<open>catch\<close> when the block threw, with the flag cleared.
\<close>

theorem tickOnce_inFlight:
  "(inFlight st \<longrightarrow> tickOnce mho env st = (st, []))
   \<and> (proceeds mho env st \<longrightarrow>
        snd (tickOnce mho env st) = snd (snd (tick_try env (st\<lparr>inFlight := True\<rparr>)))
        \<and> inFlight (fst (snd (tick_try env (st\<lparr>inFlight := True\<rparr>))))
        \<and> (\<forall>e. fst (tick_try env (st\<lparr>inFlight := True\<rparr>)) = Inl e \<longrightarrow>
              inFlight (tick_catch e (fst (snd (tick_try env (st\<lparr>inFlight := True\<rparr>)))))
              \<and> fst (tickOnce mho env st)
                  = (tick_catch e (fst (snd (tick_try env (st\<lparr>inFlight := True\<rparr>)))))
                      \<lparr>inFlight := False\<rparr>
              \<and> \<not> inFlight (fst (tickOnce mho env st)))
        \<and> (fst (tick_try env (st\<lparr>inFlight := True\<rparr>)) = Inr () \<longrightarrow>
              fst (tickOnce mho env st)
                  = (fst (snd (tick_try env (st\<lparr>inFlight := True\<rparr>))))\<lparr>inFlight := False\<rparr>
              \<and> \<not> inFlight (fst (tickOnce mho env st)))
        \<and> (\<forall>ex. day_key env = lastExpiryResolveDayKey st \<and> expiry st = Some ex \<and> ex \<noteq> [] \<longrightarrow>
              FetchOptionChain ex \<in> set (snd (tickOnce mho env st))))"
proof (intro conjI impI allI)
  assume "inFlight st"
  then show "tickOnce mho env st = (st, [])" by (simp add: tickOnce_def)
next
  assume p: "proceeds mho env st"
  show "snd (tickOnce mho env st) = snd (snd (tick_try env (st\<lparr>inFlight := True\<rparr>)))"
    by (simp add: tickOnce_proceeds [OF p])
  show "inFlight (fst (snd (tick_try env (st\<lparr>inFlight := True\<rparr>))))"
    by (simp add: tick_try_inFlight)
next
  fix e
  assume p: "proceeds mho env st"
    and r: "fst (tick_try env (st\<lparr>inFlight := True\<rparr>)) = Inl e"
  show "inFlight (tick_catch e (fst (snd (tick_try env (st\<lparr>inFlight := True\<rparr>)))))"
    by (simp add: tick_catch_inFlight tick_try_inFlight)
  from r show "fst (tickOnce mho env st)
      = (tick_catch e (fst (snd (tick_try env (st\<lparr>inFlight := True\<rparr>)))))\<lparr>inFlight := False\<rparr>"
    by (simp add: tickOnce_proceeds [OF p])
  from r show "\<not> inFlight (fst (tickOnce mho env st))"
    by (simp add: tickOnce_proceeds [OF p])
next
  assume p: "proceeds mho env st"
    and r: "fst (tick_try env (st\<lparr>inFlight := True\<rparr>)) = Inr ()"
  from r show "fst (tickOnce mho env st)
      = (fst (snd (tick_try env (st\<lparr>inFlight := True\<rparr>))))\<lparr>inFlight := False\<rparr>"
    by (simp add: tickOnce_proceeds [OF p])
  from r show "\<not> inFlight (fst (tickOnce mho env st))"
    by (simp add: tickOnce_proceeds [OF p])
next
  fix ex
  assume p: "proceeds mho env st"
    and h: "day_key env = lastExpiryResolveDayKey st \<and> expiry st = Some ex \<and> ex \<noteq> []"
  from h have "FetchOptionChain ex \<in> set (snd (snd (tick_try env (st\<lparr>inFlight := True\<rparr>))))"
    by (intro tick_try_fetches) simp_all
  then show "FetchOptionChain ex \<in> set (snd (tickOnce mho env st))"
    by (simp add: tickOnce_proceeds [OF p])
qed

theorem tickOnce_inFlight_witness:
  "inFlight ((initial_state ''2025-10-30'' ''2025-10-20'')\<lparr>inFlight := True, backoffSteps := 3\<rparr>)
   \<and> tickOnce True (env_failing ''2025-10-20'' 503)
        ((initial_state ''2025-10-30'' ''2025-10-20'')\<lparr>inFlight := True, backoffSteps := 3\<rparr>)
      = ((initial_state ''2025-10-30'' ''2025-10-20'')\<lparr>inFlight := True, backoffSteps := 3\<rparr>, [])
   \<and> proceeds True (env_failing ''2025-10-20'' 503) (initial_state ''2025-10-30'' ''2025-10-20'')
   \<and> fst (tick_try (env_failing ''2025-10-20'' 503)
            ((initial_state ''2025-10-30'' ''2025-10-20'')\<lparr>inFlight := True\<rparr>))
       = Inl (http_error 503)
   \<and> tickOnce True (env_failing ''2025-10-20'' 503) (initial_state ''2025-10-30'' ''2025-10-20'')
       = ((initial_state ''2025-10-30'' ''2025-10-20'')\<lparr>backoffSteps := 1\<rparr>,
          [FetchOptionChain ''2025-10-30''])
   \<and> proceeds True (env_ok ''2025-10-20'') (initial_state ''2025-10-30'' ''2025-10-20'')
   \<and> fst (tick_try (env_ok ''2025-10-20'')
            ((initial_state ''2025-10-30'' ''2025-10-20'')\<lparr>inFlight := True\<rparr>)) = Inr ()
   \<and> tickOnce True (env_ok ''2025-10-20'') (initial_state ''2025-10-30'' ''2025-10-20'')
       = (initial_state ''2025-10-30'' ''2025-10-20'',
          [FetchOptionChain ''2025-10-30'', UpsertOptionChain ''2025-10-30'',
           InsertOptionChainTick ''2025-10-30''])"
proof -
  let ?s0 = "initial_state ''2025-10-30'' ''2025-10-20''"
  let ?sf = "?s0\<lparr>inFlight := True, backoffSteps := 3\<rparr>"
  let ?ef = "env_failing ''2025-10-20'' 503"
  let ?eo = "env_ok ''2025-10-20''"
  have i: "inFlight ?sf" by simp
  have p1: "proceeds True ?ef ?s0"
    by (simp add: proceeds_def initial_state_def env_failing_def)
  have t1: "tick_try ?ef (?s0\<lparr>inFlight := True\<rparr>)
      = (Inl (http_error 503), ?s0\<lparr>inFlight := True\<rparr>, [FetchOptionChain ''2025-10-30''])"
    by (simp add: tick_try_def reanchor_def initial_state_def env_failing_def falsy_def Let_def)
  have c1: "tick_catch (http_error 503) (?s0\<lparr>inFlight := True\<rparr>)
      = ?s0\<lparr>inFlight := True, backoffSteps := 1\<rparr>"
    by (simp add: tick_catch_def http_error_def retryable_status_def initial_state_def
        MAX_BACKOFF_STEPS_def Let_def)
  have p2: "proceeds True ?eo ?s0"
    by (simp add: proceeds_def initial_state_def env_ok_def)
  have t2: "tick_try ?eo (?s0\<lparr>inFlight := True\<rparr>)
      = (Inr (), ?s0\<lparr>inFlight := True\<rparr>,
         [FetchOptionChain ''2025-10-30'', UpsertOptionChain ''2025-10-30'',
          InsertOptionChainTick ''2025-10-30''])"
    by (simp add: tick_try_def reanchor_def initial_state_def env_ok_def falsy_def Let_def)
  from tickOnce_inFlight [of ?sf True ?ef] i
  have a: "tickOnce True ?ef ?sf = (?sf, [])" by simp
  from tickOnce_inFlight [of ?s0 True ?ef] p1 t1
  have "snd (tickOnce True ?ef ?s0) = [FetchOptionChain ''2025-10-30'']"
    and "fst (tickOnce True ?ef ?s0)
      = (tick_catch (http_error 503) (?s0\<lparr>inFlight := True\<rparr>))\<lparr>inFlight := False\<rparr>"
    by simp_all
  with c1 have b: "tickOnce True ?ef ?s0
      = (?s0\<lparr>backoffSteps := 1\<rparr>, [FetchOptionChain ''2025-10-30''])"
    by (simp add: prod_eq_iff initial_state_def)
  from tickOnce_inFlight [of ?s0 True ?eo] p2 t2
  have "snd (tickOnce True ?eo ?s0)
      = [FetchOptionChain ''2025-10-30'', UpsertOptionChain ''2025-10-30'',
          InsertOptionChainTick ''2025-10-30'']"
    and "fst (tickOnce True ?eo ?s0) = (?s0\<lparr>inFlight := True\<rparr>)\<lparr>inFlight := False\<rparr>"
    by simp_all
  then have c: "tickOnce True ?eo ?s0
      = (?s0, [FetchOptionChain ''2025-10-30'', UpsertOptionChain ''2025-10-30'',
          InsertOptionChainTick ''2025-10-30''])"
    by (simp add: prod_eq_iff initial_state_def)
  from i a p1 t1 b p2 t2 c have "fst (tick_try ?ef (?s0\<lparr>inFlight := True\<rparr>)) = Inl (http_error 503)"
    and "fst (tick_try ?eo (?s0\<lparr>inFlight := True\<rparr>)) = Inr ()"
    by simp_all
  with i a p1 b p2 c show ?thesis by simp
qed

section \<open>Properties of the retry wrappers\<close>

lemma sint_shift:
  assumes "i < 31"
  shows "sint (push_bit i (1 :: 32 word)) = 2 ^ i"
proof -
  have "sint (push_bit i (1 :: 32 word))
      = signed_take_bit (LENGTH(32) - Suc 0) (push_bit i (sint (1 :: 32 word)))"
    by (rule signed_push_bit_eq)
  also have "\<dots> = signed_take_bit 31 ((2::int) ^ i)"
    by (simp add: push_bit_of_1)
  also have "\<dots> = 2 ^ i"
  proof (rule signed_take_bit_int_eq_self)
    have "- (2 ^ 31) \<le> (0::int)" by simp
    also have "(0::int) \<le> 2 ^ i" by simp
    finally show "- (2 ^ 31) \<le> (2::int) ^ i" .
    from assms show "(2::int) ^ i < 2 ^ 31"
      by (intro power_strict_increasing) simp_all
  qed
  finally show ?thesis .
qed

lemma oc_wait_exp: "i < 31 \<Longrightarrow> oc_wait i = min 15000 (1000 * 2 ^ i)"
  unfolding oc_wait_def using sint_shift [of i] by (simp del: push_bit_of_1)

lemma oc_exhaust:
  "(\<forall>j. i \<le> j \<and> j < tries \<longrightarrow> (\<exists>e. fn j = Inl e \<and> retryable_status (response_status e)))
   \<Longrightarrow> ocRetry_from fn tries i l =
     (Inl (if i < tries then Some (projl (fn (tries - 1))) else l),
      concat (map (\<lambda>j. [Call j, Sleep (oc_wait j)]) [i..<tries]))"
proof (induction fn tries i l rule: ocRetry_from.induct)
  case (1 fn tries i lastErr)
  show ?case
  proof (cases "i < tries")
    case False
    then show ?thesis by simp
  next
    case True
    with "1.prems" obtain e where e: "fn i = Inl e" "retryable_status (response_status e)"
      by auto
    then have n401: "response_status e \<noteq> Some 401"
      by (auto simp: retryable_status_def)
    have rest: "\<forall>j. i + 1 \<le> j \<and> j < tries \<longrightarrow> (\<exists>e. fn j = Inl e \<and> retryable_status (response_status e))"
      using "1.prems" by auto
    from "1.IH" [OF True e(1) refl n401 e(2) refl rest]
    have ih: "ocRetry_from fn tries (i + 1) (Some e) =
      (Inl (if i + 1 < tries then Some (projl (fn (tries - 1))) else Some e),
       concat (map (\<lambda>j. [Call j, Sleep (oc_wait j)]) [i + 1..<tries]))" .
    have last: "\<not> i + 1 < tries \<Longrightarrow> projl (fn (tries - 1)) = e"
    proof -
      assume "\<not> i + 1 < tries"
      with True have "tries - 1 = i" by simp
      with e show ?thesis by simp
    qed
    have up: "[i..<tries] = i # [i + 1..<tries]"
      using True by (simp add: upt_conv_Cons)
    show ?thesis
      using True e n401 ih last
      by (subst ocRetry_from.simps) (auto simp: up Let_def)
  qed
qed

lemma quote_exhaust:
  "(\<forall>j. i \<le> j \<and> j < tries \<longrightarrow> (\<exists>e. fn j = Inl e \<and> retryable_status (response_status e)))
   \<Longrightarrow> quoteRetry_from fn tries i l =
     (Inl (if i < tries then Some (projl (fn (tries - 1))) else l),
      concat (map (\<lambda>j. [Call j, Sleep (quote_wait j)]) [i..<tries]))"
proof (induction fn tries i l rule: quoteRetry_from.induct)
  case (1 fn tries i lastErr)
  show ?case
  proof (cases "i < tries")
    case False
    then show ?thesis by simp
  next
    case True
    with "1.prems" obtain e where e: "fn i = Inl e" "retryable_status (response_status e)"
      by auto
    have rest: "\<forall>j. i + 1 \<le> j \<and> j < tries \<longrightarrow> (\<exists>e. fn j = Inl e \<and> retryable_status (response_status e))"
      using "1.prems" by auto
    from "1.IH" [OF True e(1) refl e(2) refl rest]
    have ih: "quoteRetry_from fn tries (i + 1) (Some e) =
      (Inl (if i + 1 < tries then Some (projl (fn (tries - 1))) else Some e),
       concat (map (\<lambda>j. [Call j, Sleep (quote_wait j)]) [i + 1..<tries]))" .
    have last: "\<not> i + 1 < tries \<Longrightarrow> projl (fn (tries - 1)) = e"
    proof -
      assume "\<not> i + 1 < tries"
      with True have "tries - 1 = i" by simp
      with e show ?thesis by simp
    qed
    have up: "[i..<tries] = i # [i + 1..<tries]"
      using True by (simp add: upt_conv_Cons)
    show ?thesis
      using True e ih last
      by (subst quoteRetry_from.simps) (auto simp: up Let_def)
  qed
qed

lemma calls_pairs: "calls (concat (map (\<lambda>j. [Call j, Sleep (w j)]) js)) = js"
  by (induction js) simp_all

lemma oc_calls_bound: "length (calls (snd (ocRetry_from fn tries i l))) \<le> tries - i"
proof (induction fn tries i l rule: ocRetry_from.induct)
  case (1 fn tries i lastErr)
  show ?case
  proof (cases "i < tries")
    case False
    then show ?thesis by simp
  next
    case True
    show ?thesis
    proof (cases "fn i")
      case (Inr v)
      with True show ?thesis by (subst ocRetry_from.simps) simp
    next
      case (Inl e)
      show ?thesis
      proof (cases "response_status e \<noteq> Some 401 \<and> retryable_status (response_status e)")
        case False
        with True Inl show ?thesis by (subst ocRetry_from.simps) (auto simp: Let_def)
      next
        case r: True
        from "1.IH" [OF True Inl refl _ _ refl] r
        have "length (calls (snd (ocRetry_from fn tries (i + 1) (Some e)))) \<le> tries - (i + 1)"
          by simp
        with True Inl r show ?thesis
          by (subst ocRetry_from.simps) (auto simp: Let_def split: prod.splits)
      qed
    qed
  qed
qed

lemma quote_calls_bound: "length (calls (snd (quoteRetry_from fn tries i l))) \<le> tries - i"
proof (induction fn tries i l rule: quoteRetry_from.induct)
  case (1 fn tries i lastErr)
  show ?case
  proof (cases "i < tries")
    case False
    then show ?thesis by simp
  next
    case True
    show ?thesis
    proof (cases "fn i")
      case (Inr v)
      with True show ?thesis by (subst quoteRetry_from.simps) simp
    next
      case (Inl e)
      show ?thesis
      proof (cases "retryable_status (response_status e)")
        case False
        with True Inl show ?thesis by (subst quoteRetry_from.simps) (auto simp: Let_def)
      next
        case r: True
        from "1.IH" [OF True Inl refl _ refl] r
        have "length (calls (snd (quoteRetry_from fn tries (i + 1) (Some e)))) \<le> tries - (i + 1)"
          by simp
        with True Inl r show ?thesis
          by (subst quoteRetry_from.simps) (auto simp: Let_def split: prod.splits)
      qed
    qed
  qed
qed

lemma oc_step_fatal:
  "i < tries \<Longrightarrow> fn i = Inl e \<Longrightarrow>
   response_status e = Some 401 \<or> \<not> retryable_status (response_status e) \<Longrightarrow>
   ocRetry_from fn tries i l = (Inl (Some e), [Call i])"
  by (subst ocRetry_from.simps) (auto simp: Let_def)

lemma quote_step_fatal:
  "i < tries \<Longrightarrow> fn i = Inl e \<Longrightarrow> \<not> retryable_status (response_status e) \<Longrightarrow>
   quoteRetry_from fn tries i l = (Inl (Some e), [Call i])"
  by (subst quoteRetry_from.simps) (auto simp: Let_def)

lemma oc_step_retry:
  "i < tries \<Longrightarrow> fn i = Inl e \<Longrightarrow> retryable_status (response_status e) \<Longrightarrow>
   ocRetry_from fn tries i l =
     (fst (ocRetry_from fn tries (i + 1) (Some e)),
      Call i # Sleep (oc_wait i) # snd (ocRetry_from fn tries (i + 1) (Some e)))"
  by (subst ocRetry_from.simps) (auto simp: Let_def retryable_status_def split: prod.splits)

lemma quote_step_retry:
  "i < tries \<Longrightarrow> fn i = Inl e \<Longrightarrow> retryable_status (response_status e) \<Longrightarrow>
   quoteRetry_from fn tries i l =
     (fst (quoteRetry_from fn tries (i + 1) (Some e)),
      Call i # Sleep (quote_wait i) # snd (quoteRetry_from fn tries (i + 1) (Some e)))"
  by (subst quoteRetry_from.simps) (auto simp: Let_def split: prod.splits)

lemma oc_step_ok:
  "i < tries \<Longrightarrow> fn i = Inr v \<Longrightarrow> ocRetry_from fn tries i l = (Inr v, [Call i])"
  by (subst ocRetry_from.simps) simp

lemma quote_step_ok:
  "i < tries \<Longrightarrow> fn i = Inr v \<Longrightarrow> quoteRetry_from fn tries i l = (Inr v, [Call i])"
  by (subst quoteRetry_from.simps) simp

lemma not_retryable_401: "\<not> retryable_status (Some 401)"
  by (simp add: retryable_status_def)


text \<open>
  C5. Both retry wrappers stop at once on an error that is not retryable, HTTP 401
  included, and hand that error to the caller without a further call. On HTTP 429 or 5xx
  they sleep and go on to the next attempt: \<open>ocRetry\<close> sleeps
  \<open>min 15000 (1000 * 2 ^ attempt)\<close>, \<open>quoteRetry\<close> sleeps
  \<open>min 8000 (1000 * (attempt + 1))\<close>. Neither makes more than \<open>tries\<close> calls, and when
  every attempt fails with a retryable status the error of the last attempt is raised.
\<close>

theorem retry_policy:
  "(\<forall>e. i < tries \<and> fn i = Inl e \<and> response_status e = Some 401 \<longrightarrow>
        ocRetry_from fn tries i l = (Inl (Some e), [Call i])
        \<and> quoteRetry_from fn tries i l = (Inl (Some e), [Call i]))
   \<and> (\<forall>e. i < tries \<and> fn i = Inl e \<and> retryable_status (response_status e) \<longrightarrow>
        ocRetry_from fn tries i l =
          (fst (ocRetry_from fn tries (i + 1) (Some e)),
           Call i # Sleep (oc_wait i) # snd (ocRetry_from fn tries (i + 1) (Some e)))
        \<and> quoteRetry_from fn tries i l =
          (fst (quoteRetry_from fn tries (i + 1) (Some e)),
           Call i # Sleep (quote_wait i) # snd (quoteRetry_from fn tries (i + 1) (Some e))))
   \<and> (i < 31 \<longrightarrow> oc_wait i = min 15000 (1000 * 2 ^ i))
   \<and> quote_wait i = min 8000 (1000 * (int i + 1))
   \<and> (\<forall>e. i < tries \<and> fn i = Inl e \<and> \<not> retryable_status (response_status e) \<longrightarrow>
        ocRetry_from fn tries i l = (Inl (Some e), [Call i])
        \<and> quoteRetry_from fn tries i l = (Inl (Some e), [Call i]))
   \<and> (0 < tries \<and> (\<forall>j<tries. \<exists>e. fn j = Inl e \<and> retryable_status (response_status e)) \<longrightarrow>
        fst (ocRetry fn tries) = Inl (Some (projl (fn (tries - 1))))
        \<and> calls (snd (ocRetry fn tries)) = [0..<tries]
        \<and> fst (quoteRetry fn tries) = Inl (Some (projl (fn (tries - 1))))
        \<and> calls (snd (quoteRetry fn tries)) = [0..<tries])
   \<and> length (calls (snd (ocRetry fn tries))) \<le> tries
   \<and> length (calls (snd (quoteRetry fn tries))) \<le> tries"
proof (intro conjI allI impI)
  fix e
  assume a: "i < tries \<and> fn i = Inl e \<and> response_status e = Some 401"
  then show "ocRetry_from fn tries i l = (Inl (Some e), [Call i])"
    using oc_step_fatal [of i tries fn e l] by blast
  from a have "\<not> retryable_status (response_status e)"
    by (simp add: not_retryable_401)
  with a show "quoteRetry_from fn tries i l = (Inl (Some e), [Call i])"
    using quote_step_fatal [of i tries fn e l] by blast
next
  fix e
  assume a: "i < tries \<and> fn i = Inl e \<and> retryable_status (response_status e)"
  then show "ocRetry_from fn tries i l =
          (fst (ocRetry_from fn tries (i + 1) (Some e)),
           Call i # Sleep (oc_wait i) # snd (ocRetry_from fn tries (i + 1) (Some e)))"
    using oc_step_retry [of i tries fn e l] by simp
  from a show "quoteRetry_from fn tries i l =
          (fst (quoteRetry_from fn tries (i + 1) (Some e)),
           Call i # Sleep (quote_wait i) # snd (quoteRetry_from fn tries (i + 1) (Some e)))"
    using quote_step_retry [of i tries fn e l] by simp
next
  assume "i < 31"
  then show "oc_wait i = min 15000 (1000 * 2 ^ i)" by (rule oc_wait_exp)
next
  show "quote_wait i = min 8000 (1000 * (int i + 1))" by (simp add: quote_wait_def)
next
  fix e
  assume a: "i < tries \<and> fn i = Inl e \<and> \<not> retryable_status (response_status e)"
  then show "ocRetry_from fn tries i l = (Inl (Some e), [Call i])"
    using oc_step_fatal [of i tries fn e l] by blast
  from a show "quoteRetry_from fn tries i l = (Inl (Some e), [Call i])"
    using quote_step_fatal [of i tries fn e l] by blast
next
  assume a: "0 < tries \<and> (\<forall>j<tries. \<exists>e. fn j = Inl e \<and> retryable_status (response_status e))"
  then have all: "\<forall>j. 0 \<le> j \<and> j < tries \<longrightarrow> (\<exists>e. fn j = Inl e \<and> retryable_status (response_status e))"
    by simp
  from oc_exhaust [OF all, of None] a
  show "fst (ocRetry fn tries) = Inl (Some (projl (fn (tries - 1))))"
    and "calls (snd (ocRetry fn tries)) = [0..<tries]"
    by (simp_all add: ocRetry_def calls_pairs)
  from quote_exhaust [OF all, of None] a
  show "fst (quoteRetry fn tries) = Inl (Some (projl (fn (tries - 1))))"
    and "calls (snd (quoteRetry fn tries)) = [0..<tries]"
    by (simp_all add: quoteRetry_def calls_pairs)
next
  show "length (calls (snd (ocRetry fn tries))) \<le> tries"
    using oc_calls_bound [of fn tries 0 None] by (simp add: ocRetry_def)
  show "length (calls (snd (quoteRetry fn tries))) \<le> tries"
    using quote_calls_bound [of fn tries 0 None] by (simp add: quoteRetry_def)
qed

theorem retry_policy_witness:
  "failing_until 1 401 0 = Inl (http_error 401)
   \<and> response_status (http_error 401) = Some 401
   \<and> ocRetry_from (failing_until 1 401) 4 0 None = (Inl (Some (http_error 401)), [Call 0])
   \<and> quoteRetry_from (failing_until 1 401) 3 0 None = (Inl (Some (http_error 401)), [Call 0])
   \<and> failing_until 4 503 0 = Inl (http_error 503)
   \<and> retryable_status (response_status (http_error 503))
   \<and> fst (ocRetry (failing_until 4 503) 4) = Inl (Some (http_error 503))
   \<and> calls (snd (ocRetry (failing_until 4 503) 4)) = [0, 1, 2, 3]
   \<and> fst (quoteRetry (failing_until 4 503) 4) = Inl (Some (http_error 503))
   \<and> oc_wait 2 = 4000 \<and> quote_wait 2 = 3000"
proof -
  have f401: "failing_until 1 401 0 = Inl (http_error 401)"
    by (simp add: failing_until_def)
  have s401: "response_status (http_error 401) = Some 401"
    by (simp add: http_error_def)
  from retry_policy [of 0 4 "failing_until 1 401" None] f401 s401
  have a: "ocRetry_from (failing_until 1 401) 4 0 None = (Inl (Some (http_error 401)), [Call 0])"
    by simp
  from retry_policy [of 0 3 "failing_until 1 401" None] f401 s401
  have b: "quoteRetry_from (failing_until 1 401) 3 0 None = (Inl (Some (http_error 401)), [Call 0])"
    by simp
  have f503: "failing_until 4 503 0 = Inl (http_error 503)"
    by (simp add: failing_until_def)
  have r503: "retryable_status (response_status (http_error 503))"
    by (simp add: http_error_def retryable_status_def)
  have all: "\<forall>j<4. \<exists>e. failing_until 4 503 j = Inl e \<and> retryable_status (response_status e)"
    using r503 by (simp add: failing_until_def)
  have last: "projl (failing_until 4 503 (4 - 1)) = http_error 503"
    by (simp add: failing_until_def)
  have upt4: "[0..<4] = [0, 1, 2, 3::nat]"
    by (simp add: upt_conv_Cons)
  from retry_policy [of 2 4 "failing_until 4 503" None] all last upt4
  have c: "fst (ocRetry (failing_until 4 503) 4) = Inl (Some (http_error 503))"
    and d: "calls (snd (ocRetry (failing_until 4 503) 4)) = [0, 1, 2, 3]"
    and e: "fst (quoteRetry (failing_until 4 503) 4) = Inl (Some (http_error 503))"
    and w: "oc_wait 2 = 4000" "quote_wait 2 = 3000"
    by simp_all
  from f401 s401 a b f503 r503 c d e w show ?thesis by blast
qed

text \<open>
  Three 503 answers to \<open>quoteRetry\<close>: the sleeps are 1000, 2000 and 3000 ms, and the third
  is not \<open>min 8000 (1000 * 2 ^ 2)\<close>.
\<close>

theorem quoteRetry_backoff_counterexample:
  "snd (quoteRetry (failing_until 3 503) 3)
     = [Call 0, Sleep 1000, Call 1, Sleep 2000, Call 2, Sleep 3000]
   \<and> min 8000 (1000 * 2 ^ 2) = (4000 :: int)
   \<and> quote_wait 2 \<noteq> min 8000 (1000 * 2 ^ 2)"
  by (simp add: quoteRetry_def failing_until_def http_error_def retryable_status_def
      quote_wait_def Let_def)

section \<open>Properties of the market clock\<close>

lemma civil_weekday_range: "0 \<le> civil_weekday off d \<and> civil_weekday off d < 7"
  by (simp add: civil_weekday_def)

lemma weekday_short_weekend:
  "0 \<le> w \<Longrightarrow> w < 7 \<Longrightarrow>
   (weekday_short w \<noteq> ''Sat'' \<and> weekday_short w \<noteq> ''Sun'') \<longleftrightarrow> (1 \<le> w \<and> w \<le> 5)"
  by (auto simp: weekday_short_def)

lemma isMarketOpenIst_iff:
  "isMarketOpenIst d \<longleftrightarrow>
     1 \<le> civil_weekday IST_OFFSET_MIN d \<and> civil_weekday IST_OFFSET_MIN d \<le> 5
     \<and> 9 * 60 + 15 \<le> civil_hour IST_OFFSET_MIN d * 60 + civil_minute IST_OFFSET_MIN d
     \<and> civil_hour IST_OFFSET_MIN d * 60 + civil_minute IST_OFFSET_MIN d \<le> 15 * 60 + 30"
  using civil_weekday_range [of IST_OFFSET_MIN d]
    weekday_short_weekend [of "civil_weekday IST_OFFSET_MIN d"]
  by (auto simp: isMarketOpenIst_def getIstParts_def Let_def MARKET_START_MIN_def
      MARKET_END_MIN_def)

lemma isMarketOpen_iff:
  "isMarketOpen off d \<longleftrightarrow>
     1 \<le> civil_weekday off d \<and> civil_weekday off d \<le> 5
     \<and> 9 * 60 + 15 \<le> civil_hour off d * 60 + civil_minute off d
     \<and> civil_hour off d * 60 + civil_minute off d \<le> 15 * 60 + 30"
  using civil_weekday_range [of off d]
  by (auto simp: isMarketOpen_def Let_def)

lemma isMarketOpen_on_ist_host: "isMarketOpen IST_OFFSET_MIN d = isMarketOpenIst d"
  by (simp only: isMarketOpen_iff isMarketOpenIst_iff)

text \<open>
  C6. At 09:15 on Monday 20 October 2025 in Asia/Kolkata (03:45 UTC) the IST test reports
  the market open, and so does \<open>isMarketOpen\<close> on a host whose zone is Asia/Kolkata, but
  on a host in UTC \<open>isMarketOpen\<close> reports it closed. At 17:30 IST of the same day
  (12:00 UTC) the IST test reports the market closed and \<open>isMarketOpen\<close> on the UTC host
  reports it open.
\<close>

theorem isMarketOpen_reads_host_zone:
  "isMarketOpenIst 1760931900000
   \<and> isMarketOpen IST_OFFSET_MIN 1760931900000
   \<and> \<not> isMarketOpen 0 1760931900000
   \<and> \<not> isMarketOpenIst 1760961600000
   \<and> isMarketOpen 0 1760961600000"
  by (simp add: isMarketOpenIst_def isMarketOpen_def getIstParts_def Let_def
      civil_weekday_def civil_hour_def civil_minute_def civil_second_def civil_ms_def
      IST_OFFSET_MIN_def weekday_short_def MARKET_START_MIN_def MARKET_END_MIN_def)

section \<open>Properties of snapshot persistence\<close>

lemma insertOne_distinct:
  "distinct (map key coll) \<Longrightarrow> distinct (map key (snd (insertOne key fault coll d)))"
  by (auto simp: insertOne_def split: option.splits)

text \<open>
  C4. In both save routines an error with code 11000 from the insert is swallowed and the
  result reports \<open>saved = false\<close>; an error with any other code is raised to the caller; a
  successful insert reports \<open>saved = true\<close>. With the unique index in place a document
  whose key is already stored leaves the collection unchanged, a document with a fresh key
  is appended, and the collection never holds two documents with one key.
\<close>

theorem duplicate_key_swallowed:
  "(\<forall>e coll'. insertOne key fault coll d = (Inl e, coll') \<and> code e = Some 11000 \<longrightarrow>
        save_gex_snapshot key fault coll d = (Inr \<lparr>saved = False, doc = d\<rparr>, coll')
        \<and> save_advdec_snapshot key fault coll d = (Inr Duplicate, coll')
        \<and> \<not> advdec_saved Duplicate)
   \<and> (\<forall>e coll'. insertOne key fault coll d = (Inl e, coll') \<and> code e \<noteq> Some 11000 \<longrightarrow>
        save_gex_snapshot key fault coll d = (Inl e, coll')
        \<and> save_advdec_snapshot key fault coll d = (Inl e, coll'))
   \<and> (\<forall>i coll'. insertOne key fault coll d = (Inr i, coll') \<longrightarrow>
        save_gex_snapshot key fault coll d = (Inr \<lparr>saved = True, doc = d\<rparr>, coll')
        \<and> save_advdec_snapshot key fault coll d = (Inr (Saved i), coll')
        \<and> advdec_saved (Saved i))
   \<and> (fault = None \<and> key d \<in> key ` set coll \<longrightarrow>
        save_gex_snapshot key fault coll d = (Inr \<lparr>saved = False, doc = d\<rparr>, coll)
        \<and> save_advdec_snapshot key fault coll d = (Inr Duplicate, coll))
   \<and> (fault = None \<and> key d \<notin> key ` set coll \<longrightarrow>
        save_gex_snapshot key fault coll d = (Inr \<lparr>saved = True, doc = d\<rparr>, coll @ [d])
        \<and> save_advdec_snapshot key fault coll d = (Inr (Saved (length coll)), coll @ [d]))
   \<and> (distinct (map key coll) \<longrightarrow>
        distinct (map key (snd (save_gex_snapshot key fault coll d)))
        \<and> distinct (map key (snd (save_advdec_snapshot key fault coll d))))"
proof (intro conjI allI impI)
  fix e coll'
  assume "insertOne key fault coll d = (Inl e, coll') \<and> code e = Some 11000"
  then show "save_gex_snapshot key fault coll d = (Inr \<lparr>saved = False, doc = d\<rparr>, coll')"
    and "save_advdec_snapshot key fault coll d = (Inr Duplicate, coll')"
    by (simp_all add: save_gex_snapshot_def save_advdec_snapshot_def)
  show "\<not> advdec_saved Duplicate" by (simp add: advdec_saved_def)
next
  fix e coll'
  assume "insertOne key fault coll d = (Inl e, coll') \<and> code e \<noteq> Some 11000"
  then show "save_gex_snapshot key fault coll d = (Inl e, coll')"
    and "save_advdec_snapshot key fault coll d = (Inl e, coll')"
    by (simp_all add: save_gex_snapshot_def save_advdec_snapshot_def)
next
  fix i coll'
  assume "insertOne key fault coll d = (Inr i, coll')"
  then show "save_gex_snapshot key fault coll d = (Inr \<lparr>saved = True, doc = d\<rparr>, coll')"
    and "save_advdec_snapshot key fault coll d = (Inr (Saved i), coll')"
    by (simp_all add: save_gex_snapshot_def save_advdec_snapshot_def)
  show "advdec_saved (Saved i)" by (simp add: advdec_saved_def)
next
  assume "fault = None \<and> key d \<in> key ` set coll"
  then show "save_gex_snapshot key fault coll d = (Inr \<lparr>saved = False, doc = d\<rparr>, coll)"
    and "save_advdec_snapshot key fault coll d = (Inr Duplicate, coll)"
    by (simp_all add: save_gex_snapshot_def save_advdec_snapshot_def insertOne_def
        duplicate_key_error_def)
next
  assume "fault = None \<and> key d \<notin> key ` set coll"
  then show "save_gex_snapshot key fault coll d = (Inr \<lparr>saved = True, doc = d\<rparr>, coll @ [d])"
    and "save_advdec_snapshot key fault coll d = (Inr (Saved (length coll)), coll @ [d])"
    by (simp_all add: save_gex_snapshot_def save_advdec_snapshot_def insertOne_def)
next
  assume dst: "distinct (map key coll)"
  have g: "snd (save_gex_snapshot key fault coll d) = snd (insertOne key fault coll d)"
    by (simp add: save_gex_snapshot_def split: prod.splits sum.splits)
  have a: "snd (save_advdec_snapshot key fault coll d) = snd (insertOne key fault coll d)"
    by (simp add: save_advdec_snapshot_def split: prod.splits sum.splits)
  from insertOne_distinct [OF dst, of fault d] g
  show "distinct (map key (snd (save_gex_snapshot key fault coll d)))" by simp
  from insertOne_distinct [OF dst, of fault d] a
  show "distinct (map key (snd (save_advdec_snapshot key fault coll d)))" by simp
qed

theorem duplicate_key_swallowed_witness:
  "insertOne fst None [((''2025-10-20'', 29348865::int), ''first'')]
       ((''2025-10-20'', 29348865), ''retry'')
     = (Inl duplicate_key_error, [((''2025-10-20'', 29348865), ''first'')])
   \<and> code duplicate_key_error = Some 11000
   \<and> save_gex_snapshot fst None [((''2025-10-20'', 29348865::int), ''first'')]
       ((''2025-10-20'', 29348865), ''retry'')
     = (Inr \<lparr>saved = False, doc = ((''2025-10-20'', 29348865), ''retry'')\<rparr>,
        [((''2025-10-20'', 29348865), ''first'')])
   \<and> insertOne fst (Some connection_error) [((''2025-10-20'', 29348865::int), ''first'')]
       ((''2025-10-20'', 29348866), ''next'')
     = (Inl connection_error, [((''2025-10-20'', 29348865), ''first'')])
   \<and> code connection_error \<noteq> Some 11000
   \<and> save_advdec_snapshot fst (Some connection_error)
       [((''2025-10-20'', 29348865::int), ''first'')] ((''2025-10-20'', 29348866), ''next'')
     = (Inl connection_error, [((''2025-10-20'', 29348865), ''first'')])
   \<and> save_gex_snapshot fst None [((''2025-10-20'', 29348865::int), ''first'')]
       ((''2025-10-20'', 29348866), ''next'')
     = (Inr \<lparr>saved = True, doc = ((''2025-10-20'', 29348866), ''next'')\<rparr>,
        [((''2025-10-20'', 29348865), ''first''), ((''2025-10-20'', 29348866), ''next'')])
   \<and> distinct (map fst [((''2025-10-20'', 29348865::int), ''first'')])
   \<and> distinct (map fst (snd (save_gex_snapshot fst None
        [((''2025-10-20'', 29348865::int), ''first'')] ((''2025-10-20'', 29348865), ''retry''))))"
proof -
  let ?c = "[((''2025-10-20'', 29348865::int), ''first'')]"
  let ?dup = "((''2025-10-20'', 29348865::int), ''retry'')"
  let ?new = "((''2025-10-20'', 29348866::int), ''next'')"
  have h1: "insertOne fst None ?c ?dup = (Inl duplicate_key_error, ?c)"
    by (simp add: insertOne_def)
  have c1: "code duplicate_key_error = Some 11000"
    by (simp add: duplicate_key_error_def)
  have h2: "insertOne fst (Some connection_error) ?c ?new = (Inl connection_error, ?c)"
    by (simp add: insertOne_def)
  have c2: "code connection_error \<noteq> Some 11000"
    by (simp add: connection_error_def)
  have h3: "fst ?new \<notin> fst ` set ?c" by simp
  have h4: "distinct (map fst ?c)" by simp
  from duplicate_key_swallowed [of fst None ?c ?dup] h1 c1 h4
  have a: "save_gex_snapshot fst None ?c ?dup = (Inr \<lparr>saved = False, doc = ?dup\<rparr>, ?c)"
    and d: "distinct (map fst (snd (save_gex_snapshot fst None ?c ?dup)))"
    by blast+
  from duplicate_key_swallowed [of fst "Some connection_error" ?c ?new] h2 c2
  have b: "save_advdec_snapshot fst (Some connection_error) ?c ?new = (Inl connection_error, ?c)"
    by blast
  from duplicate_key_swallowed [of fst None ?c ?new] h3
  have c: "save_gex_snapshot fst None ?c ?new = (Inr \<lparr>saved = True, doc = ?new\<rparr>, ?c @ [?new])"
    by blast
  from h1 c1 a h2 c2 b c h4 d show ?thesis by simp
qed

section \<open>Properties of the level selector\<close>

subsection \<open>The comparator sort\<close>

lemma set_insort_cmp: "set (insort_cmp cmp x ys) = insert x (set ys)"
  by (induction ys) auto

lemma set_js_sort: "set (js_sort cmp xs) = set xs"
  by (induction xs) (simp_all add: js_sort_def set_insort_cmp)

text \<open>A comparator that is positive exactly when its first argument has the greater key
  sorts as the stable insertion sort by that key.\<close>

lemma insort_cmp_key:
  fixes k :: "'a \<Rightarrow> 'k::linorder"
  assumes "\<forall>y\<in>set ys. num_lt (Num 0) (cmp x y) \<longleftrightarrow> k y < k x"
  shows "insort_cmp cmp x ys = insort_key k x ys"
  using assms by (induction ys) (auto simp: not_less)

lemma js_sort_key:
  fixes k :: "'a \<Rightarrow> 'k::linorder"
  assumes "\<forall>x\<in>set xs. \<forall>y\<in>set xs. num_lt (Num 0) (cmp x y) \<longleftrightarrow> k y < k x"
  shows "js_sort cmp xs = sort_key k xs"
  using assms
proof (induction xs)
  case Nil
  then show ?case by (simp add: js_sort_def)
next
  case (Cons x xs)
  then have ih: "js_sort cmp xs = sort_key k xs" by simp
  have "insort_cmp cmp x (sort_key k xs) = insort_key k x (sort_key k xs)"
    by (rule insort_cmp_key) (use Cons.prems in simp)
  with ih show ?case by (simp add: js_sort_def)
qed

lemma sort_key_perm:
  fixes k :: "'a \<Rightarrow> 'k::linorder"
  assumes "mset xs = mset ys" and "inj_on k (set xs)"
  shows "sort_key k xs = sort_key k ys"
  by (rule sort_key_inj_key_eq) (use assms in simp_all)

subsection \<open>Rank maps\<close>

lemma set_ranks_other:
  "s \<notin> GexRow.strike ` set rs \<Longrightarrow> set_ranks rs i m s = m s"
  by (induction rs arbitrary: i m) auto

lemma set_ranks_nth:
  "distinct (map GexRow.strike rs) \<Longrightarrow> j < length rs \<Longrightarrow>
   set_ranks rs i m (GexRow.strike (rs ! j)) = Some (int (i + j) + 1)"
proof (induction rs arbitrary: i m j)
  case Nil
  then show ?case by simp
next
  case (Cons r rs)
  show ?case
  proof (cases j)
    case 0
    with Cons.prems show ?thesis by (simp add: set_ranks_other)
  next
    case (Suc j')
    with Cons.prems have d: "distinct (map GexRow.strike rs)" and l: "j' < length rs"
      by simp_all
    have "set_ranks rs (i + 1) (m(GexRow.strike r \<mapsto> int i + 1)) (GexRow.strike (rs ! j'))
        = Some (int (i + 1 + j') + 1)"
      by (rule Cons.IH [OF d l])
    with Suc show ?thesis by simp
  qed
qed

lemma finite_number_val: "finite_number n \<Longrightarrow> n = Num (val n)"
  by (cases n) simp_all

lemma rankMap_sort_key:
  assumes "\<forall>r\<in>set grp. finite_number (key r)"
  shows "rankMap grp key desc = set_ranks (sort_key (rank_key key desc) grp) 0 Map.empty"
proof -
  let ?cmp = "\<lambda>a b. if desc then num_sub (key b) (key a) else num_sub (key a) (key b)"
  have "\<forall>x\<in>set grp. \<forall>y\<in>set grp.
          num_lt (Num 0) (?cmp x y) \<longleftrightarrow> rank_key key desc y < rank_key key desc x"
  proof (intro ballI)
    fix x y
    assume "x \<in> set grp" "y \<in> set grp"
    with assms have "key x = Num (val (key x))" "key y = Num (val (key y))"
      by (simp_all add: finite_number_val)
    then obtain a b where "key x = Num a" "key y = Num b" by blast
    then show "num_lt (Num 0) (?cmp x y) \<longleftrightarrow> rank_key key desc y < rank_key key desc x"
      by (simp add: rank_key_def)
  qed
  then have "js_sort ?cmp grp = sort_key (rank_key key desc) grp"
    by (rule js_sort_key)
  then show ?thesis by (simp add: rankMap_def)
qed

lemma rankMapAbs_sort_key:
  assumes "\<forall>r\<in>set grp. finite_number (key r)"
  shows "rankMapAbs grp key = set_ranks (sort_key (\<lambda>r. \<bar>val (key r)\<bar>) grp) 0 Map.empty"
proof -
  let ?cmp = "\<lambda>a b. num_sub (num_abs (key a)) (num_abs (key b))"
  have "\<forall>x\<in>set grp. \<forall>y\<in>set grp.
          num_lt (Num 0) (?cmp x y) \<longleftrightarrow> \<bar>val (key y)\<bar> < \<bar>val (key x)\<bar>"
  proof (intro ballI)
    fix x y
    assume "x \<in> set grp" "y \<in> set grp"
    with assms have "key x = Num (val (key x))" "key y = Num (val (key y))"
      by (simp_all add: finite_number_val)
    then obtain a b where "key x = Num a" "key y = Num b" by blast
    then show "num_lt (Num 0) (?cmp x y) \<longleftrightarrow> \<bar>val (key y)\<bar> < \<bar>val (key x)\<bar>"
      by simp
  qed
  then have "js_sort ?cmp grp = sort_key (\<lambda>r. \<bar>val (key r)\<bar>) grp"
    by (rule js_sort_key)
  then show ?thesis by (simp add: rankMapAbs_def)
qed

lemma distinct_map_sort_key:
  "distinct (map f (sort_key k xs)) \<longleftrightarrow> distinct (map f xs)"
proof -
  have "mset (map f (sort_key k xs)) = mset (map f xs)" by simp
  then show ?thesis by (rule mset_eq_imp_distinct_iff)
qed

lemma rank_lookup:
  assumes d: "distinct (map GexRow.strike grp)" and p: "p \<in> set grp"
  shows "\<exists>j<length grp. sort_key k grp ! j = p
           \<and> get_or (set_ranks (sort_key k grp) 0 Map.empty) (GexRow.strike p) = int j + 1"
proof -
  let ?s = "sort_key k grp"
  from p have "p \<in> set ?s" by simp
  then obtain j where j: "j < length ?s" "?s ! j = p"
    unfolding in_set_conv_nth by blast
  from d have "distinct (map GexRow.strike ?s)" by (simp add: distinct_map_sort_key)
  from set_ranks_nth [OF this j(1), of 0 Map.empty] j(2)
  have "set_ranks ?s 0 Map.empty (GexRow.strike p) = Some (int j + 1)" by simp
  with j show ?thesis by (auto simp: get_or_def)
qed

lemma ranks_by_sort_key:
  assumes d: "distinct (map GexRow.strike grp)"
  shows "ranks_by k (\<lambda>r. get_or (set_ranks (sort_key k grp) 0 Map.empty) (GexRow.strike r)) grp"
proof -
  let ?s = "sort_key k grp"
  let ?rk = "\<lambda>r. get_or (set_ranks ?s 0 Map.empty) (GexRow.strike r)"
  have ds: "distinct ?s"
    using d distinct_map_sort_key [of GexRow.strike k grp] by (meson distinct_map)
  have range: "\<forall>p\<in>set grp. 1 \<le> ?rk p \<and> ?rk p \<le> int (length grp)"
  proof
    fix p assume "p \<in> set grp"
    from rank_lookup [OF d this, of k] show "1 \<le> ?rk p \<and> ?rk p \<le> int (length grp)" by auto
  qed
  have inj: "\<forall>p\<in>set grp. \<forall>q\<in>set grp. p \<noteq> q \<longrightarrow> ?rk p \<noteq> ?rk q"
  proof (intro ballI impI)
    fix p q assume pq: "p \<in> set grp" "q \<in> set grp" "p \<noteq> q"
    from rank_lookup [OF d pq(1), of k] obtain i where
      i: "i < length grp" "?s ! i = p" "?rk p = int i + 1" by blast
    from rank_lookup [OF d pq(2), of k] obtain j where
      j: "j < length grp" "?s ! j = q" "?rk q = int j + 1" by blast
    from pq(3) i(2) j(2) have "i \<noteq> j" by auto
    with i(3) j(3) show "?rk p \<noteq> ?rk q" by simp
  qed
  have mono: "\<forall>p\<in>set grp. \<forall>q\<in>set grp. k p < k q \<longrightarrow> ?rk p < ?rk q"
  proof (intro ballI impI)
    fix p q assume pq: "p \<in> set grp" "q \<in> set grp" "k p < k q"
    from rank_lookup [OF d pq(1), of k] obtain i where
      i: "i < length grp" "?s ! i = p" "?rk p = int i + 1" by blast
    from rank_lookup [OF d pq(2), of k] obtain j where
      j: "j < length grp" "?s ! j = q" "?rk q = int j + 1" by blast
    have "i < j"
    proof (rule ccontr)
      assume "\<not> i < j"
      then have "j \<le> i" by simp
      have "sorted (map k ?s)" by simp
      from sorted_nth_mono [OF this \<open>j \<le> i\<close>] i(1)
      have "map k ?s ! j \<le> map k ?s ! i" by simp
      with i j have "k q \<le> k p" by simp
      with pq(3) show False by simp
    qed
    with i(3) j(3) show "?rk p < ?rk q" by simp
  qed
  from range inj mono show ?thesis by (simp add: ranks_by_def)
qed

subsection \<open>Scoring and marks\<close>

lemma score_cmp_key:
  "num_lt (Num 0) (score_cmp x y) \<longleftrightarrow>
     (score y, oiR y, volR y) < (score x, oiR x, volR x)"
  by (auto simp: score_cmp_def js_or_def)

lemma js_sort_score:
  "js_sort score_cmp xs = sort_key (\<lambda>s. (score s, oiR s, volR s)) xs"
  by (rule js_sort_key) (simp add: score_cmp_key)

lemma labelled_Nil: "labelled [] = []"
  by (simp add: labelled_def)

lemma push_marks_zip:
  "labelled (push_marks sc (l1, c1) (l2, c2) sd)
     = zip [l1, l2] (map Scored.strike sc)"
proof (cases sc)
  case Nil
  then show ?thesis by (simp add: push_marks_def labelled_def)
next
  case (Cons a rest)
  then show ?thesis by (cases rest) (simp_all add: push_marks_def labelled_def)
qed

lemma push_marks_strikes:
  "m \<in> set (push_marks sc mk1 mk2 sd) \<Longrightarrow> LineMark.strike m \<in> Scored.strike ` set sc"
  by (auto simp: push_marks_def split: if_splits)

lemma scored_sorted_strikes:
  "Scored.strike ` set (scored_sorted grp desc) = GexRow.strike ` set grp"
  by (auto simp: scored_sorted_def group_scored_def Let_def set_js_sort scored_of_def image_iff)

lemma pos_rows_finite:
  "r \<in> set (pos_rows rows) \<Longrightarrow>
   finite_number (GexRow.strike r) \<and> finite_number (GexRow.gex_oi_raw r)
   \<and> finite_number (GexRow.gex_vol_raw r)"
  by (simp add: pos_rows_def valid_row_def)

lemma neg_rows_finite:
  "r \<in> set (neg_rows rows) \<Longrightarrow>
   finite_number (GexRow.strike r) \<and> finite_number (GexRow.gex_oi_raw r)
   \<and> finite_number (GexRow.gex_vol_raw r)"
  by (simp add: neg_rows_def valid_row_def)

lemma group_ranks:
  assumes fin: "\<forall>r\<in>set grp. finite_number (GexRow.gex_oi_raw r) \<and> finite_number (GexRow.gex_vol_raw r)"
    and d: "distinct (map GexRow.strike grp)"
  shows "ranks_by (rank_key GexRow.gex_oi_raw desc) (\<lambda>r. oiR (group_scored grp desc r)) grp"
    and "ranks_by (rank_key GexRow.gex_vol_raw desc) (\<lambda>r. volR (group_scored grp desc r)) grp"
proof -
  from fin have "rankMap grp GexRow.gex_oi_raw desc
      = set_ranks (sort_key (rank_key GexRow.gex_oi_raw desc) grp) 0 Map.empty"
    by (intro rankMap_sort_key) simp
  with ranks_by_sort_key [OF d, of "rank_key GexRow.gex_oi_raw desc"]
  show "ranks_by (rank_key GexRow.gex_oi_raw desc) (\<lambda>r. oiR (group_scored grp desc r)) grp"
    by (simp add: group_scored_def scored_of_def Let_def)
  from fin have "rankMap grp GexRow.gex_vol_raw desc
      = set_ranks (sort_key (rank_key GexRow.gex_vol_raw desc) grp) 0 Map.empty"
    by (intro rankMap_sort_key) simp
  with ranks_by_sort_key [OF d, of "rank_key GexRow.gex_vol_raw desc"]
  show "ranks_by (rank_key GexRow.gex_vol_raw desc) (\<lambda>r. volR (group_scored grp desc r)) grp"
    by (simp add: group_scored_def scored_of_def Let_def)
qed

lemma group_score: "score (group_scored grp desc r)
    = 2 * oiR (group_scored grp desc r) + 1 * volR (group_scored grp desc r)"
  by (simp add: group_scored_def scored_of_def Let_def OI_WEIGHT_def VOL_WEIGHT_def)

lemma red_marks:
  "labelled (red (pickLinesByRaw rows))
     = zip [''R1'', ''R2'']
         (map Scored.strike
            (sort_key (\<lambda>s. (score s, oiR s, volR s))
               (map (group_scored (pos_rows rows) True) (pos_rows rows))))"
  by (simp add: pickLinesByRaw_def Let_def scored_sorted_def js_sort_score push_marks_zip
      labelled_Nil)

lemma green_marks:
  "labelled (green (pickLinesByRaw rows))
     = zip [''S1'', ''S2'']
         (map Scored.strike
            (sort_key (\<lambda>s. (score s, oiR s, volR s))
               (map (group_scored (neg_rows rows) False) (neg_rows rows))))"
  by (simp add: pickLinesByRaw_def Let_def scored_sorted_def js_sort_score push_marks_zip
      labelled_Nil)

lemmas level_eval =
  pickLinesByRaw_def pos_rows_def neg_rows_def valid_row_def scored_sorted_def
  group_scored_def scored_of_def rankMap_def rankMapAbs_def js_sort_def push_marks_def
  get_or_def get_truthy_or_def score_cmp_def js_or_def num_eq_def num_le_def mk_row_def
  OI_WEIGHT_def VOL_WEIGHT_def labelled_def Let_def

lemma scenario_lines:
  "labelled
     (red (pickLinesByRaw [mk_row 2000 100 50, mk_row 2100 80 60,
                           mk_row 1900 (- 120) (- 40), mk_row 1800 (- 50) (- 90)]))
     = [(''R1'', Num 2000), (''R2'', Num 2100)]"
  "labelled
     (green (pickLinesByRaw [mk_row 2000 100 50, mk_row 2100 80 60,
                           mk_row 1900 (- 120) (- 40), mk_row 1800 (- 50) (- 90)]))
     = [(''S1'', Num 1900), (''S2'', Num 1800)]"
  by (simp_all add: level_eval)

lemma pos_filter_iff:
  "valid_row r \<and> num_lt (Num 0) (GexRow.gex_oi_raw r) \<and> num_lt (Num 0) (GexRow.gex_vol_raw r)
   \<longleftrightarrow> finite_number (GexRow.strike r) \<and> finite_number (GexRow.gex_oi_raw r)
        \<and> finite_number (GexRow.gex_vol_raw r)
        \<and> 0 < val (GexRow.gex_oi_raw r) \<and> 0 < val (GexRow.gex_vol_raw r)"
  by (cases "GexRow.gex_oi_raw r"; cases "GexRow.gex_vol_raw r")
     (auto simp: valid_row_def num_eq_def)

lemma neg_filter_iff:
  "valid_row r \<and> num_lt (GexRow.gex_oi_raw r) (Num 0) \<and> num_lt (GexRow.gex_vol_raw r) (Num 0)
   \<longleftrightarrow> finite_number (GexRow.strike r) \<and> finite_number (GexRow.gex_oi_raw r)
        \<and> finite_number (GexRow.gex_vol_raw r)
        \<and> val (GexRow.gex_oi_raw r) < 0 \<and> val (GexRow.gex_vol_raw r) < 0"
  by (cases "GexRow.gex_oi_raw r"; cases "GexRow.gex_vol_raw r")
     (auto simp: valid_row_def num_eq_def)

lemma pos_rows_set:
  "set (pos_rows rows) =
     {r \<in> set rows. finite_number (GexRow.strike r) \<and> finite_number (GexRow.gex_oi_raw r)
        \<and> finite_number (GexRow.gex_vol_raw r)
        \<and> 0 < val (GexRow.gex_oi_raw r) \<and> 0 < val (GexRow.gex_vol_raw r)}"
  using pos_filter_iff by (auto simp: pos_rows_def)

lemma neg_rows_set:
  "set (neg_rows rows) =
     {r \<in> set rows. finite_number (GexRow.strike r) \<and> finite_number (GexRow.gex_oi_raw r)
        \<and> finite_number (GexRow.gex_vol_raw r)
        \<and> val (GexRow.gex_oi_raw r) < 0 \<and> val (GexRow.gex_vol_raw r) < 0}"
  using neg_filter_iff by (auto simp: neg_rows_def)

text \<open>
  C1. When the positive-regime rows (both exposures finite and above zero) have pairwise
  distinct strikes, the selector numbers them 1, 2, ... by open-interest exposure
  descending and, independently, by volume exposure descending, gives each row the score
  \<open>2 * oiR + 1 * volR\<close>, and labels as R1 and R2 the first two strikes of the rows sorted
  ascending by score, then \<open>oiR\<close>, then \<open>volR\<close>. The negative-regime rows are treated the
  same way with both rankings ascending, giving S1 and S2. On the four rows of the
  scenario the result is R1 = 2000, R2 = 2100, S1 = 1900, S2 = 1800.
\<close>

theorem level_selector_ranking:
  assumes "distinct (map GexRow.strike (pos_rows rows))"
    and "distinct (map GexRow.strike (neg_rows rows))"
  shows
    "set (pos_rows rows) =
       {r \<in> set rows. finite_number (GexRow.strike r) \<and> finite_number (GexRow.gex_oi_raw r)
          \<and> finite_number (GexRow.gex_vol_raw r)
          \<and> 0 < val (GexRow.gex_oi_raw r) \<and> 0 < val (GexRow.gex_vol_raw r)}
     \<and> ranks_by (\<lambda>r. - val (GexRow.gex_oi_raw r))
          (\<lambda>r. oiR (group_scored (pos_rows rows) True r)) (pos_rows rows)
     \<and> ranks_by (\<lambda>r. - val (GexRow.gex_vol_raw r))
          (\<lambda>r. volR (group_scored (pos_rows rows) True r)) (pos_rows rows)
     \<and> (\<forall>r\<in>set (pos_rows rows).
          score (group_scored (pos_rows rows) True r)
            = 2 * oiR (group_scored (pos_rows rows) True r)
              + 1 * volR (group_scored (pos_rows rows) True r))
     \<and> labelled (red (pickLinesByRaw rows))
         = zip [''R1'', ''R2'']
             (map Scored.strike
                (sort_key (\<lambda>s. (score s, oiR s, volR s))
                   (map (group_scored (pos_rows rows) True) (pos_rows rows))))
     \<and> set (neg_rows rows) =
       {r \<in> set rows. finite_number (GexRow.strike r) \<and> finite_number (GexRow.gex_oi_raw r)
          \<and> finite_number (GexRow.gex_vol_raw r)
          \<and> val (GexRow.gex_oi_raw r) < 0 \<and> val (GexRow.gex_vol_raw r) < 0}
     \<and> ranks_by (\<lambda>r. val (GexRow.gex_oi_raw r))
          (\<lambda>r. oiR (group_scored (neg_rows rows) False r)) (neg_rows rows)
     \<and> ranks_by (\<lambda>r. val (GexRow.gex_vol_raw r))
          (\<lambda>r. volR (group_scored (neg_rows rows) False r)) (neg_rows rows)
     \<and> (\<forall>r\<in>set (neg_rows rows).
          score (group_scored (neg_rows rows) False r)
            = 2 * oiR (group_scored (neg_rows rows) False r)
              + 1 * volR (group_scored (neg_rows rows) False r))
     \<and> labelled (green (pickLinesByRaw rows))
         = zip [''S1'', ''S2'']
             (map Scored.strike
                (sort_key (\<lambda>s. (score s, oiR s, volR s))
                   (map (group_scored (neg_rows rows) False) (neg_rows rows))))
     \<and> labelled
         (red (pickLinesByRaw [mk_row 2000 100 50, mk_row 2100 80 60,
                               mk_row 1900 (- 120) (- 40), mk_row 1800 (- 50) (- 90)]))
         = [(''R1'', Num 2000), (''R2'', Num 2100)]
     \<and> labelled
         (green (pickLinesByRaw [mk_row 2000 100 50, mk_row 2100 80 60,
                                 mk_row 1900 (- 120) (- 40), mk_row 1800 (- 50) (- 90)]))
         = [(''S1'', Num 1900), (''S2'', Num 1800)]"
proof -
  have kd: "rank_key key True = (\<lambda>r. - val (key r))" for key
    by (rule ext) (simp add: rank_key_def)
  have ka: "rank_key key False = (\<lambda>r. val (key r))" for key
    by (rule ext) (simp add: rank_key_def)
  have pf: "\<forall>r\<in>set (pos_rows rows).
      finite_number (GexRow.gex_oi_raw r) \<and> finite_number (GexRow.gex_vol_raw r)"
    using pos_rows_finite by blast
  have nf: "\<forall>r\<in>set (neg_rows rows).
      finite_number (GexRow.gex_oi_raw r) \<and> finite_number (GexRow.gex_vol_raw r)"
    using neg_rows_finite by blast
  note p = group_ranks [OF pf assms(1), of True, unfolded kd]
  note n = group_ranks [OF nf assms(2), of False, unfolded ka]
  show ?thesis
    using p n
    by (intro conjI ballI pos_rows_set neg_rows_set group_score red_marks green_marks
        scenario_lines)
qed

theorem level_selector_ranking_witness:
  "distinct (map GexRow.strike (pos_rows [mk_row 2000 100 50, mk_row 2100 80 60,
       mk_row 1900 (- 120) (- 40), mk_row 1800 (- 50) (- 90)]))
   \<and> distinct (map GexRow.strike (neg_rows [mk_row 2000 100 50, mk_row 2100 80 60,
       mk_row 1900 (- 120) (- 40), mk_row 1800 (- 50) (- 90)]))
   \<and> pos_rows [mk_row 2000 100 50, mk_row 2100 80 60,
       mk_row 1900 (- 120) (- 40), mk_row 1800 (- 50) (- 90)]
     = [mk_row 2000 100 50, mk_row 2100 80 60]
   \<and> ranks_by (\<lambda>r. - val (GexRow.gex_oi_raw r))
        (\<lambda>r. oiR (group_scored [mk_row 2000 100 50, mk_row 2100 80 60] True r))
        [mk_row 2000 100 50, mk_row 2100 80 60]
   \<and> labelled
         (red (pickLinesByRaw [mk_row 2000 100 50, mk_row 2100 80 60,
                               mk_row 1900 (- 120) (- 40), mk_row 1800 (- 50) (- 90)]))
         = [(''R1'', Num 2000), (''R2'', Num 2100)]"
proof -
  let ?rows = "[mk_row 2000 100 50, mk_row 2100 80 60,
       mk_row 1900 (- 120) (- 40), mk_row 1800 (- 50) (- 90)]"
  have pr: "pos_rows ?rows = [mk_row 2000 100 50, mk_row 2100 80 60]"
    by (simp add: pos_rows_def valid_row_def num_eq_def mk_row_def)
  have nr: "neg_rows ?rows = [mk_row 1900 (- 120) (- 40), mk_row 1800 (- 50) (- 90)]"
    by (simp add: neg_rows_def valid_row_def num_eq_def mk_row_def)
  have dp: "distinct (map GexRow.strike (pos_rows ?rows))"
    unfolding pr by (simp add: mk_row_def)
  have dn: "distinct (map GexRow.strike (neg_rows ?rows))"
    unfolding nr by (simp add: mk_row_def)
  from level_selector_ranking [OF dp dn]
  have "ranks_by (\<lambda>r. - val (GexRow.gex_oi_raw r))
          (\<lambda>r. oiR (group_scored (pos_rows ?rows) True r)) (pos_rows ?rows)"
    and "labelled (red (pickLinesByRaw ?rows))
         = [(''R1'', Num 2000), (''R2'', Num 2100)]"
    by blast+
  with dp dn pr show ?thesis by simp
qed

text \<open>
  With two positive-regime rows at strike 1, the rank of strike 1 is overwritten by the
  later of them: the row with the largest exposures is ranked 3 and R1 is strike 2.
\<close>

theorem duplicate_strike_counterexample:
  "pos_rows [mk_row 1 100 100, mk_row 2 50 50, mk_row 1 10 10]
     = [mk_row 1 100 100, mk_row 2 50 50, mk_row 1 10 10]
   \<and> oiR (group_scored [mk_row 1 100 100, mk_row 2 50 50, mk_row 1 10 10] True
           (mk_row 1 100 100)) = 3
   \<and> oiR (group_scored [mk_row 1 100 100, mk_row 2 50 50, mk_row 1 10 10] True
           (mk_row 2 50 50)) = 2
   \<and> labelled (red (pickLinesByRaw [mk_row 1 100 100, mk_row 2 50 50, mk_row 1 10 10]))
       = [(''R1'', Num 2), (''R2'', Num 1)]"
proof -
  let ?rows = "[mk_row 1 100 100, mk_row 2 50 50, mk_row 1 10 10]"
  have a: "pos_rows ?rows = ?rows"
    by (simp add: pos_rows_def valid_row_def num_eq_def mk_row_def)
  have b: "oiR (group_scored ?rows True (mk_row 1 100 100)) = 3"
    by (simp add: level_eval)
  have c: "oiR (group_scored ?rows True (mk_row 2 50 50)) = 2"
    by (simp add: level_eval)
  have e: "labelled (red (pickLinesByRaw ?rows)) = [(''R1'', Num 2), (''R2'', Num 1)]"
    by (simp add: level_eval)
  from a b c e show ?thesis by blast
qed

subsection \<open>Levels\<close>

lemma red_mark_row:
  assumes "m \<in> set (red (pickLinesByRaw rows))"
  shows "\<exists>r\<in>set (pos_rows rows). GexRow.strike r = LineMark.strike m"
proof -
  from assms have "m \<in> set (push_marks (scored_sorted (pos_rows rows) True)
      (''R1'', ''#ef4444'') (''R2'', ''#fca5a5'') ''ce'')"
    by (auto simp: pickLinesByRaw_def Let_def split: if_splits)
  from push_marks_strikes [OF this]
  have "LineMark.strike m \<in> GexRow.strike ` set (pos_rows rows)"
    by (simp add: scored_sorted_strikes)
  then show ?thesis by auto
qed

lemma green_mark_row:
  assumes "m \<in> set (green (pickLinesByRaw rows))"
  shows "\<exists>r\<in>set (neg_rows rows). GexRow.strike r = LineMark.strike m"
proof -
  from assms have "m \<in> set (push_marks (scored_sorted (neg_rows rows) False)
      (''S1'', ''#10b981'') (''S2'', ''#86efac'') ''pe'')"
    by (auto simp: pickLinesByRaw_def Let_def split: if_splits)
  from push_marks_strikes [OF this]
  have "LineMark.strike m \<in> GexRow.strike ` set (neg_rows rows)"
    by (simp add: scored_sorted_strikes)
  then show ?thesis by auto
qed

lemma find_label_mem:
  "find_label marks l = Some s \<Longrightarrow> \<exists>m\<in>set marks. label m = l \<and> LineMark.strike m = s"
  by (auto simp: find_label_def find_Some_iff split: option.splits)

lemma pushLevel_mem:
  "l \<in> set (pushLevel rows ls nm s sd) \<Longrightarrow>
   l \<in> set ls \<or> (Level.name l = nm \<and> s = Some (Level.strike l))"
  by (auto simp: pushLevel_def Let_def finite_opt_def split: if_splits option.splits)

lemma compute_levels_mem:
  assumes "l \<in> set (compute_levels rows)"
  shows "(Level.name l = ''R1'' \<and> find_label (red (pickLinesByRaw rows)) ''R1'' = Some (Level.strike l))
     \<or> (Level.name l = ''R2'' \<and> find_label (red (pickLinesByRaw rows)) ''R2'' = Some (Level.strike l))
     \<or> (Level.name l = ''S1'' \<and> find_label (green (pickLinesByRaw rows)) ''S1'' = Some (Level.strike l))
     \<or> (Level.name l = ''S2'' \<and> find_label (green (pickLinesByRaw rows)) ''S2'' = Some (Level.strike l))
     \<or> (Level.name l = ''Flip''
          \<and> pickZeroGammaStrike rows (find_label (red (pickLinesByRaw rows)) ''R1'')
               (find_label (green (pickLinesByRaw rows)) ''S1'') = Some (Level.strike l))"
proof -
  let ?lines = "pickLinesByRaw rows"
  let ?r1 = "find_label (red ?lines) ''R1''"
  let ?r2 = "find_label (red ?lines) ''R2''"
  let ?s1 = "find_label (green ?lines) ''S1''"
  let ?s2 = "find_label (green ?lines) ''S2''"
  let ?l1 = "pushLevel rows [] ''R1'' ?r1 (Some ''ce'')"
  let ?l2 = "pushLevel rows ?l1 ''R2'' ?r2 (Some ''ce'')"
  let ?l3 = "pushLevel rows ?l2 ''S1'' ?s1 (Some ''pe'')"
  let ?l4 = "pushLevel rows ?l3 ''S2'' ?s2 (Some ''pe'')"
  from assms have "l \<in> set (pushLevel rows ?l4 ''Flip'' (pickZeroGammaStrike rows ?r1 ?s1) None)"
    by (simp add: compute_levels_def Let_def)
  from pushLevel_mem [OF this] consider
    (flip) "Level.name l = ''Flip''" "pickZeroGammaStrike rows ?r1 ?s1 = Some (Level.strike l)"
    | (l4) "l \<in> set ?l4" by blast
  then show ?thesis
  proof cases
    case flip
    then show ?thesis by simp
  next
    case l4
    from pushLevel_mem [OF this] consider
      (s2) "Level.name l = ''S2''" "?s2 = Some (Level.strike l)" | (l3) "l \<in> set ?l3" by blast
    then show ?thesis
    proof cases
      case s2
      then show ?thesis by simp
    next
      case l3
      from pushLevel_mem [OF this] consider
        (s1) "Level.name l = ''S1''" "?s1 = Some (Level.strike l)" | (l2) "l \<in> set ?l2" by blast
      then show ?thesis
      proof cases
        case s1
        then show ?thesis by simp
      next
        case l2
        from pushLevel_mem [OF this] consider
          (r2) "Level.name l = ''R2''" "?r2 = Some (Level.strike l)" | (l1) "l \<in> set ?l1" by blast
        then show ?thesis
        proof cases
          case r2
          then show ?thesis by simp
        next
          case l1
          from pushLevel_mem [OF this] show ?thesis by simp
        qed
      qed
    qed
  qed
qed

lemma js_sort_snd:
  "js_sort (\<lambda>a b. Num (of_int (snd a - snd b))) xs = sort_key snd xs"
  for xs :: "(number \<times> int) list"
  by (rule js_sort_key) simp

lemma sort_key_head_least:
  fixes k :: "'a \<Rightarrow> 'k::linorder"
  assumes "xs \<noteq> []"
  shows "\<exists>a rest. sort_key k xs = a # rest \<and> a \<in> set xs \<and> (\<forall>e\<in>set xs. k a \<le> k e)"
proof -
  from assms have "sort_key k xs \<noteq> []" by (metis length_sort length_0_conv)
  then obtain a rest where s: "sort_key k xs = a # rest"
    by (cases "sort_key k xs") auto
  have "sorted (map k (sort_key k xs))" by simp
  with s have le: "\<forall>e\<in>set rest. k a \<le> k e" by simp
  have "set (a # rest) = set xs" by (metis s set_sort)
  with le have "a \<in> set xs" "\<forall>e\<in>set xs. k a \<le> k e" by auto
  with s show ?thesis by blast
qed

lemma flip_head_least:
  assumes "grp \<noteq> []"
  shows "\<exists>a rest. js_sort (\<lambda>a b. Num (of_int (snd a - snd b))) (flip_scored grp) = a # rest
           \<and> a \<in> set (flip_scored grp) \<and> (\<forall>e\<in>set (flip_scored grp). snd a \<le> snd e)"
proof -
  from assms have "flip_scored grp \<noteq> []" by (simp add: flip_scored_def Let_def)
  from sort_key_head_least [OF this, of snd] show ?thesis by (simp only: js_sort_snd)
qed

lemma pickZeroGammaStrike_least:
  assumes "pickZeroGammaStrike rows r1 s1 = Some x"
  shows "finite_opt r1 \<and> finite_opt s1
     \<and> (\<exists>sc. (x, sc) \<in> set (flip_scored (between_rows rows
                   (Num (min (val (the r1)) (val (the s1))))
                   (Num (max (val (the r1)) (val (the s1))))))
           \<and> (\<forall>e\<in>set (flip_scored (between_rows rows
                   (Num (min (val (the r1)) (val (the s1))))
                   (Num (max (val (the r1)) (val (the s1)))))). sc \<le> snd e))"
proof -
  let ?g = "between_rows rows (Num (min (val (the r1)) (val (the s1))))
                   (Num (max (val (the r1)) (val (the s1))))"
  let ?s = "js_sort (\<lambda>a b. Num (of_int (snd a - snd b))) (flip_scored ?g)"
  from assms have fo: "finite_opt r1 \<and> finite_opt s1"
    by (auto simp: pickZeroGammaStrike_def split: if_splits)
  from assms fo have ne: "?g \<noteq> []"
    by (auto simp: pickZeroGammaStrike_def Let_def split: if_splits)
  from flip_head_least [OF ne] obtain a rest where a: "?s = a # rest"
    "a \<in> set (flip_scored ?g)" "\<forall>e\<in>set (flip_scored ?g). snd a \<le> snd e"
    by blast
  from assms fo ne a(1) have "fst a = x"
    by (simp add: pickZeroGammaStrike_def Let_def del: of_int_diff)
  with a(2) have "(x, snd a) \<in> set (flip_scored ?g)" by (metis prod.collapse)
  with a(3) fo show ?thesis by blast
qed

lemma between_rows_set:
  "set (between_rows rows (Num lo) (Num hi))
     = {r \<in> set rows. finite_number (GexRow.strike r)
          \<and> lo \<le> val (GexRow.strike r) \<and> val (GexRow.strike r) \<le> hi
          \<and> finite_number (GexRow.gex_oi_raw r) \<and> finite_number (GexRow.gex_vol_raw r)}"
proof -
  have "num_le (Num lo) x = (lo \<le> val x) \<and> num_le x (Num hi) = (val x \<le> hi)"
    if "finite_number x" for x
    using that by (cases x) (auto simp: num_le_def num_eq_def)
  then show ?thesis by (auto simp: between_rows_def)
qed

lemma getRow_exact:
  assumes r: "r \<in> set rows" "GexRow.strike r = x" and f: "finite_number x"
  shows "\<exists>e\<in>set rows. GexRow.strike e = x \<and> getRow rows (Some x) = Some e"
proof -
  let ?P = "\<lambda>r. num_eq (GexRow.strike r) x"
  from f have "x \<noteq> NaN" by (cases x) simp_all
  with r have "\<exists>r\<in>set rows. ?P r" by (auto simp: num_eq_def)
  then obtain e where e: "find ?P rows = Some e"
    by (cases "find ?P rows") (auto simp: find_None_iff)
  then have "e \<in> set rows" "?P e"
    by (auto simp: find_Some_iff in_set_conv_nth)
  then have "e \<in> set rows" "GexRow.strike e = x" by (auto simp: num_eq_def)
  with e f show ?thesis by (auto simp: getRow_def finite_opt_def)
qed

lemma pushLevel_attached:
  assumes "\<forall>l\<in>set ls. attached_from rows l"
  shows "\<forall>l\<in>set (pushLevel rows ls nm s sd). attached_from rows l"
  using assms
  by (auto simp: pushLevel_def Let_def finite_opt_def attached_from_def split: option.splits)

lemma compute_levels_attached: "\<forall>l\<in>set (compute_levels rows). attached_from rows l"
  unfolding compute_levels_def Let_def
  by (intro pushLevel_attached) simp

lemma level_red_row:
  assumes l: "l \<in> set (compute_levels rows)"
    and n: "Level.name l = ''R1'' \<or> Level.name l = ''R2''"
  shows "\<exists>r\<in>set (pos_rows rows). GexRow.strike r = Level.strike l"
proof -
  from compute_levels_mem [OF l] n
  have "find_label (red (pickLinesByRaw rows)) ''R1'' = Some (Level.strike l)
      \<or> find_label (red (pickLinesByRaw rows)) ''R2'' = Some (Level.strike l)"
    by auto
  then obtain m where "m \<in> set (red (pickLinesByRaw rows))" "LineMark.strike m = Level.strike l"
    using find_label_mem by blast
  with red_mark_row show ?thesis by metis
qed

lemma level_green_row:
  assumes l: "l \<in> set (compute_levels rows)"
    and n: "Level.name l = ''S1'' \<or> Level.name l = ''S2''"
  shows "\<exists>r\<in>set (neg_rows rows). GexRow.strike r = Level.strike l"
proof -
  from compute_levels_mem [OF l] n
  have "find_label (green (pickLinesByRaw rows)) ''S1'' = Some (Level.strike l)
      \<or> find_label (green (pickLinesByRaw rows)) ''S2'' = Some (Level.strike l)"
    by auto
  then obtain m where "m \<in> set (green (pickLinesByRaw rows))" "LineMark.strike m = Level.strike l"
    using find_label_mem by blast
  with green_mark_row show ?thesis by metis
qed

lemma level_signal_row:
  assumes l: "l \<in> set (compute_levels rows)"
    and n: "Level.name l \<in> {''R1'', ''R2'', ''S1'', ''S2''}"
  shows "\<exists>p\<in>set rows. GexRow.strike p = Level.strike l \<and> \<not> zero_row p"
proof -
  from n consider "Level.name l = ''R1'' \<or> Level.name l = ''R2''"
    | "Level.name l = ''S1'' \<or> Level.name l = ''S2''" by auto
  then show ?thesis
  proof cases
    case 1
    from level_red_row [OF l 1] show ?thesis
      unfolding pos_rows_set by (auto simp: zero_row_def num_eq_def)
  next
    case 2
    from level_green_row [OF l 2] show ?thesis
      unfolding neg_rows_set by (auto simp: zero_row_def num_eq_def)
  qed
qed

lemma level_not_zero:
  assumes H: "zero_rows_apart rows"
    and l: "l \<in> set (compute_levels rows)"
    and p: "p \<in> set rows" "GexRow.strike p = Level.strike l" "\<not> zero_row p"
  shows "(\<forall>z\<in>set rows. GexRow.strike z = Level.strike l \<longrightarrow> \<not> zero_row z)
       \<and> \<not> (Level.gex_oi_raw l = Some (Num 0) \<and> Level.gex_vol_raw l = Some (Num 0))"
proof -
  have nz: "\<forall>z\<in>set rows. GexRow.strike z = Level.strike l \<longrightarrow> \<not> zero_row z"
  proof (intro ballI impI notI)
    fix z
    assume z: "z \<in> set rows" "GexRow.strike z = Level.strike l" "zero_row z"
    with p have "zero_row z \<and> GexRow.strike p = GexRow.strike z" by simp
    with H z(1) p(1) have "zero_row p" unfolding zero_rows_apart_def by blast
    with p(3) show False by simp
  qed
  from compute_levels_attached l have at: "attached_from rows l" by blast
  then have f: "finite_number (Level.strike l)" by (simp add: attached_from_def)
  from getRow_exact [OF p(1) p(2) f] obtain e where e: "e \<in> set rows"
    "GexRow.strike e = Level.strike l" "getRow rows (Some (Level.strike l)) = Some e"
    by blast
  with nz have "\<not> zero_row e" by blast
  with at e(3) have "\<not> (Level.gex_oi_raw l = Some (Num 0) \<and> Level.gex_vol_raw l = Some (Num 0))"
    by (auto simp: attached_from_def zero_row_def num_eq_def)
  with nz show ?thesis by blast
qed

lemma level_flip_least:
  assumes l: "l \<in> set (compute_levels rows)" and n: "Level.name l = ''Flip''"
  shows "(\<exists>r\<in>set (flip_group rows). GexRow.strike r = Level.strike l)
        \<and> (\<exists>sc. (Level.strike l, sc) \<in> set (flip_scored (flip_group rows))
              \<and> (\<forall>e\<in>set (flip_scored (flip_group rows)). sc \<le> snd e))"
proof -
  let ?r1 = "find_label (red (pickLinesByRaw rows)) ''R1''"
  let ?s1 = "find_label (green (pickLinesByRaw rows)) ''S1''"
  from compute_levels_mem [OF l] n
  have "pickZeroGammaStrike rows ?r1 ?s1 = Some (Level.strike l)" by auto
  from pickZeroGammaStrike_least [OF this]
  have fo: "finite_opt ?r1 \<and> finite_opt ?s1"
    and ex: "\<exists>sc. (Level.strike l, sc) \<in> set (flip_scored (between_rows rows
                   (Num (min (val (the ?r1)) (val (the ?s1))))
                   (Num (max (val (the ?r1)) (val (the ?s1))))))
           \<and> (\<forall>e\<in>set (flip_scored (between_rows rows
                   (Num (min (val (the ?r1)) (val (the ?s1))))
                   (Num (max (val (the ?r1)) (val (the ?s1)))))). sc \<le> snd e)"
    by simp_all
  from fo have fg: "flip_group rows = between_rows rows
                   (Num (min (val (the ?r1)) (val (the ?s1))))
                   (Num (max (val (the ?r1)) (val (the ?s1))))"
    by (simp add: flip_group_def Let_def)
  from ex have sc: "\<exists>sc. (Level.strike l, sc) \<in> set (flip_scored (flip_group rows))
              \<and> (\<forall>e\<in>set (flip_scored (flip_group rows)). sc \<le> snd e)"
    unfolding fg .
  then obtain sc where "(Level.strike l, sc) \<in> set (flip_scored (flip_group rows))" by blast
  then have "\<exists>r\<in>set (flip_group rows). GexRow.strike r = Level.strike l"
    by (auto simp: flip_scored_def Let_def)
  with sc show ?thesis by blast
qed

lemma flip_group_set:
  assumes a: "find_label (red (pickLinesByRaw rows)) ''R1'' = Some a"
    and b: "find_label (green (pickLinesByRaw rows)) ''S1'' = Some b"
  shows "set (flip_group rows)
          = {r \<in> set rows. finite_number (GexRow.strike r)
               \<and> min (val a) (val b) \<le> val (GexRow.strike r)
               \<and> val (GexRow.strike r) \<le> max (val a) (val b)
               \<and> finite_number (GexRow.gex_oi_raw r) \<and> finite_number (GexRow.gex_vol_raw r)}"
proof -
  from find_label_mem [OF a] red_mark_row obtain r where
    "r \<in> set (pos_rows rows)" "GexRow.strike r = a" by metis
  then have fa: "finite_number a" using pos_rows_finite by blast
  from find_label_mem [OF b] green_mark_row obtain q where
    "q \<in> set (neg_rows rows)" "GexRow.strike q = b" by metis
  then have fb: "finite_number b" using neg_rows_finite by blast
  from fa fb have "flip_group rows
      = between_rows rows (Num (min (val a) (val b))) (Num (max (val a) (val b)))"
    by (simp add: flip_group_def Let_def a b finite_opt_def)
  then show ?thesis by (simp only: between_rows_set)
qed

lemma getRow_first:
  assumes r: "r \<in> set rows" "GexRow.strike r = x" and f: "finite_number x"
  shows "\<exists>e. find (\<lambda>r. GexRow.strike r = x) rows = Some e \<and> getRow rows (Some x) = Some e"
proof -
  from f have "x \<noteq> NaN" by (cases x) simp_all
  then have eq: "(\<lambda>r. num_eq (GexRow.strike r) x) = (\<lambda>r. GexRow.strike r = x)"
    by (auto simp: num_eq_def)
  from r have "\<exists>r\<in>set rows. GexRow.strike r = x" by auto
  then obtain e where e: "find (\<lambda>r. GexRow.strike r = x) rows = Some e"
    by (cases "find (\<lambda>r. GexRow.strike r = x) rows") (auto simp: find_None_iff)
  with f show ?thesis by (simp add: getRow_def finite_opt_def eq)
qed

lemma flip_group_subset: "set (flip_group rows) \<subseteq> set rows"
  by (auto simp: flip_group_def Let_def between_rows_def)

lemma level_row:
  assumes l: "l \<in> set (compute_levels rows)"
  shows "\<exists>p\<in>set rows. GexRow.strike p = Level.strike l"
proof -
  from compute_levels_mem [OF l] consider
    (R) "Level.name l = ''R1'' \<or> Level.name l = ''R2''"
    | (S) "Level.name l = ''S1'' \<or> Level.name l = ''S2''"
    | (F) "Level.name l = ''Flip''" by blast
  then show ?thesis
  proof cases
    case R
    from level_red_row [OF l R] show ?thesis unfolding pos_rows_set by auto
  next
    case S
    from level_green_row [OF l S] show ?thesis unfolding neg_rows_set by auto
  next
    case F
    from level_flip_least [OF l F] flip_group_subset show ?thesis by blast
  qed
qed

lemma level_first_row:
  assumes l: "l \<in> set (compute_levels rows)"
  shows "\<exists>e. find (\<lambda>r. GexRow.strike r = Level.strike l) rows = Some e
          \<and> Level.gex_oi_raw l = Some (GexRow.gex_oi_raw e)
          \<and> Level.gex_vol_raw l = Some (GexRow.gex_vol_raw e)
          \<and> (Level.gex_oi_raw l = Some (Num 0) \<and> Level.gex_vol_raw l = Some (Num 0)
                \<longleftrightarrow> zero_row e)"
proof -
  from level_row [OF l] obtain p where p: "p \<in> set rows" "GexRow.strike p = Level.strike l"
    by blast
  from compute_levels_attached l have at: "attached_from rows l" by blast
  then have f: "finite_number (Level.strike l)" by (simp add: attached_from_def)
  from getRow_first [OF p f] obtain e where
    e: "find (\<lambda>r. GexRow.strike r = Level.strike l) rows = Some e"
      "getRow rows (Some (Level.strike l)) = Some e"
    by blast
  from at e(2) have v: "Level.gex_oi_raw l = Some (GexRow.gex_oi_raw e)"
    "Level.gex_vol_raw l = Some (GexRow.gex_vol_raw e)"
    by (simp_all add: attached_from_def)
  then have "(Level.gex_oi_raw l = Some (Num 0) \<and> Level.gex_vol_raw l = Some (Num 0))
      \<longleftrightarrow> zero_row e"
    by (auto simp: zero_row_def num_eq_def)
  with e(1) v show ?thesis by blast
qed

text \<open>
  C2. Every level named R1 or R2 carries the strike of an input row whose two exposures
  are finite and above zero, and every level named S1 or S2 the strike of an input row
  whose two exposures are finite and below zero. The exposure values attached to a level
  are those of the first input row at the level's strike, and they are both zero exactly
  when that row has both exposures zero. When no row with both exposures zero shares its
  strike with a row that has a signal, no input row at the strike of a level R1, R2, S1
  or S2 has both exposures zero, and the exposure values attached to the level are not
  both zero. The Flip level is a row of least Flip score among the rows between R1 and
  S1, and these are all the input rows with finite strike and exposures whose strike lies
  between the two: a row with both exposures zero is among them and can be the Flip level.
  Every red mark and every green mark carries the strike of a row of its regime.
\<close>

theorem zero_rows_not_support_resistance:
  "(\<forall>l\<in>set (compute_levels rows). Level.name l = ''R1'' \<or> Level.name l = ''R2'' \<longrightarrow>
      (\<exists>r\<in>set rows. GexRow.strike r = Level.strike l
         \<and> finite_number (GexRow.gex_oi_raw r) \<and> finite_number (GexRow.gex_vol_raw r)
         \<and> 0 < val (GexRow.gex_oi_raw r) \<and> 0 < val (GexRow.gex_vol_raw r)
         \<and> \<not> (GexRow.gex_oi_raw r = Num 0 \<and> GexRow.gex_vol_raw r = Num 0)))
   \<and> (\<forall>l\<in>set (compute_levels rows). Level.name l = ''S1'' \<or> Level.name l = ''S2'' \<longrightarrow>
      (\<exists>r\<in>set rows. GexRow.strike r = Level.strike l
         \<and> finite_number (GexRow.gex_oi_raw r) \<and> finite_number (GexRow.gex_vol_raw r)
         \<and> val (GexRow.gex_oi_raw r) < 0 \<and> val (GexRow.gex_vol_raw r) < 0
         \<and> \<not> (GexRow.gex_oi_raw r = Num 0 \<and> GexRow.gex_vol_raw r = Num 0)))
   \<and> (\<forall>l\<in>set (compute_levels rows).
        \<exists>e. find (\<lambda>r. GexRow.strike r = Level.strike l) rows = Some e
          \<and> Level.gex_oi_raw l = Some (GexRow.gex_oi_raw e)
          \<and> Level.gex_vol_raw l = Some (GexRow.gex_vol_raw e)
          \<and> (Level.gex_oi_raw l = Some (Num 0) \<and> Level.gex_vol_raw l = Some (Num 0)
                \<longleftrightarrow> zero_row e))
   \<and> (zero_rows_apart rows \<longrightarrow>
        (\<forall>l\<in>set (compute_levels rows).
           Level.name l \<in> {''R1'', ''R2'', ''S1'', ''S2''} \<longrightarrow>
             (\<forall>z\<in>set rows. GexRow.strike z = Level.strike l \<longrightarrow> \<not> zero_row z)
             \<and> \<not> (Level.gex_oi_raw l = Some (Num 0) \<and> Level.gex_vol_raw l = Some (Num 0))))
   \<and> (\<forall>l\<in>set (compute_levels rows). Level.name l = ''Flip'' \<longrightarrow>
        (\<exists>r\<in>set (flip_group rows). GexRow.strike r = Level.strike l)
        \<and> (\<exists>sc. (Level.strike l, sc) \<in> set (flip_scored (flip_group rows))
              \<and> (\<forall>e\<in>set (flip_scored (flip_group rows)). sc \<le> snd e)))
   \<and> (\<forall>a b. find_label (red (pickLinesByRaw rows)) ''R1'' = Some a
            \<and> find_label (green (pickLinesByRaw rows)) ''S1'' = Some b \<longrightarrow>
        set (flip_group rows)
          = {r \<in> set rows. finite_number (GexRow.strike r)
               \<and> min (val a) (val b) \<le> val (GexRow.strike r)
               \<and> val (GexRow.strike r) \<le> max (val a) (val b)
               \<and> finite_number (GexRow.gex_oi_raw r) \<and> finite_number (GexRow.gex_vol_raw r)})
   \<and> (\<forall>m\<in>set (red (pickLinesByRaw rows)).
        \<exists>r\<in>set rows. GexRow.strike r = LineMark.strike m
          \<and> 0 < val (GexRow.gex_oi_raw r) \<and> 0 < val (GexRow.gex_vol_raw r))
   \<and> (\<forall>m\<in>set (green (pickLinesByRaw rows)).
        \<exists>r\<in>set rows. GexRow.strike r = LineMark.strike m
          \<and> val (GexRow.gex_oi_raw r) < 0 \<and> val (GexRow.gex_vol_raw r) < 0)"
proof -
  have R: "(\<forall>l\<in>set (compute_levels rows). Level.name l = ''R1'' \<or> Level.name l = ''R2'' \<longrightarrow>
      (\<exists>r\<in>set rows. GexRow.strike r = Level.strike l
         \<and> finite_number (GexRow.gex_oi_raw r) \<and> finite_number (GexRow.gex_vol_raw r)
         \<and> 0 < val (GexRow.gex_oi_raw r) \<and> 0 < val (GexRow.gex_vol_raw r)
         \<and> \<not> (GexRow.gex_oi_raw r = Num 0 \<and> GexRow.gex_vol_raw r = Num 0)))"
  proof (intro ballI impI)
    fix l
    assume l: "l \<in> set (compute_levels rows)" and n: "Level.name l = ''R1'' \<or> Level.name l = ''R2''"
    from level_red_row [OF l n]
    show "\<exists>r\<in>set rows. GexRow.strike r = Level.strike l
         \<and> finite_number (GexRow.gex_oi_raw r) \<and> finite_number (GexRow.gex_vol_raw r)
         \<and> 0 < val (GexRow.gex_oi_raw r) \<and> 0 < val (GexRow.gex_vol_raw r)
         \<and> \<not> (GexRow.gex_oi_raw r = Num 0 \<and> GexRow.gex_vol_raw r = Num 0)"
      unfolding pos_rows_set by auto
  qed
  have S: "(\<forall>l\<in>set (compute_levels rows). Level.name l = ''S1'' \<or> Level.name l = ''S2'' \<longrightarrow>
      (\<exists>r\<in>set rows. GexRow.strike r = Level.strike l
         \<and> finite_number (GexRow.gex_oi_raw r) \<and> finite_number (GexRow.gex_vol_raw r)
         \<and> val (GexRow.gex_oi_raw r) < 0 \<and> val (GexRow.gex_vol_raw r) < 0
         \<and> \<not> (GexRow.gex_oi_raw r = Num 0 \<and> GexRow.gex_vol_raw r = Num 0)))"
  proof (intro ballI impI)
    fix l
    assume l: "l \<in> set (compute_levels rows)" and n: "Level.name l = ''S1'' \<or> Level.name l = ''S2''"
    from level_green_row [OF l n]
    show "\<exists>r\<in>set rows. GexRow.strike r = Level.strike l
         \<and> finite_number (GexRow.gex_oi_raw r) \<and> finite_number (GexRow.gex_vol_raw r)
         \<and> val (GexRow.gex_oi_raw r) < 0 \<and> val (GexRow.gex_vol_raw r) < 0
         \<and> \<not> (GexRow.gex_oi_raw r = Num 0 \<and> GexRow.gex_vol_raw r = Num 0)"
      unfolding neg_rows_set by auto
  qed
  have A: "(\<forall>l\<in>set (compute_levels rows).
        \<exists>e. find (\<lambda>r. GexRow.strike r = Level.strike l) rows = Some e
          \<and> Level.gex_oi_raw l = Some (GexRow.gex_oi_raw e)
          \<and> Level.gex_vol_raw l = Some (GexRow.gex_vol_raw e)
          \<and> (Level.gex_oi_raw l = Some (Num 0) \<and> Level.gex_vol_raw l = Some (Num 0)
                \<longleftrightarrow> zero_row e))"
    using level_first_row by blast
  have Z: "(zero_rows_apart rows \<longrightarrow>
        (\<forall>l\<in>set (compute_levels rows).
           Level.name l \<in> {''R1'', ''R2'', ''S1'', ''S2''} \<longrightarrow>
             (\<forall>z\<in>set rows. GexRow.strike z = Level.strike l \<longrightarrow> \<not> zero_row z)
             \<and> \<not> (Level.gex_oi_raw l = Some (Num 0) \<and> Level.gex_vol_raw l = Some (Num 0))))"
  proof (intro ballI impI)
    fix l
    assume H: "zero_rows_apart rows" and l: "l \<in> set (compute_levels rows)"
      and n: "Level.name l \<in> {''R1'', ''R2'', ''S1'', ''S2''}"
    from level_signal_row [OF l n] obtain p where
      "p \<in> set rows" "GexRow.strike p = Level.strike l" "\<not> zero_row p" by blast
    from level_not_zero [OF H l this]
    show "(\<forall>z\<in>set rows. GexRow.strike z = Level.strike l \<longrightarrow> \<not> zero_row z)
       \<and> \<not> (Level.gex_oi_raw l = Some (Num 0) \<and> Level.gex_vol_raw l = Some (Num 0))" .
  qed
  have F: "(\<forall>l\<in>set (compute_levels rows). Level.name l = ''Flip'' \<longrightarrow>
        (\<exists>r\<in>set (flip_group rows). GexRow.strike r = Level.strike l)
        \<and> (\<exists>sc. (Level.strike l, sc) \<in> set (flip_scored (flip_group rows))
              \<and> (\<forall>e\<in>set (flip_scored (flip_group rows)). sc \<le> snd e)))"
    using level_flip_least by blast
  have G: "(\<forall>a b. find_label (red (pickLinesByRaw rows)) ''R1'' = Some a
            \<and> find_label (green (pickLinesByRaw rows)) ''S1'' = Some b \<longrightarrow>
        set (flip_group rows)
          = {r \<in> set rows. finite_number (GexRow.strike r)
               \<and> min (val a) (val b) \<le> val (GexRow.strike r)
               \<and> val (GexRow.strike r) \<le> max (val a) (val b)
               \<and> finite_number (GexRow.gex_oi_raw r) \<and> finite_number (GexRow.gex_vol_raw r)})"
    using flip_group_set by blast
  have MR: "(\<forall>m\<in>set (red (pickLinesByRaw rows)).
        \<exists>r\<in>set rows. GexRow.strike r = LineMark.strike m
          \<and> 0 < val (GexRow.gex_oi_raw r) \<and> 0 < val (GexRow.gex_vol_raw r))"
  proof
    fix m
    assume "m \<in> set (red (pickLinesByRaw rows))"
    from red_mark_row [OF this]
    show "\<exists>r\<in>set rows. GexRow.strike r = LineMark.strike m
          \<and> 0 < val (GexRow.gex_oi_raw r) \<and> 0 < val (GexRow.gex_vol_raw r)"
      unfolding pos_rows_set by auto
  qed
  have MG: "(\<forall>m\<in>set (green (pickLinesByRaw rows)).
        \<exists>r\<in>set rows. GexRow.strike r = LineMark.strike m
          \<and> val (GexRow.gex_oi_raw r) < 0 \<and> val (GexRow.gex_vol_raw r) < 0)"
  proof
    fix m
    assume "m \<in> set (green (pickLinesByRaw rows))"
    from green_mark_row [OF this]
    show "\<exists>r\<in>set rows. GexRow.strike r = LineMark.strike m
          \<and> val (GexRow.gex_oi_raw r) < 0 \<and> val (GexRow.gex_vol_raw r) < 0"
      unfolding neg_rows_set by auto
  qed
  show ?thesis by (intro conjI) (fact R S A Z F G MR MG)+
qed

lemmas levels_eval =
  compute_levels_def find_label_def pickZeroGammaStrike_def between_rows_def flip_scored_def
  pushLevel_def getRow_def finite_opt_def level_eval

text \<open>
  A row at strike 1950 with both exposures zero, between R1 = 2000 and S1 = 1900, is
  chosen as the Flip level. A row at strike 2000 with both exposures zero, listed before
  the row with a signal at the same strike, gives its zero exposures to the levels R1 and
  Flip: \<^verbatim>\<open>getRow\<close> returns the first row at the strike.
\<close>

theorem zero_row_flip_counterexample:
  "compute_levels [mk_row 1950 0 0, mk_row 2000 100 50, mk_row 1900 (- 120) (- 40)]
     = [\<lparr>name = ''R1'', strike = Num 2000, gex_oi_raw = Some (Num 100),
          gex_vol_raw = Some (Num 50), side = Some ''ce''\<rparr>,
        \<lparr>name = ''S1'', strike = Num 1900, gex_oi_raw = Some (Num (- 120)),
          gex_vol_raw = Some (Num (- 40)), side = Some ''pe''\<rparr>,
        \<lparr>name = ''Flip'', strike = Num 1950, gex_oi_raw = Some (Num 0),
          gex_vol_raw = Some (Num 0), side = None\<rparr>]
   \<and> zero_row (mk_row 1950 0 0)
   \<and> compute_levels [mk_row 2000 0 0, mk_row 2000 100 50, mk_row 1900 (- 120) (- 40)]
     = [\<lparr>name = ''R1'', strike = Num 2000, gex_oi_raw = Some (Num 0),
          gex_vol_raw = Some (Num 0), side = Some ''ce''\<rparr>,
        \<lparr>name = ''S1'', strike = Num 1900, gex_oi_raw = Some (Num (- 120)),
          gex_vol_raw = Some (Num (- 40)), side = Some ''pe''\<rparr>,
        \<lparr>name = ''Flip'', strike = Num 2000, gex_oi_raw = Some (Num 0),
          gex_vol_raw = Some (Num 0), side = None\<rparr>]
   \<and> zero_row (mk_row 2000 0 0)
   \<and> \<not> zero_rows_apart [mk_row 2000 0 0, mk_row 2000 100 50, mk_row 1900 (- 120) (- 40)]"
  by (simp add: levels_eval zero_row_def zero_rows_apart_def)

theorem zero_rows_not_support_resistance_witness:
  "zero_rows_apart [mk_row 1950 0 0, mk_row 2000 100 50, mk_row 1900 (- 120) (- 40)]
   \<and> compute_levels [mk_row 1950 0 0, mk_row 2000 100 50, mk_row 1900 (- 120) (- 40)]
     = [\<lparr>name = ''R1'', strike = Num 2000, gex_oi_raw = Some (Num 100),
          gex_vol_raw = Some (Num 50), side = Some ''ce''\<rparr>,
        \<lparr>name = ''S1'', strike = Num 1900, gex_oi_raw = Some (Num (- 120)),
          gex_vol_raw = Some (Num (- 40)), side = Some ''pe''\<rparr>,
        \<lparr>name = ''Flip'', strike = Num 1950, gex_oi_raw = Some (Num 0),
          gex_vol_raw = Some (Num 0), side = None\<rparr>]
   \<and> (\<exists>r\<in>set [mk_row 1950 0 0, mk_row 2000 100 50, mk_row 1900 (- 120) (- 40)].
         GexRow.strike r = Num 2000
         \<and> 0 < val (GexRow.gex_oi_raw r) \<and> 0 < val (GexRow.gex_vol_raw r)
         \<and> \<not> (GexRow.gex_oi_raw r = Num 0 \<and> GexRow.gex_vol_raw r = Num 0))
   \<and> (\<exists>r\<in>set [mk_row 1950 0 0, mk_row 2000 100 50, mk_row 1900 (- 120) (- 40)].
         GexRow.strike r = Num 1900
         \<and> val (GexRow.gex_oi_raw r) < 0 \<and> val (GexRow.gex_vol_raw r) < 0)
   \<and> find (\<lambda>r. GexRow.strike r = Num 1950)
        [mk_row 1950 0 0, mk_row 2000 100 50, mk_row 1900 (- 120) (- 40)]
       = Some (mk_row 1950 0 0)
   \<and> zero_row (mk_row 1950 0 0)
   \<and> \<not> zero_row (mk_row 2000 100 50)
   \<and> \<not> zero_row (mk_row 1900 (- 120) (- 40))
   \<and> (\<exists>sc. (Num 1950, sc)
          \<in> set (flip_scored
                 (flip_group [mk_row 1950 0 0, mk_row 2000 100 50, mk_row 1900 (- 120) (- 40)])))
   \<and> mk_row 1950 0 0
       \<in> set (flip_group [mk_row 1950 0 0, mk_row 2000 100 50, mk_row 1900 (- 120) (- 40)])"
proof -
  let ?rows = "[mk_row 1950 0 0, mk_row 2000 100 50, mk_row 1900 (- 120) (- 40)]"
  let ?r1 = "\<lparr>name = ''R1'', strike = Num 2000, gex_oi_raw = Some (Num 100),
      gex_vol_raw = Some (Num 50), side = Some ''ce''\<rparr>"
  let ?s1 = "\<lparr>name = ''S1'', strike = Num 1900, gex_oi_raw = Some (Num (- 120)),
      gex_vol_raw = Some (Num (- 40)), side = Some ''pe''\<rparr>"
  let ?fl = "\<lparr>name = ''Flip'', strike = Num 1950, gex_oi_raw = Some (Num 0),
      gex_vol_raw = Some (Num 0), side = None\<rparr>"
  note T = zero_rows_not_support_resistance [of ?rows]
  have za: "zero_rows_apart ?rows"
    by (simp add: zero_rows_apart_def zero_row_def num_eq_def mk_row_def)
  have cl: "compute_levels ?rows = [?r1, ?s1, ?fl]"
    by (simp add: levels_eval)
  have ra: "find_label (red (pickLinesByRaw ?rows)) ''R1'' = Some (Num 2000)"
    by (simp add: levels_eval)
  have sa: "find_label (green (pickLinesByRaw ?rows)) ''S1'' = Some (Num 1900)"
    by (simp add: levels_eval)
  have m1: "?r1 \<in> set (compute_levels ?rows)" by (simp add: cl)
  have m2: "?s1 \<in> set (compute_levels ?rows)" by (simp add: cl)
  have m3: "?fl \<in> set (compute_levels ?rows)" by (simp add: cl)
  have n1: "Level.name ?r1 = ''R1'' \<or> Level.name ?r1 = ''R2''" by simp
  have n2: "Level.name ?s1 = ''S1'' \<or> Level.name ?s1 = ''S2''" by simp
  have n3: "Level.name ?fl = ''Flip''" by simp
  have k1: "Level.name ?r1 \<in> {''R1'', ''R2'', ''S1'', ''S2''}" by simp
  have k2: "Level.name ?s1 \<in> {''R1'', ''R2'', ''S1'', ''S2''}" by simp
  from T [THEN conjunct1, THEN bspec, OF m1, THEN mp, OF n1]
  have "\<exists>r\<in>set ?rows. GexRow.strike r = Level.strike ?r1
         \<and> finite_number (GexRow.gex_oi_raw r) \<and> finite_number (GexRow.gex_vol_raw r)
         \<and> 0 < val (GexRow.gex_oi_raw r) \<and> 0 < val (GexRow.gex_vol_raw r)
         \<and> \<not> (GexRow.gex_oi_raw r = Num 0 \<and> GexRow.gex_vol_raw r = Num 0)" .
  then have c1: "\<exists>r\<in>set ?rows. GexRow.strike r = Num 2000
         \<and> 0 < val (GexRow.gex_oi_raw r) \<and> 0 < val (GexRow.gex_vol_raw r)
         \<and> \<not> (GexRow.gex_oi_raw r = Num 0 \<and> GexRow.gex_vol_raw r = Num 0)"
    by (simp add: mk_row_def)
  from T [THEN conjunct2, THEN conjunct1, THEN bspec, OF m2, THEN mp, OF n2]
  have "\<exists>r\<in>set ?rows. GexRow.strike r = Level.strike ?s1
         \<and> finite_number (GexRow.gex_oi_raw r) \<and> finite_number (GexRow.gex_vol_raw r)
         \<and> val (GexRow.gex_oi_raw r) < 0 \<and> val (GexRow.gex_vol_raw r) < 0
         \<and> \<not> (GexRow.gex_oi_raw r = Num 0 \<and> GexRow.gex_vol_raw r = Num 0)" .
  then have c2: "\<exists>r\<in>set ?rows. GexRow.strike r = Num 1900
         \<and> val (GexRow.gex_oi_raw r) < 0 \<and> val (GexRow.gex_vol_raw r) < 0"
    by (simp add: mk_row_def)
  have fd: "find (\<lambda>r. GexRow.strike r = Num 1950) ?rows = Some (mk_row 1950 0 0)"
    by (simp add: mk_row_def)
  from T [THEN conjunct2, THEN conjunct2, THEN conjunct1, THEN bspec, OF m3]
  obtain e where "find (\<lambda>r. GexRow.strike r = Level.strike ?fl) ?rows = Some e"
    and "Level.gex_oi_raw ?fl = Some (Num 0) \<and> Level.gex_vol_raw ?fl = Some (Num 0)
           \<longleftrightarrow> zero_row e"
    by blast
  with fd have c0: "zero_row (mk_row 1950 0 0)" by simp
  from T [THEN conjunct2, THEN conjunct2, THEN conjunct2, THEN conjunct1, THEN mp, OF za]
  have z: "\<forall>l\<in>set (compute_levels ?rows).
           Level.name l \<in> {''R1'', ''R2'', ''S1'', ''S2''} \<longrightarrow>
             (\<forall>z\<in>set ?rows. GexRow.strike z = Level.strike l \<longrightarrow> \<not> zero_row z)
             \<and> \<not> (Level.gex_oi_raw l = Some (Num 0) \<and> Level.gex_vol_raw l = Some (Num 0))" .
  from z [THEN bspec, OF m1, THEN mp, OF k1, THEN conjunct1]
  have "\<forall>z\<in>set ?rows. GexRow.strike z = Level.strike ?r1 \<longrightarrow> \<not> zero_row z" .
  then have c3: "\<not> zero_row (mk_row 2000 100 50)"
    by (simp add: mk_row_def)
  from z [THEN bspec, OF m2, THEN mp, OF k2, THEN conjunct1]
  have "\<forall>z\<in>set ?rows. GexRow.strike z = Level.strike ?s1 \<longrightarrow> \<not> zero_row z" .
  then have c4: "\<not> zero_row (mk_row 1900 (- 120) (- 40))"
    by (simp add: mk_row_def)
  from T [THEN conjunct2, THEN conjunct2, THEN conjunct2, THEN conjunct2, THEN conjunct1,
      THEN bspec, OF m3, THEN mp, OF n3]
  have "(\<exists>r\<in>set (flip_group ?rows). GexRow.strike r = Level.strike ?fl)
        \<and> (\<exists>sc. (Level.strike ?fl, sc) \<in> set (flip_scored (flip_group ?rows))
              \<and> (\<forall>e\<in>set (flip_scored (flip_group ?rows)). sc \<le> snd e))" .
  then have c5: "\<exists>sc. (Num 1950, sc) \<in> set (flip_scored (flip_group ?rows))"
    by auto
  from T [THEN conjunct2, THEN conjunct2, THEN conjunct2, THEN conjunct2, THEN conjunct2,
      THEN conjunct1, THEN spec, THEN spec, THEN mp, OF conjI, OF ra sa]
  have "set (flip_group ?rows)
          = {r \<in> set ?rows. finite_number (GexRow.strike r)
               \<and> min (val (Num 2000)) (val (Num 1900)) \<le> val (GexRow.strike r)
               \<and> val (GexRow.strike r) \<le> max (val (Num 2000)) (val (Num 1900))
               \<and> finite_number (GexRow.gex_oi_raw r) \<and> finite_number (GexRow.gex_vol_raw r)}" .
  then have c6: "mk_row 1950 0 0 \<in> set (flip_group ?rows)"
    by (simp add: mk_row_def)
  from za cl c1 c2 fd c0 c3 c4 c5 c6 show ?thesis by blast
qed

subsection \<open>Permutations of the rows\<close>

lemma rankMap_perm:
  assumes m: "mset grp' = mset grp"
    and fin: "\<forall>r\<in>set grp. finite_number (key r)"
    and inj: "inj_on (\<lambda>r. val (key r)) (set grp)"
  shows "rankMap grp' key desc = rankMap grp key desc"
proof -
  from m have s: "set grp' = set grp" by (rule mset_eq_setD)
  have "inj_on (rank_key key desc) (set grp')"
    using inj unfolding s by (auto simp: inj_on_def rank_key_def)
  with m have "sort_key (rank_key key desc) grp' = sort_key (rank_key key desc) grp"
    by (intro sort_key_perm)
  with fin s show ?thesis by (simp add: rankMap_sort_key)
qed

lemma rankMapAbs_perm:
  assumes m: "mset grp' = mset grp"
    and fin: "\<forall>r\<in>set grp. finite_number (key r)"
    and inj: "inj_on (\<lambda>r. \<bar>val (key r)\<bar>) (set grp)"
  shows "rankMapAbs grp' key = rankMapAbs grp key"
proof -
  from m have s: "set grp' = set grp" by (rule mset_eq_setD)
  from inj have "inj_on (\<lambda>r. \<bar>val (key r)\<bar>) (set grp')" by (simp add: s)
  with m have "sort_key (\<lambda>r. \<bar>val (key r)\<bar>) grp' = sort_key (\<lambda>r. \<bar>val (key r)\<bar>) grp"
    by (intro sort_key_perm)
  with fin s show ?thesis by (simp add: rankMapAbs_sort_key)
qed

lemma scored_sorted_perm:
  assumes m: "mset grp' = mset grp"
    and fin: "\<forall>r\<in>set grp. finite_number (GexRow.gex_oi_raw r) \<and> finite_number (GexRow.gex_vol_raw r)"
    and d: "distinct (map GexRow.strike grp)"
    and io: "inj_on (\<lambda>r. val (GexRow.gex_oi_raw r)) (set grp)"
    and iv: "inj_on (\<lambda>r. val (GexRow.gex_vol_raw r)) (set grp)"
  shows "scored_sorted grp' desc = scored_sorted grp desc"
proof -
  let ?f = "group_scored grp desc"
  let ?k = "\<lambda>s. (score s, oiR s, volR s)"
  from m have s: "set grp' = set grp" by (rule mset_eq_setD)
  have ro: "rankMap grp' GexRow.gex_oi_raw desc = rankMap grp GexRow.gex_oi_raw desc"
    using m fin io by (intro rankMap_perm) simp_all
  have rv: "rankMap grp' GexRow.gex_vol_raw desc = rankMap grp GexRow.gex_vol_raw desc"
    using m fin iv by (intro rankMap_perm) simp_all
  have f: "group_scored grp' desc = ?f"
    by (simp add: group_scored_def ro rv)
  have mm: "mset (map ?f grp') = mset (map ?f grp)"
    using m by simp
  from group_ranks(1) [OF fin d, of desc]
  have rk: "\<forall>p\<in>set grp. \<forall>q\<in>set grp. p \<noteq> q \<longrightarrow> oiR (?f p) \<noteq> oiR (?f q)"
    by (simp add: ranks_by_def)
  have "inj_on ?k (set (map ?f grp'))"
  proof (rule inj_onI)
    fix a b
    assume a: "a \<in> set (map ?f grp')" and b: "b \<in> set (map ?f grp')" and e: "?k a = ?k b"
    from a s obtain p where p: "p \<in> set grp" "a = ?f p" by auto
    from b s obtain q where q: "q \<in> set grp" "b = ?f q" by auto
    from e p q have "oiR (?f p) = oiR (?f q)" by simp
    with rk p q have "p = q" by blast
    with p q show "a = b" by simp
  qed
  with mm have "sort_key ?k (map ?f grp') = sort_key ?k (map ?f grp)"
    by (intro sort_key_perm)
  then show ?thesis by (simp add: scored_sorted_def f js_sort_score)
qed

lemma distinct_map_inj: "distinct (map f xs) \<Longrightarrow> inj_on f (set xs)"
  by (simp add: distinct_map)

lemma pickLinesByRaw_perm:
  assumes m: "mset rows' = mset rows"
    and d: "distinct (map GexRow.strike rows)"
    and po: "distinct (map (\<lambda>r. val (GexRow.gex_oi_raw r)) (pos_rows rows))"
    and pv: "distinct (map (\<lambda>r. val (GexRow.gex_vol_raw r)) (pos_rows rows))"
    and no: "distinct (map (\<lambda>r. val (GexRow.gex_oi_raw r)) (neg_rows rows))"
    and nv: "distinct (map (\<lambda>r. val (GexRow.gex_vol_raw r)) (neg_rows rows))"
  shows "pickLinesByRaw rows' = pickLinesByRaw rows"
proof -
  have mp: "mset (pos_rows rows') = mset (pos_rows rows)"
    using m by (simp add: pos_rows_def)
  have mn: "mset (neg_rows rows') = mset (neg_rows rows)"
    using m by (simp add: neg_rows_def)
  have dp: "distinct (map GexRow.strike (pos_rows rows))"
    using d by (simp add: pos_rows_def distinct_map_filter)
  have dn: "distinct (map GexRow.strike (neg_rows rows))"
    using d by (simp add: neg_rows_def distinct_map_filter)
  have pf: "\<forall>r\<in>set (pos_rows rows).
      finite_number (GexRow.gex_oi_raw r) \<and> finite_number (GexRow.gex_vol_raw r)"
    using pos_rows_finite by blast
  have nf: "\<forall>r\<in>set (neg_rows rows).
      finite_number (GexRow.gex_oi_raw r) \<and> finite_number (GexRow.gex_vol_raw r)"
    using neg_rows_finite by blast
  have sp: "scored_sorted (pos_rows rows') True = scored_sorted (pos_rows rows) True"
    by (rule scored_sorted_perm [OF mp pf dp distinct_map_inj [OF po] distinct_map_inj [OF pv]])
  have sn: "scored_sorted (neg_rows rows') False = scored_sorted (neg_rows rows) False"
    by (rule scored_sorted_perm [OF mn nf dn distinct_map_inj [OF no] distinct_map_inj [OF nv]])
  from mp have ep: "pos_rows rows' = [] \<longleftrightarrow> pos_rows rows = []"
    by (metis mset_zero_iff)
  from mn have en: "neg_rows rows' = [] \<longleftrightarrow> neg_rows rows = []"
    by (metis mset_zero_iff)
  show ?thesis
    by (simp add: pickLinesByRaw_def Let_def sp sn ep en)
qed

lemma between_rows_finite:
  "r \<in> set (between_rows rows lo hi) \<Longrightarrow>
   finite_number (GexRow.strike r) \<and> finite_number (GexRow.gex_oi_raw r)
   \<and> finite_number (GexRow.gex_vol_raw r)"
  by (simp add: between_rows_def)

lemma flip_scored_perm:
  assumes m: "mset grp' = mset grp"
    and fin: "\<forall>r\<in>set grp. finite_number (GexRow.gex_oi_raw r) \<and> finite_number (GexRow.gex_vol_raw r)"
    and ia: "inj_on (\<lambda>r. \<bar>val (GexRow.gex_oi_raw r)\<bar>) (set grp)"
    and iv: "inj_on (\<lambda>r. val (GexRow.gex_vol_raw r)) (set grp)"
  shows "mset (flip_scored grp') = mset (flip_scored grp)"
proof -
  have ra: "rankMapAbs grp' GexRow.gex_oi_raw = rankMapAbs grp GexRow.gex_oi_raw"
    using m fin ia by (intro rankMapAbs_perm) simp_all
  have rv: "rankMap grp' GexRow.gex_vol_raw True = rankMap grp GexRow.gex_vol_raw True"
    using m fin iv by (intro rankMap_perm) simp_all
  show ?thesis
    using m by (simp add: flip_scored_def Let_def ra rv)
qed

lemma pickZeroGammaStrike_perm:
  assumes m: "mset rows' = mset rows"
    and g: "finite_opt r1 \<and> finite_opt s1 \<longrightarrow>
      (let grp = between_rows rows (Num (min (val (the r1)) (val (the s1))))
                   (Num (max (val (the r1)) (val (the s1))))
       in distinct (map (\<lambda>r. \<bar>val (GexRow.gex_oi_raw r)\<bar>) grp)
          \<and> distinct (map (\<lambda>r. val (GexRow.gex_vol_raw r)) grp)
          \<and> unique_lowest (flip_scored grp))"
  shows "pickZeroGammaStrike rows' r1 s1 = pickZeroGammaStrike rows r1 s1"
proof (cases "finite_opt r1 \<and> finite_opt s1")
  case False
  then show ?thesis by (auto simp: pickZeroGammaStrike_def)
next
  case True
  then have fo: "finite_opt r1" "finite_opt s1" by simp_all
  let ?lo = "Num (min (val (the r1)) (val (the s1)))"
  let ?hi = "Num (max (val (the r1)) (val (the s1)))"
  let ?g = "between_rows rows ?lo ?hi"
  let ?g' = "between_rows rows' ?lo ?hi"
  from g True have da: "distinct (map (\<lambda>r. \<bar>val (GexRow.gex_oi_raw r)\<bar>) ?g)"
    and dv: "distinct (map (\<lambda>r. val (GexRow.gex_vol_raw r)) ?g)"
    and ul: "unique_lowest (flip_scored ?g)"
    by (simp_all add: Let_def)
  have mg: "mset ?g' = mset ?g" using m by (simp add: between_rows_def)
  have fin: "\<forall>r\<in>set ?g. finite_number (GexRow.gex_oi_raw r) \<and> finite_number (GexRow.gex_vol_raw r)"
    using between_rows_finite by blast
  have "mset (flip_scored ?g') = mset (flip_scored ?g)"
    by (rule flip_scored_perm [OF mg fin distinct_map_inj [OF da] distinct_map_inj [OF dv]])
  then have ss: "set (flip_scored ?g') = set (flip_scored ?g)" by (rule mset_eq_setD)
  from mg have e: "?g' = [] \<longleftrightarrow> ?g = []" by (metis mset_zero_iff)
  show ?thesis
  proof (cases "?g = []")
    case True
    with e fo show ?thesis by (simp add: pickZeroGammaStrike_def Let_def)
  next
    case False
    with e have ne': "?g' \<noteq> []" by simp
    from flip_head_least [OF False] obtain a rest where
      a: "js_sort (\<lambda>a b. Num (of_int (snd a - snd b))) (flip_scored ?g) = a # rest"
        "a \<in> set (flip_scored ?g)" "\<forall>e\<in>set (flip_scored ?g). snd a \<le> snd e"
      by blast
    from flip_head_least [OF ne'] obtain a' rest' where
      a': "js_sort (\<lambda>a b. Num (of_int (snd a - snd b))) (flip_scored ?g') = a' # rest'"
        "a' \<in> set (flip_scored ?g')" "\<forall>e\<in>set (flip_scored ?g'). snd a' \<le> snd e"
      by blast
    from a'(2,3) have "a' \<in> set (flip_scored ?g)" "\<forall>e\<in>set (flip_scored ?g). snd a' \<le> snd e"
      unfolding ss by simp_all
    with ul a(2,3) have "a' = a" unfolding unique_lowest_def by blast
    with fo False ne' a(1) a'(1) show ?thesis
      by (simp add: pickZeroGammaStrike_def Let_def del: of_int_diff)
  qed
qed

lemma pickZeroGammaStrike_row:
  assumes "pickZeroGammaStrike rows r1 s1 = Some x"
  shows "\<exists>r\<in>set rows. GexRow.strike r = x \<and> finite_number x"
proof -
  from assms have fo: "finite_opt r1 \<and> finite_opt s1"
    by (auto simp: pickZeroGammaStrike_def split: if_splits)
  let ?g = "between_rows rows (Num (min (val (the r1)) (val (the s1))))
                   (Num (max (val (the r1)) (val (the s1))))"
  let ?s = "js_sort (\<lambda>a b. Num (of_int (snd a - snd b))) (flip_scored ?g)"
  from assms fo obtain a rest where s: "?s = a # rest" "fst a = x"
    by (auto simp: pickZeroGammaStrike_def Let_def split: if_splits list.splits)
  then have "a \<in> set ?s" by simp
  then have "a \<in> set (flip_scored ?g)" by (simp add: set_js_sort)
  then obtain r where "r \<in> set ?g" "fst a = GexRow.strike r"
    by (auto simp: flip_scored_def Let_def)
  with s(2) show ?thesis by (auto simp: between_rows_def)
qed

lemma find_perm_unique:
  assumes m: "mset xs = mset ys"
    and u: "\<forall>a\<in>set xs. \<forall>b\<in>set xs. P a \<and> P b \<longrightarrow> a = b"
  shows "find P xs = find P ys"
proof -
  from m have s: "set xs = set ys" by (rule mset_eq_setD)
  show ?thesis
  proof (cases "find P xs")
    case None
    then have "\<forall>a\<in>set ys. \<not> P a" using s by (auto simp: find_None_iff)
    then have "find P ys = None" by (auto simp: find_None_iff)
    with None show ?thesis by simp
  next
    case (Some a)
    then have a: "a \<in> set xs" "P a"
      by (auto simp: find_Some_iff in_set_conv_nth)
    then have "\<exists>b\<in>set ys. P b" using s by auto
    then obtain b where b: "find P ys = Some b"
      by (cases "find P ys") (auto simp: find_None_iff)
    then have "b \<in> set ys" "P b"
      by (auto simp: find_Some_iff in_set_conv_nth)
    with a u s have "a = b" by blast
    with Some b show ?thesis by simp
  qed
qed

lemma getRow_perm:
  assumes m: "mset rows' = mset rows"
    and d: "distinct (map GexRow.strike rows)"
    and ex: "\<exists>r\<in>set rows. GexRow.strike r = x \<and> finite_number x"
  shows "getRow rows' (Some x) = getRow rows (Some x)"
proof -
  let ?P = "\<lambda>r. num_eq (GexRow.strike r) x"
  have u: "\<forall>a\<in>set rows. \<forall>b\<in>set rows. ?P a \<and> ?P b \<longrightarrow> a = b"
    using d by (auto simp: num_eq_def distinct_map inj_on_def)
  from find_perm_unique [OF m [symmetric] u] have f: "find ?P rows' = find ?P rows" by simp
  from ex obtain r where r: "r \<in> set rows" "GexRow.strike r = x" "finite_number x" by blast
  then have "x \<noteq> NaN" by (cases x) simp_all
  with r have "\<exists>r\<in>set rows. ?P r" by (auto simp: num_eq_def)
  then obtain e where e: "find ?P rows = Some e"
    by (cases "find ?P rows") (auto simp: find_None_iff)
  with f show ?thesis by (simp add: getRow_def finite_opt_def r(3))
qed

lemma pushLevel_perm:
  assumes m: "mset rows' = mset rows"
    and d: "distinct (map GexRow.strike rows)"
    and ex: "\<forall>x. s = Some x \<longrightarrow> (\<exists>r\<in>set rows. GexRow.strike r = x \<and> finite_number x)"
  shows "pushLevel rows' ls nm s sd = pushLevel rows ls nm s sd"
proof (cases s)
  case None
  then show ?thesis by (simp add: pushLevel_def finite_opt_def)
next
  case (Some x)
  with ex have "\<exists>r\<in>set rows. GexRow.strike r = x \<and> finite_number x" by simp
  from getRow_perm [OF m d this] Some show ?thesis by (simp add: pushLevel_def)
qed

lemma find_label_row_pos:
  "find_label (red (pickLinesByRaw rows)) l = Some x \<Longrightarrow>
   \<exists>r\<in>set rows. GexRow.strike r = x \<and> finite_number x"
proof -
  assume "find_label (red (pickLinesByRaw rows)) l = Some x"
  from find_label_mem [OF this] obtain mk where
    "mk \<in> set (red (pickLinesByRaw rows))" "LineMark.strike mk = x" by blast
  with red_mark_row obtain r where "r \<in> set (pos_rows rows)" "GexRow.strike r = x" by metis
  then show ?thesis unfolding pos_rows_set by auto
qed

lemma find_label_row_neg:
  "find_label (green (pickLinesByRaw rows)) l = Some x \<Longrightarrow>
   \<exists>r\<in>set rows. GexRow.strike r = x \<and> finite_number x"
proof -
  assume "find_label (green (pickLinesByRaw rows)) l = Some x"
  from find_label_mem [OF this] obtain mk where
    "mk \<in> set (green (pickLinesByRaw rows))" "LineMark.strike mk = x" by blast
  with green_mark_row obtain r where "r \<in> set (neg_rows rows)" "GexRow.strike r = x" by metis
  then show ?thesis unfolding neg_rows_set by auto
qed

text \<open>
  C3. For a row list with pairwise distinct strikes in which no ranking meets a tie
  (\<open>no_ties\<close>: the ranked exposures are pairwise distinct within each regime and among
  the rows between R1 and S1, and one row only has the lowest Flip score), every
  permutation of the list gives the same lines and the same levels: the same names with
  the same strikes and the same attached exposure values.
\<close>

theorem levels_permutation_invariant:
  assumes m: "mset rows' = mset rows"
    and d: "distinct (map GexRow.strike rows)"
    and nt: "no_ties rows"
  shows "pickLinesByRaw rows' = pickLinesByRaw rows
         \<and> compute_levels rows' = compute_levels rows
         \<and> assignments (compute_levels rows') = assignments (compute_levels rows)"
proof -
  let ?lines = "pickLinesByRaw rows"
  let ?r1 = "find_label (red ?lines) ''R1''"
  let ?r2 = "find_label (red ?lines) ''R2''"
  let ?s1 = "find_label (green ?lines) ''S1''"
  let ?s2 = "find_label (green ?lines) ''S2''"
  let ?flip = "pickZeroGammaStrike rows ?r1 ?s1"
  from nt have lines: "pickLinesByRaw rows' = ?lines"
    by (intro pickLinesByRaw_perm [OF m d]) (simp_all add: no_ties_def)
  have "finite_opt ?r1 \<and> finite_opt ?s1 \<longrightarrow>
      (let grp = between_rows rows (Num (min (val (the ?r1)) (val (the ?s1))))
                   (Num (max (val (the ?r1)) (val (the ?s1))))
       in distinct (map (\<lambda>r. \<bar>val (GexRow.gex_oi_raw r)\<bar>) grp)
          \<and> distinct (map (\<lambda>r. val (GexRow.gex_vol_raw r)) grp)
          \<and> unique_lowest (flip_scored grp))"
    using nt by (auto simp: no_ties_def flip_group_def Let_def)
  from pickZeroGammaStrike_perm [OF m this]
  have flip: "pickZeroGammaStrike rows' ?r1 ?s1 = ?flip" .
  have e1: "\<forall>x. ?r1 = Some x \<longrightarrow> (\<exists>r\<in>set rows. GexRow.strike r = x \<and> finite_number x)"
    using find_label_row_pos by blast
  have e2: "\<forall>x. ?r2 = Some x \<longrightarrow> (\<exists>r\<in>set rows. GexRow.strike r = x \<and> finite_number x)"
    using find_label_row_pos by blast
  have e3: "\<forall>x. ?s1 = Some x \<longrightarrow> (\<exists>r\<in>set rows. GexRow.strike r = x \<and> finite_number x)"
    using find_label_row_neg by blast
  have e4: "\<forall>x. ?s2 = Some x \<longrightarrow> (\<exists>r\<in>set rows. GexRow.strike r = x \<and> finite_number x)"
    using find_label_row_neg by blast
  have e5: "\<forall>x. ?flip = Some x \<longrightarrow> (\<exists>r\<in>set rows. GexRow.strike r = x \<and> finite_number x)"
    using pickZeroGammaStrike_row by blast
  have levels: "compute_levels rows' = compute_levels rows"
    unfolding compute_levels_def Let_def lines flip
    by (simp only: pushLevel_perm [OF m d e1] pushLevel_perm [OF m d e2]
        pushLevel_perm [OF m d e3] pushLevel_perm [OF m d e4] pushLevel_perm [OF m d e5])
  from lines levels show ?thesis by simp
qed

theorem levels_permutation_invariant_witness:
  "mset [mk_row 1960 30 (- 1), mk_row 1950 20 (- 2), mk_row 1900 (- 120) (- 40),
         mk_row 2000 10 50]
     = mset [mk_row 2000 10 50, mk_row 1900 (- 120) (- 40), mk_row 1950 20 (- 2),
             mk_row 1960 30 (- 1)]
   \<and> distinct (map GexRow.strike [mk_row 2000 10 50, mk_row 1900 (- 120) (- 40),
        mk_row 1950 20 (- 2), mk_row 1960 30 (- 1)])
   \<and> no_ties [mk_row 2000 10 50, mk_row 1900 (- 120) (- 40), mk_row 1950 20 (- 2),
        mk_row 1960 30 (- 1)]
   \<and> map snd (flip_scored (flip_group [mk_row 2000 10 50, mk_row 1900 (- 120) (- 40),
        mk_row 1950 20 (- 2), mk_row 1960 30 (- 1)])) = [2, 8, 5, 5]
   \<and> compute_levels [mk_row 1960 30 (- 1), mk_row 1950 20 (- 2), mk_row 1900 (- 120) (- 40),
        mk_row 2000 10 50]
     = [\<lparr>name = ''R1'', strike = Num 2000, gex_oi_raw = Some (Num 10),
          gex_vol_raw = Some (Num 50), side = Some ''ce''\<rparr>,
        \<lparr>name = ''S1'', strike = Num 1900, gex_oi_raw = Some (Num (- 120)),
          gex_vol_raw = Some (Num (- 40)), side = Some ''pe''\<rparr>,
        \<lparr>name = ''Flip'', strike = Num 2000, gex_oi_raw = Some (Num 10),
          gex_vol_raw = Some (Num 50), side = None\<rparr>]"
proof -
  let ?rows = "[mk_row 2000 10 50, mk_row 1900 (- 120) (- 40), mk_row 1950 20 (- 2),
        mk_row 1960 30 (- 1)]"
  let ?perm = "[mk_row 1960 30 (- 1), mk_row 1950 20 (- 2), mk_row 1900 (- 120) (- 40),
         mk_row 2000 10 50]"
  have m: "mset ?perm = mset ?rows" by simp
  have d: "distinct (map GexRow.strike ?rows)" by (simp add: mk_row_def)
  have fg: "flip_group ?rows = ?rows"
    by (simp add: flip_group_def levels_eval)
  have pr: "pos_rows ?rows = [mk_row 2000 10 50]"
    by (simp add: pos_rows_def valid_row_def num_eq_def mk_row_def)
  have nr: "neg_rows ?rows = [mk_row 1900 (- 120) (- 40)]"
    by (simp add: neg_rows_def valid_row_def num_eq_def mk_row_def)
  have fs: "flip_scored ?rows = [(Num 2000, 2), (Num 1900, 8), (Num 1950, 5), (Num 1960, 5)]"
    by (simp add: levels_eval)
  have ul: "unique_lowest [(Num 2000, 2), (Num 1900, 8), (Num 1950, 5), (Num 1960, 5)]"
    by (simp add: unique_lowest_def)
  have nt: "no_ties ?rows"
    unfolding no_ties_def fg pr nr fs using ul by (simp add: mk_row_def)
  have sc: "map snd (flip_scored (flip_group ?rows)) = [2, 8, 5, 5]"
    unfolding fg fs by simp
  have ev: "compute_levels ?rows
     = [\<lparr>name = ''R1'', strike = Num 2000, gex_oi_raw = Some (Num 10),
          gex_vol_raw = Some (Num 50), side = Some ''ce''\<rparr>,
        \<lparr>name = ''S1'', strike = Num 1900, gex_oi_raw = Some (Num (- 120)),
          gex_vol_raw = Some (Num (- 40)), side = Some ''pe''\<rparr>,
        \<lparr>name = ''Flip'', strike = Num 2000, gex_oi_raw = Some (Num 10),
          gex_vol_raw = Some (Num 50), side = None\<rparr>]"
    by (simp add: levels_eval)
  from levels_permutation_invariant [OF m d nt] ev
  have "compute_levels ?perm
     = [\<lparr>name = ''R1'', strike = Num 2000, gex_oi_raw = Some (Num 10),
          gex_vol_raw = Some (Num 50), side = Some ''ce''\<rparr>,
        \<lparr>name = ''S1'', strike = Num 1900, gex_oi_raw = Some (Num (- 120)),
          gex_vol_raw = Some (Num (- 40)), side = Some ''pe''\<rparr>,
        \<lparr>name = ''Flip'', strike = Num 2000, gex_oi_raw = Some (Num 10),
          gex_vol_raw = Some (Num 50), side = None\<rparr>]"
    by simp
  with m d nt sc show ?thesis by blast
qed

text \<open>
  Each condition is needed. In the positive regime, two rows with equal exposures, two
  rows with equal open-interest exposure only, and two rows with equal volume exposure
  only, change R1 or R2 when their order is swapped. Between R1 and S1, two rows with
  equal absolute open-interest exposure, and two rows with equal volume exposure, change
  the Flip level when the list is reordered; and with all exposures distinct, two rows
  that share the lowest Flip score exchange the Flip level when the list is rotated.
  Two rows at one strike exchange the exposure values attached to the levels when their
  order is swapped.
\<close>

theorem row_order_counterexample:
  "mset [mk_row 2100 100 50, mk_row 2000 100 50]
     = mset [mk_row 2000 100 50, mk_row 2100 100 50]
   \<and> assignments (compute_levels [mk_row 2000 100 50, mk_row 2100 100 50])
       = [(''R1'', Num 2000), (''R2'', Num 2100)]
   \<and> assignments (compute_levels [mk_row 2100 100 50, mk_row 2000 100 50])
       = [(''R1'', Num 2100), (''R2'', Num 2000)]
   \<and> mset [mk_row 2100 100 60, mk_row 2000 100 50]
     = mset [mk_row 2000 100 50, mk_row 2100 100 60]
   \<and> assignments (compute_levels [mk_row 2000 100 50, mk_row 2100 100 60])
       = [(''R1'', Num 2000), (''R2'', Num 2100)]
   \<and> assignments (compute_levels [mk_row 2100 100 60, mk_row 2000 100 50])
       = [(''R1'', Num 2100), (''R2'', Num 2000)]
   \<and> mset [mk_row 2100 90 10, mk_row 2000 100 10, mk_row 2200 80 100, mk_row 2300 70 90]
     = mset [mk_row 2000 100 10, mk_row 2100 90 10, mk_row 2200 80 100, mk_row 2300 70 90]
   \<and> assignments (compute_levels
        [mk_row 2000 100 10, mk_row 2100 90 10, mk_row 2200 80 100, mk_row 2300 70 90])
       = [(''R1'', Num 2000), (''R2'', Num 2200)]
   \<and> assignments (compute_levels
        [mk_row 2100 90 10, mk_row 2000 100 10, mk_row 2200 80 100, mk_row 2300 70 90])
       = [(''R1'', Num 2000), (''R2'', Num 2100)]
   \<and> mset [mk_row 1900 (- 100) (- 40), mk_row 2000 100 50]
     = mset [mk_row 2000 100 50, mk_row 1900 (- 100) (- 40)]
   \<and> assignments (compute_levels [mk_row 2000 100 50, mk_row 1900 (- 100) (- 40)])
       = [(''R1'', Num 2000), (''S1'', Num 1900), (''Flip'', Num 2000)]
   \<and> assignments (compute_levels [mk_row 1900 (- 100) (- 40), mk_row 2000 100 50])
       = [(''R1'', Num 2000), (''S1'', Num 1900), (''Flip'', Num 1900)]
   \<and> mset [mk_row 1950 (- 10) 50, mk_row 2000 100 50, mk_row 1900 (- 120) (- 40)]
     = mset [mk_row 2000 100 50, mk_row 1900 (- 120) (- 40), mk_row 1950 (- 10) 50]
   \<and> assignments (compute_levels
        [mk_row 2000 100 50, mk_row 1900 (- 120) (- 40), mk_row 1950 (- 10) 50])
       = [(''R1'', Num 2000), (''S1'', Num 1900), (''Flip'', Num 2000)]
   \<and> assignments (compute_levels
        [mk_row 1950 (- 10) 50, mk_row 2000 100 50, mk_row 1900 (- 120) (- 40)])
       = [(''R1'', Num 2000), (''S1'', Num 1900), (''Flip'', Num 1950)]
   \<and> mset [mk_row 1950 10 (- 5), mk_row 2000 100 50, mk_row 1900 (- 120) (- 40)]
     = mset [mk_row 2000 100 50, mk_row 1900 (- 120) (- 40), mk_row 1950 10 (- 5)]
   \<and> assignments (compute_levels
        [mk_row 2000 100 50, mk_row 1900 (- 120) (- 40), mk_row 1950 10 (- 5)])
       = [(''R1'', Num 2000), (''S1'', Num 1900), (''Flip'', Num 2000)]
   \<and> assignments (compute_levels
        [mk_row 1950 10 (- 5), mk_row 2000 100 50, mk_row 1900 (- 120) (- 40)])
       = [(''R1'', Num 2000), (''S1'', Num 1900), (''Flip'', Num 1950)]
   \<and> mset [mk_row 1 10 10, mk_row 1 100 100] = mset [mk_row 1 100 100, mk_row 1 10 10]
   \<and> compute_levels [mk_row 1 100 100, mk_row 1 10 10]
       = [\<lparr>name = ''R1'', strike = Num 1, gex_oi_raw = Some (Num 100),
            gex_vol_raw = Some (Num 100), side = Some ''ce''\<rparr>,
          \<lparr>name = ''R2'', strike = Num 1, gex_oi_raw = Some (Num 100),
            gex_vol_raw = Some (Num 100), side = Some ''ce''\<rparr>]
   \<and> compute_levels [mk_row 1 10 10, mk_row 1 100 100]
       = [\<lparr>name = ''R1'', strike = Num 1, gex_oi_raw = Some (Num 10),
            gex_vol_raw = Some (Num 10), side = Some ''ce''\<rparr>,
          \<lparr>name = ''R2'', strike = Num 1, gex_oi_raw = Some (Num 10),
            gex_vol_raw = Some (Num 10), side = Some ''ce''\<rparr>]"
  by (simp add: assignments_def levels_eval)

section \<open>Properties of the pacer\<close>

lemma admit_bounds:
  assumes "admit g qg st r = (t, st')"
  shows "watermark st \<le> t \<and> clock st \<le> t \<and> ready_at r \<le> t
         \<and> watermark st' = t + g \<and> clock st' = t"
  using assms by (auto simp: admit_def Let_def split: option.splits)

lemma schedule_all_after:
  "(t, r) \<in> set (schedule_all g qg st rs) \<Longrightarrow>
   watermark st \<le> t \<and> clock st \<le> t \<and> ready_at r \<le> t"
proof (induction rs arbitrary: st)
  case Nil
  then show ?case by simp
next
  case (Cons a rs)
  obtain t0 st' where ad: "admit g qg st a = (t0, st')" by (cases "admit g qg st a")
  note b = admit_bounds [OF ad]
  from Cons.prems ad consider "(t, r) = (t0, a)" | "(t, r) \<in> set (schedule_all g qg st' rs)"
    by auto
  then show ?case
  proof cases
    case 1
    with b show ?thesis by simp
  next
    case 2
    from Cons.IH [OF 2] b show ?thesis by simp
  qed
qed

lemma schedule_all_calls: "map snd (schedule_all g qg st rs) = rs"
  by (induction rs arbitrary: st) (auto split: prod.splits)

lemma schedule_all_spaced:
  "sorted_wrt (\<lambda>a b. fst a + g \<le> fst b) (schedule_all g qg st rs)"
proof (induction rs arbitrary: st)
  case Nil
  then show ?case by simp
next
  case (Cons a rs)
  obtain t0 st' where ad: "admit g qg st a = (t0, st')" by (cases "admit g qg st a")
  note b = admit_bounds [OF ad]
  have "\<forall>x\<in>set (schedule_all g qg st' rs). t0 + g \<le> fst x"
  proof
    fix x assume "x \<in> set (schedule_all g qg st' rs)"
    then have "(fst x, snd x) \<in> set (schedule_all g qg st' rs)" by simp
    from schedule_all_after [OF this] b show "t0 + g \<le> fst x" by simp
  qed
  with Cons.IH [of st'] ad show ?case by simp
qed

text \<open>
  C9. For every list of requests, from any sub-queues and with any arrival times, and
  from any state of the pacer: every request is dispatched, once and in arrival order;
  any two dispatches start at least the global minimum gap apart, in particular
  consecutive ones; and no request is dispatched before it arrived, so that the pacing
  shows only as delay.
\<close>

theorem pacer_min_gap:
  "map snd (schedule_all g qg st rs) = rs
   \<and> length (schedule_all g qg st rs) = length rs
   \<and> sorted_wrt (\<lambda>a b. fst a + g \<le> fst b) (schedule_all g qg st rs)
   \<and> (\<forall>i. Suc i < length rs \<longrightarrow>
        fst (schedule_all g qg st rs ! i) + g \<le> fst (schedule_all g qg st rs ! Suc i))
   \<and> (\<forall>x\<in>set (schedule_all g qg st rs). ready_at (snd x) \<le> fst x)"
proof (intro conjI allI impI ballI)
  show c: "map snd (schedule_all g qg st rs) = rs" by (rule schedule_all_calls)
  then show l: "length (schedule_all g qg st rs) = length rs"
    by (metis length_map)
  show s: "sorted_wrt (\<lambda>a b. fst a + g \<le> fst b) (schedule_all g qg st rs)"
    by (rule schedule_all_spaced)
  fix i assume "Suc i < length rs"
  with l have "i < Suc i" "Suc i < length (schedule_all g qg st rs)" by simp_all
  from sorted_wrt_nth_less [OF s this]
  show "fst (schedule_all g qg st rs ! i) + g \<le> fst (schedule_all g qg st rs ! Suc i)" .
next
  fix x assume "x \<in> set (schedule_all g qg st rs)"
  then have "(fst x, snd x) \<in> set (schedule_all g qg st rs)" by simp
  from schedule_all_after [OF this] show "ready_at (snd x) \<le> fst x" by simp
qed

theorem pacer_min_gap_witness:
  "map fst (schedule_all 3000 (same_spacing 1000) pacer_init
      [\<lparr>queue = 0, ready_at = 0, call = ''oc''\<rparr>,
       \<lparr>queue = 1, ready_at = 100, call = ''quote''\<rparr>,
       \<lparr>queue = 0, ready_at = 5000, call = ''oc''\<rparr>]) = [0, 3000, 6000]
   \<and> Suc 0 < length [\<lparr>queue = 0, ready_at = 0, call = ''oc''\<rparr>,
       \<lparr>queue = 1, ready_at = 100, call = ''quote''\<rparr>,
       \<lparr>queue = 0, ready_at = 5000, call = ''oc''\<rparr>]
   \<and> fst (schedule_all 3000 (same_spacing 1000) pacer_init
      [\<lparr>queue = 0, ready_at = 0, call = ''oc''\<rparr>,
       \<lparr>queue = 1, ready_at = 100, call = ''quote''\<rparr>,
       \<lparr>queue = 0, ready_at = 5000, call = ''oc''\<rparr>] ! 0) + 3000
     \<le> fst (schedule_all 3000 (same_spacing 1000) pacer_init
      [\<lparr>queue = 0, ready_at = 0, call = ''oc''\<rparr>,
       \<lparr>queue = 1, ready_at = 100, call = ''quote''\<rparr>,
       \<lparr>queue = 0, ready_at = 5000, call = ''oc''\<rparr>] ! Suc 0)
   \<and> map snd (schedule_all 3000 (same_spacing 1000) pacer_init
      [\<lparr>queue = 0, ready_at = 0, call = ''oc''\<rparr>,
       \<lparr>queue = 1, ready_at = 100, call = ''quote''\<rparr>,
       \<lparr>queue = 0, ready_at = 5000, call = ''oc''\<rparr>])
     = [\<lparr>queue = 0, ready_at = 0, call = ''oc''\<rparr>,
       \<lparr>queue = 1, ready_at = 100, call = ''quote''\<rparr>,
       \<lparr>queue = 0, ready_at = 5000, call = ''oc''\<rparr>]"
proof -
  let ?rs = "[\<lparr>queue = 0, ready_at = 0, call = ''oc''\<rparr>,
       \<lparr>queue = 1, ready_at = 100, call = ''quote''\<rparr>,
       \<lparr>queue = 0, ready_at = 5000, call = ''oc''\<rparr>]"
  have e: "map fst (schedule_all 3000 (same_spacing 1000) pacer_init ?rs) = [0, 3000, 6000]"
    by (simp add: admit_def pacer_init_def same_spacing_def Let_def)
  have h: "Suc 0 < length ?rs" by simp
  from pacer_min_gap [of 3000 "same_spacing 1000" pacer_init ?rs] h
  have "fst (schedule_all 3000 (same_spacing 1000) pacer_init ?rs ! 0) + 3000
     \<le> fst (schedule_all 3000 (same_spacing 1000) pacer_init ?rs ! Suc 0)"
    and "map snd (schedule_all 3000 (same_spacing 1000) pacer_init ?rs) = ?rs"
    by blast+
  with e h show ?thesis by blast
qed

end
